(* ===== verification/Prelude.thy ===== *)
theory Prelude
  imports Main "HOL-Library.Word" "HOL-Library.Sublist"
begin

text \<open>
  The library's prelude: the rule collections of the development, facts on lists that every
  component shares, and the notion of a run that all the state machines use. A machine is a
  partial step function \<open>'e \<Rightarrow> 's \<Rightarrow> 's option\<close>: \<^const>\<open>None\<close> says that the
  event cannot happen in that state. \<open>run\<close> executes a list of events (so a witness can
  evaluate it), \<open>reachable\<close> is its relational form for rule induction, and the locale
  \<open>machine_invariant\<close> is the interface through which every component proves that
  something holds in all its reachable states.
\<close>

named_theorems page_simps \<open>effects of the operations of a page on the fields of its state\<close>
named_theorems view_simps \<open>what the fragments of a view offer to the user\<close>

subsection \<open>Removing one element by position\<close>

definition remove_nth :: "nat \<Rightarrow> 'a list \<Rightarrow> 'a list" where
  "remove_nth i xs = take i xs @ drop (Suc i) xs"

lemma length_remove_nth [simp]: "i < length xs \<Longrightarrow> length (remove_nth i xs) = length xs - 1"
  by (simp add: remove_nth_def)

lemma set_remove_nth: "set (remove_nth i xs) \<subseteq> set xs"
  by (auto simp: remove_nth_def dest: in_set_takeD in_set_dropD)

lemma in_remove_nthD [dest]: "x \<in> set (remove_nth i xs) \<Longrightarrow> x \<in> set xs"
  using set_remove_nth [of i xs] by blast

lemma set_remove_nth_insert:
  "i < length xs \<Longrightarrow> set xs = insert (xs ! i) (set (remove_nth i xs))"
  using id_take_nth_drop [of i xs]
  by (metis (no_types, lifting) remove_nth_def append_assoc list.simps(15) set_append Un_insert_right)

lemma count_remove_nth:
  assumes "i < length xs"
  shows "length (filter P xs) = length (filter P (remove_nth i xs)) + (if P (xs ! i) then 1 else 0)"
proof -
  have "xs = take i xs @ xs ! i # drop (Suc i) xs"
    using assms by (rule id_take_nth_drop)
  then have "filter P xs = filter P (take i xs) @ filter P [xs ! i] @ filter P (drop (Suc i) xs)"
    by (metis append_Cons append_Nil filter_append)
  then show ?thesis by (simp add: remove_nth_def)
qed

lemma map_remove_nth: "map f (remove_nth i xs) = remove_nth i (map f xs)"
  by (simp add: remove_nth_def take_map drop_map)

lemma distinct_remove_nth:
  assumes "distinct xs" and "i < length xs"
  shows "distinct (remove_nth i xs)" and "xs ! i \<notin> set (remove_nth i xs)"
proof -
  have xs: "xs = take i xs @ xs ! i # drop (Suc i) xs" using assms(2) by (rule id_take_nth_drop)
  have "distinct (take i xs @ xs ! i # drop (Suc i) xs)" using assms(1) xs by simp
  then show "distinct (remove_nth i xs)" and "xs ! i \<notin> set (remove_nth i xs)"
    by (simp_all add: remove_nth_def)
qed

lemma count_update:
  assumes "i < length xs"
  shows "length (filter P (xs[i := y])) + (if P (xs ! i) then 1 else 0) =
    length (filter P xs) + (if P y then 1 else 0)"
proof -
  have "filter P xs = filter P (take i xs) @ filter P [xs ! i] @ filter P (drop (Suc i) xs)"
    using id_take_nth_drop [OF assms] by (metis append_Cons append_Nil filter_append)
  moreover have "filter P (xs[i := y]) = filter P (take i xs) @ filter P [y] @ filter P (drop (Suc i) xs)"
    using assms by (simp add: upd_conv_take_nth_drop)
  ultimately show ?thesis by simp
qed

lemma sum_list_update_less:
  fixes f :: "'a \<Rightarrow> nat"
  assumes "i < length xs" and "f y < f (xs ! i)"
  shows "sum_list (map f (xs[i := y])) < sum_list (map f xs)"
  using assms by (induction xs arbitrary: i) (auto split: nat.splits simp: less_Suc_eq_0_disj)

subsection \<open>Trimming a list at both ends\<close>

definition trim_by :: "('a \<Rightarrow> bool) \<Rightarrow> 'a list \<Rightarrow> 'a list" where
  "trim_by P s = rev (dropWhile P (rev (dropWhile P s)))"

definition trimmed :: "('a \<Rightarrow> bool) \<Rightarrow> 'a list \<Rightarrow> bool" where
  "trimmed P s \<longleftrightarrow> s = [] \<or> \<not> P (hd s) \<and> \<not> P (last s)"

lemma set_dropWhile_not: "\<not> P x \<Longrightarrow> x \<in> set (dropWhile P xs) \<longleftrightarrow> x \<in> set xs"
  by (induction xs) auto

lemma in_trim_iff [simp]: "\<not> P u \<Longrightarrow> u \<in> set (trim_by P s) \<longleftrightarrow> u \<in> set s"
  by (simp add: trim_by_def set_dropWhile_not)

lemma set_trim: "set (trim_by P s) \<subseteq> set s"
  by (auto simp: trim_by_def dest!: set_dropWhileD)

lemma trim_Nil [simp]: "trim_by P [] = []"
  by (simp add: trim_by_def)

lemma trimmed_trim: "trimmed P (trim_by P s)"
proof (cases "trim_by P s = []")
  case False
  let ?m = "dropWhile P s"
  from False have ne: "dropWhile P (rev ?m) \<noteq> []" by (simp add: trim_by_def)
  then have last: "\<not> P (last (trim_by P s))"
    unfolding trim_by_def last_rev by (rule hd_dropWhile)
  have "rev ?m = takeWhile P (rev ?m) @ dropWhile P (rev ?m)" by simp
  then have "?m = trim_by P s @ rev (takeWhile P (rev ?m))"
    unfolding trim_by_def by (metis rev_append rev_rev_ident)
  with False have "hd ?m = hd (trim_by P s)" and "?m \<noteq> []"
    by (metis hd_append2, metis append_is_Nil_conv)
  with hd_dropWhile [of P s] last show ?thesis by (simp add: trimmed_def)
qed (simp add: trimmed_def)

lemma trim_trimmed: "trimmed P s \<Longrightarrow> trim_by P s = s"
proof (cases s)
  case (Cons u us)
  moreover assume "trimmed P s"
  ultimately have "dropWhile P s = s" and "dropWhile P (rev s) = rev s"
    by (auto simp: trimmed_def dropWhile_eq_self_iff hd_rev simp del: rev.simps)
  then show ?thesis by (simp add: trim_by_def)
qed (simp add: trim_by_def)

lemma trim_idem [simp]: "trim_by P (trim_by P s) = trim_by P s"
  by (simp add: trim_trimmed trimmed_trim)

lemma trim_none [simp]: "\<forall>u \<in> set s. \<not> P u \<Longrightarrow> trim_by P s = s"
  by (rule trim_trimmed) (auto simp: trimmed_def)

lemma trim_Cons:
  assumes "\<not> P c"
  shows "trim_by P (c # s) = c # rev (dropWhile P (rev s))"
proof -
  have "dropWhile P (xs @ [c]) = dropWhile P xs @ [c]" for xs
    using assms by (induction xs) auto
  with assms show ?thesis by (simp add: trim_by_def)
qed

lemma trim_by_map: "trim_by P (map f s) = map f (trim_by (P \<circ> f) s)"
  by (simp add: trim_by_def dropWhile_map rev_map)

subsection \<open>The first result in a list\<close>

fun first_some :: "('a \<Rightarrow> 'b option) \<Rightarrow> 'a list \<Rightarrow> 'b option" where
  "first_some f [] = None"
| "first_some f (x # xs) = (case f x of None \<Rightarrow> first_some f xs | Some y \<Rightarrow> Some y)"

lemma first_some_append:
  "first_some f (xs @ ys) = (case first_some f xs of None \<Rightarrow> first_some f ys | Some y \<Rightarrow> Some y)"
  by (induction xs) (auto split: option.splits)

lemma first_some_None: "first_some f xs = None \<longleftrightarrow> (\<forall>x \<in> set xs. f x = None)"
  by (induction xs) (auto split: option.splits)

lemma first_some_Some:
  "first_some f xs = Some y \<longleftrightarrow> (\<exists>i < length xs. f (xs ! i) = Some y \<and> (\<forall>j < i. f (xs ! j) = None))"
proof (induction xs rule: rev_induct)
  case (snoc x xs)
  let ?P = "\<lambda>zs i. f (zs ! i) = Some y \<and> (\<forall>j < i. f (zs ! j) = None)"
  have old: "?P (xs @ [x]) i \<longleftrightarrow> ?P xs i" if "i < length xs" for i
    using that by (auto simp: nth_append)
  have new: "?P (xs @ [x]) (length xs) \<longleftrightarrow> f x = Some y \<and> first_some f xs = None"
    by (auto simp: nth_append first_some_None all_set_conv_all_nth)
  have "first_some f (xs @ [x]) = Some y \<longleftrightarrow>
      first_some f xs = Some y \<or> first_some f xs = None \<and> f x = Some y"
    by (auto simp: first_some_append split: option.splits)
  also have "\<dots> \<longleftrightarrow> (\<exists>i < length xs. ?P xs i) \<or> first_some f xs = None \<and> f x = Some y"
    using snoc.IH by blast
  also have "\<dots> \<longleftrightarrow> (\<exists>i < length xs. ?P (xs @ [x]) i) \<or> ?P (xs @ [x]) (length xs)"
    unfolding new using old by blast
  also have "\<dots> \<longleftrightarrow> (\<exists>i < length (xs @ [x]). ?P (xs @ [x]) i)"
    by (auto simp: less_Suc_eq)
  finally show ?case .
qed simp

lemma first_some_set:
  assumes "set xs = set ys"
    and "\<And>x y a b. x \<in> set xs \<Longrightarrow> y \<in> set xs \<Longrightarrow> f x = Some a \<Longrightarrow> f y = Some b \<Longrightarrow> a = b"
  shows "first_some f xs = first_some f ys"
proof (cases "first_some f xs")
  case None
  with assms(1) show ?thesis by (metis first_some_None)
next
  case (Some a)
  then have "first_some f ys \<noteq> None" using assms(1) by (metis first_some_None option.distinct(1))
  then obtain b where "first_some f ys = Some b" by blast
  from Some obtain i where i: "i < length xs" "f (xs ! i) = Some a" unfolding first_some_Some by blast
  from \<open>first_some f ys = Some b\<close> obtain j where j: "j < length ys" "f (ys ! j) = Some b"
    unfolding first_some_Some by blast
  have "ys ! j \<in> set xs" unfolding assms(1) using j(1) by (rule nth_mem)
  from assms(2) [OF nth_mem [OF i(1)] this i(2) j(2)] Some \<open>first_some f ys = Some b\<close> show ?thesis by simp
qed

lemma first_some_upt:
  "first_some f [0..<n] = Some y \<longleftrightarrow> (\<exists>i < n. f i = Some y \<and> (\<forall>j < i. f j = None))"
  by (auto simp: first_some_Some)

subsection \<open>Runs of a partial step function\<close>

fun run :: "('e \<Rightarrow> 's \<Rightarrow> 's option) \<Rightarrow> 'e list \<Rightarrow> 's \<Rightarrow> 's option" where
  "run step [] s = Some s"
| "run step (e # es) s = (case step e s of None \<Rightarrow> None | Some t \<Rightarrow> run step es t)"

inductive reachable :: "('e \<Rightarrow> 's \<Rightarrow> 's option) \<Rightarrow> 's \<Rightarrow> 's \<Rightarrow> bool" for step s0 where
  reach_start: "reachable step s0 s0"
| reach_step: "reachable step s0 s \<Longrightarrow> step e s = Some t \<Longrightarrow> reachable step s0 t"

lemma run_append:
  "run step (es @ fs) s = (case run step es s of None \<Rightarrow> None | Some t \<Rightarrow> run step fs t)"
  by (induction es arbitrary: s) (auto split: option.splits)

lemma run_reachable_from:
  "reachable step s0 s \<Longrightarrow> run step es s = Some t \<Longrightarrow> reachable step s0 t"
  by (induction es arbitrary: s) (auto split: option.splits intro: reach_step)

lemma run_reachable: "run step es s0 = Some t \<Longrightarrow> reachable step s0 t"
  by (rule run_reachable_from [OF reach_start])

lemma reachable_run: "reachable step s0 t \<Longrightarrow> \<exists>es. run step es s0 = Some t"
proof (induction rule: reachable.induct)
  case reach_start
  show ?case by (rule exI [of _ "[]"]) simp
next
  case (reach_step s e t)
  then obtain es where "run step es s0 = Some s" by blast
  with reach_step.hyps have "run step (es @ [e]) s0 = Some t" by (simp add: run_append)
  then show ?case by blast
qed

locale machine_invariant =
  fixes step :: "'e \<Rightarrow> 's \<Rightarrow> 's option" and s0 :: 's and inv :: "'s \<Rightarrow> bool"
  assumes inv_start: "inv s0"
    and inv_step: "inv s \<Longrightarrow> step e s = Some t \<Longrightarrow> inv t"
begin

lemma reachable_inv: "reachable step s0 s \<Longrightarrow> inv s"
  by (induction rule: reachable.induct) (auto intro: inv_start inv_step)

lemma run_inv: "run step es s0 = Some s \<Longrightarrow> inv s"
  by (blast intro: reachable_inv run_reachable)

end

end
