(* ===== verification/JsText.thy ===== *)
theory JsText
  imports Prelude
begin

text \<open>
  The string values of the dashboard. A JavaScript string is a list of UTF-16 code units, so
  \<open>jsstr\<close> is a list of 16-bit words. A literal of the source is written \<open>js ''...''\<close>: \<open>js\<close>
  reads the escapes \<open>%XX\<close> and \<open>%uXXXX\<close> (those of JavaScript's \<open>unescape\<close>), which
  is how the accented letters and dashes of the Portuguese messages are written here in ASCII.
  Then the operations of the standard library that the pages call: \<open>trim\<close>,
  \<open>toLowerCase\<close>, \<open>split\<close>, \<open>includes\<close>, \<open>replace\<close>, \<open>String\<close> and
  \<open>Number\<close> on integers. \<open>trim\<close> uses the full white space set of ECMAScript;
  \<open>toLowerCase\<close> is exact on the code units below 256 and leaves the others as they are.
\<close>

type_synonym jsstr = "16 word list"

subsection \<open>Literals\<close>

definition hex_digit :: "char \<Rightarrow> 16 word" where
  "hex_digit c = (let n = (of_char c :: 16 word) in if n < 58 then n - 48 else n - 55)"

fun js :: "string \<Rightarrow> jsstr" where
  "js [] = []"
| "js (c # cs) =
     (if c \<noteq> CHR ''%'' then of_char c # js cs
      else (case cs of
              a # b # rest \<Rightarrow>
                if a = CHR ''u'' then
                  (case rest of
                     d # e # f # rest' \<Rightarrow>
                       (4096 * hex_digit b + 256 * hex_digit d + 16 * hex_digit e + hex_digit f)
                         # js rest'
                   | _ \<Rightarrow> [])
                else (16 * hex_digit a + hex_digit b) # js rest
            | _ \<Rightarrow> []))"

declare js.simps [simp del]

lemma js_plain: "c \<noteq> CHR ''%'' \<Longrightarrow> js (c # cs) = of_char c # js cs"
  by (simp add: js.simps)

subsection \<open>White space and trim\<close>

definition is_space :: "16 word \<Rightarrow> bool" where
  "is_space u \<longleftrightarrow>
     u \<in> set [0x9, 0xA, 0xB, 0xC, 0xD, 0x20, 0xA0, 0x1680, 0x2000, 0x2001, 0x2002, 0x2003, 0x2004,
              0x2005, 0x2006, 0x2007, 0x2008, 0x2009, 0x200A, 0x2028, 0x2029, 0x202F, 0x205F, 0x3000,
              0xFEFF]"

abbreviation trim :: "jsstr \<Rightarrow> jsstr" where
  "trim \<equiv> trim_by is_space"

subsection \<open>toLowerCase\<close>

definition lower_unit :: "16 word \<Rightarrow> 16 word" where
  "lower_unit u =
     (if 0x41 \<le> u \<and> u \<le> 0x5A \<or> 0xC0 \<le> u \<and> u \<le> 0xDE \<and> u \<noteq> 0xD7 then u + 0x20 else u)"

definition toLowerCase :: "jsstr \<Rightarrow> jsstr" where
  "toLowerCase = map lower_unit"

lemma length_toLowerCase [simp]: "length (toLowerCase s) = length s"
  by (simp add: toLowerCase_def)

lemma lower_unit_shift:
  assumes "lower_unit u \<noteq> u"
  shows "lower_unit u = u + 0x20" and "unat (lower_unit u) = unat u + 32"
    and "unat u \<in> {0x41..0x5A} \<union> ({0xC0..0xDE} - {0xD7})"
proof -
  from assms have up: "0x41 \<le> u \<and> u \<le> 0x5A \<or> 0xC0 \<le> u \<and> u \<le> 0xDE \<and> u \<noteq> 0xD7"
    by (simp add: lower_unit_def split: if_splits)
  then show range: "unat u \<in> {0x41..0x5A} \<union> ({0xC0..0xDE} - {0xD7})"
    by (auto simp: word_le_nat_alt word_unat_eq_iff)
  from up show shift: "lower_unit u = u + 0x20" by (simp add: lower_unit_def)
  from range have "unat u + 32 < 2 ^ 16" by auto
  then show "unat (lower_unit u) = unat u + 32"
    unfolding shift by (simp add: unat_word_ariths)
qed

lemma lower_unit_neq: "lower_unit u \<noteq> u \<Longrightarrow>
    unat (lower_unit u) \<in> {0x61..0x7A} \<union> ({0xE0..0xFE} - {0xF7})"
  using lower_unit_shift [of u] by auto

lemma lower_unit_fixed:
  "unat v \<in> {0x61..0x7A} \<union> ({0xE0..0xFE} - {0xF7}) \<Longrightarrow> lower_unit v = v"
  by (auto simp: lower_unit_def word_le_nat_alt)

lemma lower_unit_idem [simp]: "lower_unit (lower_unit u) = lower_unit u"
  by (metis lower_unit_fixed lower_unit_neq)

lemma lower_unit_below:
  assumes "unat c < 0x41"
  shows "lower_unit u = c \<longleftrightarrow> u = c"
proof
  assume "lower_unit u = c"
  with assms lower_unit_neq [of u] show "u = c" by fastforce
next
  assume "u = c"
  with assms lower_unit_shift(3) [of c] show "lower_unit u = c" by fastforce
qed

lemma in_toLowerCase_below: "unat c < 0x41 \<Longrightarrow> c \<in> set (toLowerCase s) \<longleftrightarrow> c \<in> set s"
  unfolding toLowerCase_def set_map image_iff by (metis lower_unit_below)

lemma is_space_unat:
  "is_space u \<longleftrightarrow> unat u \<in> set [0x9, 0xA, 0xB, 0xC, 0xD, 0x20, 0xA0, 0x1680, 0x2000, 0x2001,
     0x2002, 0x2003, 0x2004, 0x2005, 0x2006, 0x2007, 0x2008, 0x2009, 0x200A, 0x2028, 0x2029,
     0x202F, 0x205F, 0x3000, 0xFEFF]"
  by (simp add: is_space_def word_unat_eq_iff)

lemma is_space_lower [simp]: "is_space (lower_unit u) \<longleftrightarrow> is_space u"
proof (cases "lower_unit u = u")
  case False
  from lower_unit_neq [OF False] have "\<not> is_space (lower_unit u)" by (auto simp: is_space_unat)
  moreover from lower_unit_shift(3) [OF False] have "\<not> is_space u" by (auto simp: is_space_unat)
  ultimately show ?thesis by simp
qed simp

lemma dot_not_space [simp]: "\<not> is_space 0x2E"
  by (simp add: is_space_def)

lemma dot_in_toLowerCase [simp]: "0x2E \<in> set (toLowerCase s) \<longleftrightarrow> 0x2E \<in> set s"
  by (simp add: in_toLowerCase_below)

lemma toLowerCase_idem [simp]: "toLowerCase (toLowerCase s) = toLowerCase s"
  by (simp add: toLowerCase_def)

lemma toLowerCase_empty [simp]: "toLowerCase s = [] \<longleftrightarrow> s = []"
  by (simp add: toLowerCase_def)

lemma trim_toLowerCase: "trim (toLowerCase s) = toLowerCase (trim s)"
  by (simp add: toLowerCase_def trim_by_map o_def)

subsection \<open>includes, split, replace\<close>

fun js_includes :: "'a list \<Rightarrow> 'a list \<Rightarrow> bool" where
  "js_includes p s = (prefix p s \<or> (case s of [] \<Rightarrow> False | _ # t \<Rightarrow> js_includes p t))"

declare js_includes.simps [simp del]

lemma js_includes_sublist: "js_includes p s \<longleftrightarrow> sublist p s"
proof (induction s)
  case Nil
  show ?case by (simp add: js_includes.simps)
next
  case (Cons u t)
  then show ?case by (subst js_includes.simps) (simp add: sublist_Cons_right)
qed

lemma js_includes_single [simp]: "js_includes [u] s \<longleftrightarrow> u \<in> set s"
proof -
  have "js_includes [u] s \<longleftrightarrow> (\<exists>ps ss. s = ps @ [u] @ ss)"
    unfolding js_includes_sublist by (rule sublist_def)
  then show ?thesis by (simp add: in_set_conv_decomp)
qed

fun js_split :: "'a \<Rightarrow> 'a list \<Rightarrow> 'a list list" where
  "js_split sep [] = [[]]"
| "js_split sep (u # s) =
     (if u = sep then [] # js_split sep s
      else (case js_split sep s of [] \<Rightarrow> [[u]] | p # ps \<Rightarrow> (u # p) # ps))"

lemma js_split_nonempty [simp]: "js_split sep s \<noteq> []"
  by (induction s) (auto split: list.splits)

lemma js_split_no_sep: "p \<in> set (js_split sep s) \<Longrightarrow> sep \<notin> set p"
proof (induction s arbitrary: p)
  case (Cons u s)
  then show ?case by (fastforce split: if_splits list.splits)
qed simp

fun js_join :: "'a list \<Rightarrow> 'a list list \<Rightarrow> 'a list" where
  "js_join sep [] = []"
| "js_join sep [p] = p"
| "js_join sep (p # q # ps) = p @ sep @ js_join sep (q # ps)"

lemma js_join_cons_ne: "ps \<noteq> [] \<Longrightarrow> js_join sep (p # ps) = p @ sep @ js_join sep ps"
  by (cases ps) auto

lemma js_join_split: "js_join [sep] (js_split sep s) = s"
proof (induction s)
  case (Cons u s)
  show ?case
  proof (cases "js_split sep s")
    case (Cons p ps)
    with Cons.IH show ?thesis by (cases ps) (auto simp: js_join_cons_ne)
  qed simp
qed simp

lemma js_split_append_sep: "sep \<notin> set p \<Longrightarrow> js_split sep (p @ sep # s) = p # js_split sep s"
  by (induction p) auto

lemma js_split_no_occurrence: "sep \<notin> set p \<Longrightarrow> js_split sep p = [p]"
  by (induction p) auto

lemma js_split_join:
  "ps \<noteq> [] \<Longrightarrow> \<forall>p \<in> set ps. sep \<notin> set p \<Longrightarrow> js_split sep (js_join [sep] ps) = ps"
proof (induction ps)
  case (Cons p ps)
  show ?case
  proof (cases "ps = []")
    case True
    with Cons.prems show ?thesis by (simp add: js_split_no_occurrence)
  next
    case False
    with Cons show ?thesis by (simp add: js_join_cons_ne js_split_append_sep)
  qed
qed simp

text \<open>\<open>s.replace(p, r)\<close> with a string pattern replaces the first occurrence only.\<close>

fun js_replace :: "jsstr \<Rightarrow> jsstr \<Rightarrow> jsstr \<Rightarrow> jsstr" where
  "js_replace p r s =
     (if prefix p s then r @ drop (length p) s
      else (case s of [] \<Rightarrow> [] | u # t \<Rightarrow> u # js_replace p r t))"

declare js_replace.simps [simp del]

lemma js_replace_absent: "\<not> js_includes p s \<Longrightarrow> js_replace p r s = s"
proof (induction s)
  case Nil
  then show ?case by (subst js_replace.simps) (simp add: js_includes.simps)
next
  case (Cons u t)
  then have "\<not> prefix p (u # t)" and "\<not> js_includes p t"
    by (auto simp: js_includes.simps [of p "u # t"])
  with Cons.IH show ?case by (subst js_replace.simps) simp
qed

lemma js_replace_suffix:
  assumes "\<forall>i < length s. \<not> prefix p (drop i (s @ p))"
  shows "js_replace p r (s @ p) = s @ r"
  using assms
proof (induction s)
  case Nil
  then show ?case by (subst js_replace.simps) simp
next
  case (Cons u t)
  from Cons.prems have hd: "\<not> prefix p ((u # t) @ p)" by (metis drop0 length_greater_0_conv list.simps(3))
  from Cons.prems have "\<forall>i < length t. \<not> prefix p (drop i (t @ p))" by fastforce
  with Cons.IH hd show ?case by (subst js_replace.simps) simp
qed

subsection \<open>Integers as text\<close>

fun nat_str :: "nat \<Rightarrow> jsstr" where
  "nat_str n = (if n < 10 then [48 + of_nat n] else nat_str (n div 10) @ [48 + of_nat (n mod 10)])"

declare nat_str.simps [simp del]

definition num_str :: "int \<Rightarrow> jsstr" where
  "num_str n = (if n < 0 then 45 # nat_str (nat (- n)) else nat_str (nat n))"

definition is_digit :: "16 word \<Rightarrow> bool" where
  "is_digit u \<longleftrightarrow> 48 \<le> u \<and> u \<le> 57"

definition digits_value :: "jsstr \<Rightarrow> nat" where
  "digits_value s = foldl (\<lambda>acc u. 10 * acc + unat (u - 48)) 0 s"

text \<open>
  \<open>Number(s)\<close> on the strings the pages give it, the values of their \<open>select\<close>
  elements: an optional minus sign and decimal digits. \<^const>\<open>None\<close> is any other string.
\<close>

definition js_Number :: "jsstr \<Rightarrow> int option" where
  "js_Number s =
     (case s of
        [] \<Rightarrow> Some 0
      | u # t \<Rightarrow>
          if u = 45 then (if t \<noteq> [] \<and> list_all is_digit t then Some (- int (digits_value t)) else None)
          else if list_all is_digit s then Some (int (digits_value s)) else None)"

lemma digit_unat: "n < 10 \<Longrightarrow> unat ((48 + of_nat n) - 48 :: 16 word) = n"
  by (simp add: unat_of_nat)

lemma digit_is_digit: "n < 10 \<Longrightarrow> is_digit (48 + of_nat n)"
proof -
  assume n: "n < 10"
  then have "unat (48 + of_nat n :: 16 word) = 48 + n" by (simp add: unat_word_ariths unat_of_nat)
  with n show ?thesis by (simp add: is_digit_def word_le_nat_alt)
qed

lemma nat_str_nonempty [simp]: "nat_str n \<noteq> []"
  by (subst nat_str.simps) simp

lemma nat_str_digits: "list_all is_digit (nat_str n)"
proof (induction n rule: nat_str.induct)
  case (1 n)
  then show ?case by (subst nat_str.simps) (simp add: digit_is_digit)
qed

lemma digits_value_snoc: "digits_value (s @ [u]) = 10 * digits_value s + unat (u - 48)"
  by (simp add: digits_value_def)

lemma digits_value_nat_str [simp]: "digits_value (nat_str n) = n"
proof (induction n rule: nat_str.induct)
  case (1 n)
  show ?case
  proof (cases "n < 10")
    case True
    then show ?thesis
      by (subst nat_str.simps) (simp add: digits_value_def digit_unat [simplified] unat_of_nat)
  next
    case False
    with 1 have "digits_value (nat_str (n div 10)) = n div 10" by simp
    with False show ?thesis
      by (subst nat_str.simps) (simp add: digits_value_snoc unat_of_nat)
  qed
qed

lemma is_digit_not_minus: "is_digit u \<Longrightarrow> u \<noteq> 45"
  by (auto simp: is_digit_def)

lemma js_Number_num_str [simp]: "js_Number (num_str n) = Some n"
proof (cases "n < 0")
  case True
  then show ?thesis by (simp add: num_str_def js_Number_def nat_str_digits)
next
  case False
  obtain u t where ut: "nat_str (nat n) = u # t" by (meson nat_str_nonempty neq_Nil_conv)
  with nat_str_digits [of "nat n"] have "u \<noteq> 45" by (auto dest: is_digit_not_minus)
  with False ut nat_str_digits [of "nat n"] digits_value_nat_str [of "nat n"] show ?thesis
    by (simp add: num_str_def js_Number_def)
qed

lemma num_str_inject [simp]: "num_str m = num_str n \<longleftrightarrow> m = n"
  by (metis js_Number_num_str option.inject)

end
