(* ===== verification/Storage.thy ===== *)
theory Storage
  imports JsText
begin

text \<open>
  The browser's \<open>localStorage\<close>, the only state the dashboard keeps across page loads: the entry
  \<open>token\<close> holds the JWT of the session. The locale \<open>web_storage\<close> is the contract of
  \<open>getItem\<close>, \<open>setItem\<close> and \<open>removeItem\<close> as the login page, the layout and the API
  client use it; \<open>store\<close> is its interpretation on the model of \<open>localStorage\<close>.
\<close>

type_synonym storage = "jsstr \<rightharpoonup> jsstr"

definition getItem :: "jsstr \<Rightarrow> storage \<Rightarrow> jsstr option" where
  "getItem k st = st k"

definition setItem :: "jsstr \<Rightarrow> jsstr \<Rightarrow> storage \<Rightarrow> storage" where
  "setItem k v st = st(k \<mapsto> v)"

definition removeItem :: "jsstr \<Rightarrow> storage \<Rightarrow> storage" where
  "removeItem k st = st(k := None)"

text \<open>A missing entry is \<open>null\<close>, which is falsy, and so is the empty string.\<close>

definition truthy :: "jsstr option \<Rightarrow> bool" where
  "truthy v \<longleftrightarrow> (case v of None \<Rightarrow> False | Some s \<Rightarrow> s \<noteq> [])"

lemma truthy_simps [simp]: "\<not> truthy None" "truthy (Some s) \<longleftrightarrow> s \<noteq> []"
  by (simp_all add: truthy_def)

lemma truthyE: "truthy v \<Longrightarrow> \<exists>s. v = Some s \<and> s \<noteq> []"
  by (cases v) auto

definition token_key :: jsstr where
  "token_key = js ''token''"

locale web_storage =
  fixes get :: "'k \<Rightarrow> 's \<Rightarrow> jsstr option"
    and set :: "'k \<Rightarrow> jsstr \<Rightarrow> 's \<Rightarrow> 's"
    and remove :: "'k \<Rightarrow> 's \<Rightarrow> 's"
  assumes get_set: "get k (set k' v st) = (if k = k' then Some v else get k st)"
    and get_remove: "get k (remove k' st) = (if k = k' then None else get k st)"
begin

lemma get_set_same [simp]: "get k (set k v st) = Some v"
  by (simp add: get_set)

lemma get_remove_same [simp]: "get k (remove k st) = None"
  by (simp add: get_remove)

lemma no_session_after_remove: "\<not> truthy (get k (remove k st))"
  by simp

lemma session_after_set: "truthy (get k (set k v st)) \<longleftrightarrow> v \<noteq> []"
  by simp

lemma set_then_remove: "get k (remove k' (set k' v st)) = get k (remove k' st)"
  by (simp add: get_set get_remove)

text \<open>Operations on other entries are not seen.\<close>

lemma other_key: "k \<noteq> k' \<Longrightarrow> get k (set k' v st) = get k st \<and> get k (remove k' st) = get k st"
  by (simp add: get_set get_remove)

end

interpretation store: web_storage getItem setItem removeItem
  by unfold_locales (simp_all add: getItem_def setItem_def removeItem_def)

lemmas store_simps = store.get_set_same store.get_remove_same

declare store_simps [simp]

end
