(* ===== verification/Dom.thy ===== *)
theory Dom
  imports JsText
begin

text \<open>
  The elements the pages render and what a browser lets a user do with them. A JSX expression is
  a \<open>node\<close>: an element with its attributes and children, or a text. Two texts depend on the
  locale data of the browser and are kept as the value they show: \<open>NumberText n\<close> is
  \<open>n.toLocaleString()\<close> and \<open>DateText d\<close> is \<open>new Date(d).toLocaleString('pt-BR')\<close>.
  A handler is an attribute that carries the action it runs (type \<open>'a\<close>) or, for a
  controlled field, the field it sets (type \<open>'f\<close>). Class names that do not depend on the
  state, placeholders and icons are presentation only and are left out of the attributes.

  The functions below say which actions a user can trigger: \<open>clicks\<close> are the handlers of
  enabled buttons, links and check boxes; \<open>submits\<close> are the forms the browser would submit,
  whose required fields are filled and whose submit button is enabled; \<open>can_type\<close> says
  which value a field can take (any text for a text field, one of the options for a select).
\<close>

datatype tag =
    TFragment | TDiv | TSpan | TP | TStrong | TH1 | TH2 | TH3 | TH4 | TLabel | TForm | TInput
  | TTextArea | TSelect | TOption | TButton | TTable | TThead | TTbody | TTr | TTh | TTd
  | TAside | TNav | TMain | TLink | TIcon

datatype ('f, 'a) attr =
    ClassName jsstr
  | Key jsstr
  | TypeAttr jsstr
  | Value jsstr
  | Checked bool
  | Disabled bool
  | Required
  | ColSpan nat
  | LinkTo jsstr
  | OnClick 'a
  | OnToggle 'a
  | OnSubmit 'a
  | OnChange 'f

datatype ('f, 'a) node =
    Text jsstr
  | NumberText int
  | DateText jsstr
  | Elem tag "('f, 'a) attr list" "('f, 'a) node list"

subsection \<open>Attributes\<close>

definition is_disabled :: "('f, 'a) attr list \<Rightarrow> bool" where
  "is_disabled as \<longleftrightarrow> list_ex (\<lambda>x. case x of Disabled b \<Rightarrow> b | _ \<Rightarrow> False) as"

definition is_required :: "('f, 'a) attr list \<Rightarrow> bool" where
  "is_required as \<longleftrightarrow> list_ex (\<lambda>x. case x of Required \<Rightarrow> True | _ \<Rightarrow> False) as"

definition is_submit :: "('f, 'a) attr list \<Rightarrow> bool" where
  "is_submit as \<longleftrightarrow> list_ex (\<lambda>x. case x of TypeAttr t \<Rightarrow> t = js ''submit'' | _ \<Rightarrow> False) as"

definition attr_values :: "('f, 'a) attr list \<Rightarrow> jsstr list" where
  "attr_values as = concat (map (\<lambda>x. case x of Value v \<Rightarrow> [v] | _ \<Rightarrow> []) as)"

definition attr_clicks :: "('f, 'a) attr list \<Rightarrow> 'a list" where
  "attr_clicks as =
     concat (map (\<lambda>x. case x of OnClick a \<Rightarrow> [a] | OnToggle a \<Rightarrow> [a] | _ \<Rightarrow> []) as)"

definition attr_submits :: "('f, 'a) attr list \<Rightarrow> 'a list" where
  "attr_submits as = concat (map (\<lambda>x. case x of OnSubmit a \<Rightarrow> [a] | _ \<Rightarrow> []) as)"

definition attr_fields :: "('f, 'a) attr list \<Rightarrow> 'f list" where
  "attr_fields as = concat (map (\<lambda>x. case x of OnChange f \<Rightarrow> [f] | _ \<Rightarrow> []) as)"

definition attr_links :: "('f, 'a) attr list \<Rightarrow> jsstr list" where
  "attr_links as = concat (map (\<lambda>x. case x of LinkTo p \<Rightarrow> [p] | _ \<Rightarrow> []) as)"

lemmas attr_defs = is_disabled_def is_required_def attr_values_def attr_clicks_def
  attr_submits_def attr_fields_def attr_links_def

subsection \<open>What a tree offers\<close>

fun clicks :: "('f, 'a) node \<Rightarrow> 'a list" where
  "clicks (Elem t as ks) = (if is_disabled as then [] else attr_clicks as) @ concat (map clicks ks)"
| "clicks _ = []"

text \<open>The required fields below a node are filled.\<close>

fun filled :: "('f, 'a) node \<Rightarrow> bool" where
  "filled (Elem t as ks) = ((is_required as \<longrightarrow> [] \<notin> set (attr_values as)) \<and> list_all filled ks)"
| "filled _ = True"

text \<open>The submit buttons below a node, as whether each is enabled.\<close>

fun submit_buttons :: "('f, 'a) node \<Rightarrow> bool list" where
  "submit_buttons (Elem t as ks) =
     (if t = TButton \<and> is_submit as then [\<not> is_disabled as] else []) @ concat (map submit_buttons ks)"
| "submit_buttons _ = []"

definition form_ready :: "('f, 'a) node list \<Rightarrow> bool" where
  "form_ready ks \<longleftrightarrow>
     list_all filled ks \<and>
     (let bs = concat (map submit_buttons ks) in bs = [] \<or> list_ex (\<lambda>b. b) bs)"

fun submits :: "('f, 'a) node \<Rightarrow> 'a list" where
  "submits (Elem t as ks) =
     (if t = TForm \<and> form_ready ks then attr_submits as else []) @ concat (map submits ks)"
| "submits _ = []"

fun option_values :: "('f, 'a) node \<Rightarrow> jsstr list" where
  "option_values (Elem t as ks) =
     (if t = TOption then attr_values as else []) @ concat (map option_values ks)"
| "option_values _ = []"

text \<open>The fields below a node with the values they can take, \<^const>\<open>None\<close> for any text.\<close>

fun input_fields :: "('f, 'a) node \<Rightarrow> ('f \<times> jsstr list option) list" where
  "input_fields (Elem t as ks) =
     (if is_disabled as then []
      else map (\<lambda>f. (f, if t = TSelect then Some (concat (map option_values ks)) else None)) (attr_fields as))
     @ concat (map input_fields ks)"
| "input_fields _ = []"

definition can_type :: "('f, 'a) node \<Rightarrow> 'f \<Rightarrow> jsstr \<Rightarrow> bool" where
  "can_type n f v \<longleftrightarrow>
     list_ex (\<lambda>(g, vs). g = f \<and> (case vs of None \<Rightarrow> True | Some xs \<Rightarrow> v \<in> set xs)) (input_fields n)"

fun links :: "('f, 'a) node \<Rightarrow> jsstr list" where
  "links (Elem t as ks) = attr_links as @ concat (map links ks)"
| "links _ = []"

text \<open>A page whose render throws shows nothing: there is nothing to click or to fill in.\<close>

definition view_clicks :: "('f, 'a) node option \<Rightarrow> 'a list" where
  "view_clicks v = (case v of None \<Rightarrow> [] | Some n \<Rightarrow> clicks n)"

definition view_submits :: "('f, 'a) node option \<Rightarrow> 'a list" where
  "view_submits v = (case v of None \<Rightarrow> [] | Some n \<Rightarrow> submits n)"

definition view_can_type :: "('f, 'a) node option \<Rightarrow> 'f \<Rightarrow> jsstr \<Rightarrow> bool" where
  "view_can_type v f x = (case v of None \<Rightarrow> False | Some n \<Rightarrow> can_type n f x)"

lemma view_simps_Some [simp]:
  "view_clicks (Some n) = clicks n" "view_submits (Some n) = submits n"
  "view_can_type (Some n) = can_type n"
  by (simp_all add: view_clicks_def view_submits_def view_can_type_def fun_eq_iff)

lemma view_simps_None [simp]:
  "view_clicks None = []" "view_submits None = []" "\<not> view_can_type None f x"
  by (simp_all add: view_clicks_def view_submits_def view_can_type_def)

lemma can_type_iff:
  "can_type n f v \<longleftrightarrow> (\<exists>vs. (f, vs) \<in> set (input_fields n) \<and> (\<forall>xs. vs = Some xs \<longrightarrow> v \<in> set xs))"
  by (auto simp: can_type_def list_ex_iff split: option.splits)

lemma set_concat_map_empty: "(\<And>x. x \<in> set xs \<Longrightarrow> f x = []) \<Longrightarrow> concat (map f xs) = []"
  by (induction xs) auto

end
