(* ===== verification/Runtime.thy ===== *)
theory Runtime
  imports Dom
begin

text \<open>
  The execution of a page. A page is a React component with state variables; its handlers run to
  the first \<open>await\<close>, which sends a request and leaves a continuation. The state record of a page
  extends \<open>async\<close>: the requests in flight, each with the continuation that waits for it and
  the values that continuation captured, and the number of \<open>setTimeout(() => setMessage(''), ...)\<close>
  timers that have not fired. An event is a click, a submit or an edit that the rendered view
  offers, the arrival of the reply to any request in flight, or the expiry of a timer; replies
  come in any order and timers at any time, so a statement about all reachable states holds for every
  interleaving. The locale \<open>page\<close> is the interface of a page: what each handler keeps of
  an invariant; \<open>exclusive_page\<close> adds a busy flag that guards one kind of request.
\<close>

subsection \<open>Requests and replies\<close>

datatype http_method = GET | POST | PUT | DELETE

datatype json = JNull | JBool bool | JNum int | JStr jsstr | JArr "json list" | JObj "(jsstr \<times> json) list"

lemma inj_map_JNum [simp]: "map JNum xs = map JNum ys \<longleftrightarrow> xs = ys"
  by (simp add: inj_map_eq_map inj_def)

lemma inj_map_JStr [simp]: "map JStr xs = map JStr ys \<longleftrightarrow> xs = ys"
  by (simp add: inj_map_eq_map inj_def)

text \<open>How \<open>JSON.stringify\<close> writes the result of \<open>Number(s)\<close>: \<open>NaN\<close> becomes \<open>null\<close>.\<close>

definition json_num :: "int option \<Rightarrow> json" where
  "json_num n = (case n of None \<Rightarrow> JNull | Some i \<Rightarrow> JNum i)"

lemma json_num_simps [simp]: "json_num (Some i) = JNum i" "json_num None = JNull"
  by (simp_all add: json_num_def)

text \<open>A number in a template string: a field that the reply does not have is \<open>undefined\<close>.\<close>

definition show_num :: "int option \<Rightarrow> jsstr" where
  "show_num n = (case n of None \<Rightarrow> js ''undefined'' | Some i \<Rightarrow> num_str i)"

record request =
  req_method :: http_method
  req_url :: jsstr
  req_body :: "json option"

definition mk_request :: "http_method \<Rightarrow> jsstr \<Rightarrow> json option \<Rightarrow> request" where
  "mk_request m u b = \<lparr>req_method = m, req_url = u, req_body = b\<rparr>"

lemma mk_request_sel [simp]:
  "req_method (mk_request m u b) = m" "req_url (mk_request m u b) = u"
  "req_body (mk_request m u b) = b"
  by (simp_all add: mk_request_def)

lemma mk_request_inject [simp]:
  "mk_request m u b = mk_request m' u' b' \<longleftrightarrow> m = m' \<and> u = u' \<and> b = b'"
  by (simp add: mk_request_def)

text \<open>
  A value of a reply where the code expects an array, by what the code can tell apart: missing,
  null, another falsy value, an array, or any other value (an object, a number, a non-empty string).
\<close>

datatype 'a payload = Undefined | Null | Falsy | Arr "'a list" | NonArray

text \<open>\<open>Array.isArray(d) ? d : []\<close>\<close>

definition array_or_empty :: "'a payload \<Rightarrow> 'a list" where
  "array_or_empty d = (case d of Arr xs \<Rightarrow> xs | _ \<Rightarrow> [])"

text \<open>\<open>d || []\<close>, which keeps a truthy value that is not an array.\<close>

definition or_empty :: "'a payload \<Rightarrow> 'a payload" where
  "or_empty d = (case d of Arr xs \<Rightarrow> Arr xs | NonArray \<Rightarrow> NonArray | _ \<Rightarrow> Arr [])"

lemma array_or_empty_simps [simp]:
  "array_or_empty (Arr xs) = xs" "array_or_empty Undefined = []" "array_or_empty Null = []"
  "array_or_empty Falsy = []" "array_or_empty NonArray = []"
  by (simp_all add: array_or_empty_def)

lemma or_empty_simps [simp]:
  "or_empty (Arr xs) = Arr xs" "or_empty Undefined = Arr []" "or_empty Null = Arr []"
  "or_empty Falsy = Arr []" "or_empty NonArray = NonArray"
  by (simp_all add: or_empty_def)

subsection \<open>The state every page has\<close>

record 'k async =
  inflight :: "(request \<times> 'k) list"
  timers :: nat

definition issue :: "request \<Rightarrow> 'k \<Rightarrow> ('k, 'z) async_scheme \<Rightarrow> ('k, 'z) async_scheme" where
  "issue q k s = s\<lparr>inflight := inflight s @ [(q, k)]\<rparr>"

definition set_timeout :: "('k, 'z) async_scheme \<Rightarrow> ('k, 'z) async_scheme" where
  "set_timeout s = s\<lparr>timers := Suc (timers s)\<rparr>"

definition take_reply :: "nat \<Rightarrow> ('k, 'z) async_scheme \<Rightarrow> ('k, 'z) async_scheme" where
  "take_reply i s = s\<lparr>inflight := remove_nth i (inflight s)\<rparr>"

definition fire_timer :: "('k, 'z) async_scheme \<Rightarrow> ('k, 'z) async_scheme" where
  "fire_timer s = s\<lparr>timers := timers s - 1\<rparr>"

text \<open>How many of the requests in flight wait for a continuation of one kind.\<close>

definition count_calls :: "('k \<Rightarrow> bool) \<Rightarrow> (request \<times> 'k) list \<Rightarrow> nat" where
  "count_calls P cs = length (filter (\<lambda>c. P (snd c)) cs)"

definition pending :: "('k \<Rightarrow> bool) \<Rightarrow> ('k, 'z) async_scheme \<Rightarrow> nat" where
  "pending P s = count_calls P (inflight s)"

lemma count_calls_simps [simp]:
  "count_calls P [] = 0"
  "count_calls P (c # cs) = (if P (snd c) then 1 else 0) + count_calls P cs"
  "count_calls P (cs @ ds) = count_calls P cs + count_calls P ds"
  by (simp_all add: count_calls_def)

lemma issue_sel [page_simps]:
  "inflight (issue q k s) = inflight s @ [(q, k)]" "timers (issue q k s) = timers s"
  by (simp_all add: issue_def)

lemma set_timeout_sel [page_simps]:
  "inflight (set_timeout s) = inflight s" "timers (set_timeout s) = Suc (timers s)"
  by (simp_all add: set_timeout_def)

lemma take_reply_sel [page_simps]:
  "inflight (take_reply i s) = remove_nth i (inflight s)" "timers (take_reply i s) = timers s"
  by (simp_all add: take_reply_def)

lemma ball_take_reply:
  "\<forall>c \<in> set (inflight s). P c \<Longrightarrow> \<forall>c \<in> set (inflight (take_reply i s)). P c"
  using set_remove_nth [of i "inflight s"] by (auto simp: take_reply_sel)

lemma fire_timer_sel [page_simps]:
  "inflight (fire_timer s) = inflight s" "timers (fire_timer s) = timers s - 1"
  by (simp_all add: fire_timer_def)

lemma pending_take_reply:
  "i < length (inflight s) \<Longrightarrow>
   pending P s = pending P (take_reply i s) + (if P (snd (inflight s ! i)) then 1 else 0)"
  by (simp add: pending_def count_calls_def take_reply_sel count_remove_nth [of i _ "\<lambda>c. P (snd c)"])

lemma pending_zero_iff: "pending P s = 0 \<longleftrightarrow> (\<forall>c \<in> set (inflight s). \<not> P (snd c))"
  by (auto simp: pending_def count_calls_def filter_empty_conv)

text \<open>
  A flag agrees with the requests in flight: exactly one request of its kind while it is set, none
  while it is not. Kept opaque, with one rule for sending a request and one for taking a reply.
\<close>

definition busy_ok :: "('k \<Rightarrow> bool) \<Rightarrow> bool \<Rightarrow> (request \<times> 'k) list \<Rightarrow> bool" where
  "busy_ok P b cs \<longleftrightarrow> count_calls P cs = (if b then 1 else 0)"

lemma busy_ok_other [simp]: "\<not> P k \<Longrightarrow> busy_ok P b (cs @ [(q, k)]) = busy_ok P b cs"
  by (simp add: busy_ok_def)

lemma busy_ok_start [simp]: "P k \<Longrightarrow> busy_ok P True (cs @ [(q, k)]) = busy_ok P False cs"
  by (simp add: busy_ok_def)

lemma busy_ok_Cons_other [simp]: "\<not> P (snd c) \<Longrightarrow> busy_ok P b (c # cs) = busy_ok P b cs"
  by (simp add: busy_ok_def)

lemma busy_ok_Nil [simp]: "busy_ok P b [] = (\<not> b)"
  by (simp add: busy_ok_def)

lemma busy_ok_reply:
  assumes "busy_ok P b (inflight s)" and "i < length (inflight s)" and "inflight s ! i = (q, k)"
  shows "busy_ok P (b \<and> \<not> P k) (inflight (take_reply i s))"
  using assms pending_take_reply [of i s P] by (auto simp: busy_ok_def pending_def split: if_splits)

lemma busy_ok_pending: "busy_ok P b (inflight s) \<longleftrightarrow> pending P s = (if b then 1 else 0)"
  by (simp add: busy_ok_def pending_def)

subsection \<open>Events and steps\<close>

datatype ('a, 'f, 'r) page_event =
    Click 'a bool
  | Submit 'a
  | Edit 'f jsstr
  | Reply nat 'r
  | Tick

text \<open>The flag of \<open>Click\<close> is the answer of the user should the handler call \<open>confirm\<close>.\<close>

definition page_step ::
  "(('k, 'z) async_scheme \<Rightarrow> ('f, 'a) node option) \<Rightarrow>
   ('a \<Rightarrow> bool \<Rightarrow> ('k, 'z) async_scheme \<Rightarrow> ('k, 'z) async_scheme) \<Rightarrow>
   ('f \<Rightarrow> jsstr \<Rightarrow> ('k, 'z) async_scheme \<Rightarrow> ('k, 'z) async_scheme) \<Rightarrow>
   ('k \<Rightarrow> 'r \<Rightarrow> ('k, 'z) async_scheme \<Rightarrow> ('k, 'z) async_scheme option) \<Rightarrow>
   (('k, 'z) async_scheme \<Rightarrow> ('k, 'z) async_scheme) \<Rightarrow>
   ('a, 'f, 'r) page_event \<Rightarrow> ('k, 'z) async_scheme \<Rightarrow> ('k, 'z) async_scheme option" where
  "page_step view act edit resume tick ev s =
     (case ev of
        Click a ok \<Rightarrow> if a \<in> set (view_clicks (view s)) then Some (act a ok s) else None
      | Submit a \<Rightarrow> if a \<in> set (view_submits (view s)) then Some (act a True s) else None
      | Edit f v \<Rightarrow> if view_can_type (view s) f v then Some (edit f v s) else None
      | Reply i r \<Rightarrow>
          if i < length (inflight s) then resume (snd (inflight s ! i)) r (take_reply i s) else None
      | Tick \<Rightarrow> if 0 < timers s then Some (tick (fire_timer s)) else None)"

lemma page_step_cases:
  assumes "page_step view act edit resume tick ev s = Some t"
  obtains (click) a ok where "ev = Click a ok" "a \<in> set (view_clicks (view s))" "t = act a ok s"
    | (submit) a where "ev = Submit a" "a \<in> set (view_submits (view s))" "t = act a True s"
    | (edit) f v where "ev = Edit f v" "view_can_type (view s) f v" "t = edit f v s"
    | (reply) i r q k where "ev = Reply i r" "i < length (inflight s)" "inflight s ! i = (q, k)"
        "resume k r (take_reply i s) = Some t"
    | (tick) "ev = Tick" "0 < timers s" "t = tick (fire_timer s)"
proof (cases ev)
  case (Reply i r)
  with assms have "i < length (inflight s)" "resume (snd (inflight s ! i)) r (take_reply i s) = Some t"
    by (auto simp: page_step_def split: if_splits)
  with Reply reply [of i r "fst (inflight s ! i)" "snd (inflight s ! i)"] show thesis by simp
qed (use assms click submit edit tick in \<open>auto simp: page_step_def split: if_splits\<close>)

locale page =
  fixes view :: "('k, 'z) async_scheme \<Rightarrow> ('f, 'a) node option"
    and act :: "'a \<Rightarrow> bool \<Rightarrow> ('k, 'z) async_scheme \<Rightarrow> ('k, 'z) async_scheme"
    and edit :: "'f \<Rightarrow> jsstr \<Rightarrow> ('k, 'z) async_scheme \<Rightarrow> ('k, 'z) async_scheme"
    and resume :: "'k \<Rightarrow> 'r \<Rightarrow> ('k, 'z) async_scheme \<Rightarrow> ('k, 'z) async_scheme option"
    and tick :: "('k, 'z) async_scheme \<Rightarrow> ('k, 'z) async_scheme"
    and s0 :: "('k, 'z) async_scheme"
    and inv :: "('k, 'z) async_scheme \<Rightarrow> bool"
  assumes page_start: "inv s0"
    and page_act: "inv s \<Longrightarrow> a \<in> set (view_clicks (view s)) \<union> set (view_submits (view s)) \<Longrightarrow>
        inv (act a ok s)"
    and page_edit: "inv s \<Longrightarrow> view_can_type (view s) f v \<Longrightarrow> inv (edit f v s)"
    and page_resume: "inv s \<Longrightarrow> i < length (inflight s) \<Longrightarrow> inflight s ! i = (q, k) \<Longrightarrow>
        resume k r (take_reply i s) = Some t \<Longrightarrow> inv t"
    and page_tick: "inv s \<Longrightarrow> 0 < timers s \<Longrightarrow> inv (tick (fire_timer s))"
begin

lemma step_inv: "inv s \<Longrightarrow> page_step view act edit resume tick e s = Some t \<Longrightarrow> inv t"
  by (erule page_step_cases) (auto intro: page_act page_edit page_resume page_tick)

end

sublocale page \<subseteq> machine_invariant "page_step view act edit resume tick" s0 inv
  by unfold_locales (auto intro: page_start step_inv)

locale exclusive_page = page +
  fixes busy :: "('a, 'b) async_scheme \<Rightarrow> bool" and mine :: "'a \<Rightarrow> bool"
  assumes busy_pending: "inv s \<Longrightarrow> pending mine s = (if busy s then 1 else 0)"
begin

lemma at_most_one:
  "reachable (page_step view act edit resume tick) s0 s \<Longrightarrow> pending mine s \<le> 1"
  using busy_pending reachable_inv by fastforce

lemma busy_iff_pending:
  "reachable (page_step view act edit resume tick) s0 s \<Longrightarrow> busy s \<longleftrightarrow> pending mine s = 1"
  by (drule reachable_inv) (simp add: busy_pending)

end

end
