(* ===== verification/ApiClient.thy ===== *)
theory ApiClient
  imports Storage Runtime
begin

text \<open>
  The axios instance that every page calls, \<open>web/src/api/client.ts\<close>: a request interceptor that adds
  the stored token and a response interceptor that refreshes the token once after a 401 and sends
  the request again. The state is the module's \<open>isRefreshing\<close>, the browser's storage and
  address, and every call made since the page was loaded: sent and waiting for its reply, waiting for
  the refresh, or settled as the caller sees it. \<open>c_wire\<close> and \<open>c_refreshes\<close> record what
  went over the network.

  axios builds a new configuration for every call from the defaults and the object it is given.
  That this copy keeps the field \<open>_retry\<close> is behaviour of axios and not of this code, so the copy is a
  parameter \<open>merge\<close>, with the hypotheses \<open>keeps_retry\<close> and \<open>keeps_request\<close>
  where a fact needs them. Setting \<open>window.location.href\<close> starts a page load: scripts run on until
  \<open>PageLoad\<close>, which starts the module afresh and keeps the storage.
\<close>

record config =
  cf_request :: request
  cf_auth :: "jsstr option"
  cf_retry :: bool

datatype api_error = HttpError nat | NetworkError

datatype transport = Success json | Failure api_error

datatype api_call =
    Sent config
  | Refreshing config api_error
  | Resolved json
  | Rejected api_error

text \<open>
  The reply to the refresh: \<open>res.data.token\<close> is a string or missing, reading it throws when the
  body is null, and any other status rejects.
\<close>

datatype refresh_reply = RefreshBody "jsstr option" | RefreshNull | RefreshFailed

record client =
  c_storage :: storage
  c_location :: jsstr
  c_isRefreshing :: bool
  c_calls :: "api_call list"
  c_wire :: "(nat \<times> config) list"
  c_refreshes :: "(nat \<times> jsstr) list"

definition c_token :: "client \<Rightarrow> jsstr option" where
  "c_token s = getItem token_key (c_storage s)"

definition bearer :: "jsstr \<Rightarrow> jsstr" where
  "bearer t = js ''Bearer '' @ t"

lemma bearer_inject [simp]: "bearer t = bearer t' \<longleftrightarrow> t = t'"
  by (simp add: bearer_def)

definition request_interceptor :: "jsstr option \<Rightarrow> config \<Rightarrow> config" where
  "request_interceptor token c =
     (if truthy token then c\<lparr>cf_auth := Some (bearer (the token))\<rparr> else c)"

definition login_path :: jsstr where
  "login_path = js ''/login''"

text \<open>\<open>localStorage.removeItem('token'); window.location.href = '/login'\<close>\<close>

definition end_session :: "client \<Rightarrow> client" where
  "end_session s =
     s\<lparr>c_storage := removeItem token_key (c_storage s), c_location := login_path\<rparr>"

definition settle :: "nat \<Rightarrow> api_call \<Rightarrow> client \<Rightarrow> client" where
  "settle i r s = s\<lparr>c_calls := (c_calls s)[i := r]\<rparr>"

text \<open>\<open>api.get(...)\<close>, \<open>api.post(...)\<close>: a fresh configuration through the request interceptor.\<close>

definition api_request :: "(config \<Rightarrow> config) \<Rightarrow> request \<Rightarrow> client \<Rightarrow> client" where
  "api_request merge q s =
     (let c = request_interceptor (c_token s)
                (merge \<lparr>cf_request = q, cf_auth = None, cf_retry = False\<rparr>)
      in s\<lparr>c_wire := c_wire s @ [(length (c_calls s), c)], c_calls := c_calls s @ [Sent c]\<rparr>)"

text \<open>\<open>return api(originalRequest)\<close>: the outcome of the second request is the outcome of the call.\<close>

definition api_resend :: "(config \<Rightarrow> config) \<Rightarrow> nat \<Rightarrow> config \<Rightarrow> client \<Rightarrow> client" where
  "api_resend merge i c s =
     (let c' = request_interceptor (c_token s) (merge c)
      in (settle i (Sent c') s)\<lparr>c_wire := c_wire s @ [(i, c')]\<rparr>)"

text \<open>The \<open>catch\<close> block of the response interceptor.\<close>

definition refresh_catch :: "nat \<Rightarrow> api_error \<Rightarrow> client \<Rightarrow> client" where
  "refresh_catch i e s = settle i (Rejected e) (end_session (s\<lparr>c_isRefreshing := False\<rparr>))"

text \<open>The error handler of the response interceptor, up to the request for a new token.\<close>

definition response_error :: "nat \<Rightarrow> config \<Rightarrow> api_error \<Rightarrow> client \<Rightarrow> client" where
  "response_error i c e s =
     (if e = HttpError 401 \<and> \<not> cf_retry c
      then if c_isRefreshing s
           then settle i (Rejected e) (end_session s)
           else let s1 = s\<lparr>c_isRefreshing := True\<rparr>
                in if \<not> truthy (c_token s1)
                   then refresh_catch i e s1
                   else (settle i (Refreshing (c\<lparr>cf_retry := True\<rparr>) e) s1)
                          \<lparr>c_refreshes := c_refreshes s @ [(i, bearer (the (c_token s1)))]\<rparr>
      else settle i (Rejected e) s)"

text \<open>
  The rest of it. A missing token is the value \<open>undefined\<close>, which \<open>setItem\<close> and the template
  string both turn into that word.
\<close>

definition refresh_resume ::
  "(config \<Rightarrow> config) \<Rightarrow> nat \<Rightarrow> config \<Rightarrow> api_error \<Rightarrow> refresh_reply \<Rightarrow> client \<Rightarrow> client" where
  "refresh_resume merge i c e r s =
     (case r of
        RefreshBody tok \<Rightarrow>
          (let newToken = (case tok of None \<Rightarrow> js ''undefined'' | Some t \<Rightarrow> t)
           in api_resend merge i (c\<lparr>cf_auth := Some (bearer newToken)\<rparr>)
                (s\<lparr>c_storage := setItem token_key newToken (c_storage s), c_isRefreshing := False\<rparr>))
      | RefreshNull \<Rightarrow> refresh_catch i e s
      | RefreshFailed \<Rightarrow> refresh_catch i e s)"

text \<open>A page load: the module's state is new, and calls of the old page are gone.\<close>

definition client_start :: "storage \<Rightarrow> jsstr \<Rightarrow> client" where
  "client_start st loc =
     \<lparr>c_storage = st, c_location = loc, c_isRefreshing = False, c_calls = [], c_wire = [],
      c_refreshes = []\<rparr>"

datatype client_event =
    Request request
  | Respond nat transport
  | RefreshReply nat refresh_reply
  | StoreToken jsstr
  | ClearToken
  | PageLoad

fun client_step :: "(config \<Rightarrow> config) \<Rightarrow> client_event \<Rightarrow> client \<Rightarrow> client option" where
  "client_step merge (Request q) s = Some (api_request merge q s)"
| "client_step merge (Respond i r) s =
     (if i < length (c_calls s)
      then case c_calls s ! i of
             Sent c \<Rightarrow> (case r of
                 Success d \<Rightarrow> Some (settle i (Resolved d) s)
               | Failure e \<Rightarrow> Some (response_error i c e s))
           | _ \<Rightarrow> None
      else None)"
| "client_step merge (RefreshReply i r) s =
     (if i < length (c_calls s)
      then case c_calls s ! i of
             Refreshing c e \<Rightarrow> Some (refresh_resume merge i c e r s)
           | _ \<Rightarrow> None
      else None)"
| "client_step merge (StoreToken t) s = Some (s\<lparr>c_storage := setItem token_key t (c_storage s)\<rparr>)"
| "client_step merge ClearToken s = Some (s\<lparr>c_storage := removeItem token_key (c_storage s)\<rparr>)"
| "client_step merge PageLoad s = Some (client_start (c_storage s) (c_location s))"

definition keeps_retry :: "(config \<Rightarrow> config) \<Rightarrow> bool" where
  "keeps_retry merge \<longleftrightarrow> (\<forall>c. cf_retry (merge c) = cf_retry c)"

definition keeps_request :: "(config \<Rightarrow> config) \<Rightarrow> bool" where
  "keeps_request merge \<longleftrightarrow> (\<forall>c. cf_request (merge c) = cf_request c)"

subsection \<open>Effects of the operations\<close>

lemma interceptor_sel [simp]:
  "cf_request (request_interceptor t c) = cf_request c"
  "cf_retry (request_interceptor t c) = cf_retry c"
  by (simp_all add: request_interceptor_def)

lemma client_frame [page_simps]:
  "c_calls (end_session s) = c_calls s" "c_isRefreshing (end_session s) = c_isRefreshing s"
  "c_wire (end_session s) = c_wire s" "c_refreshes (end_session s) = c_refreshes s"
  "c_calls (settle i r s) = (c_calls s)[i := r]" "c_isRefreshing (settle i r s) = c_isRefreshing s"
  "c_wire (settle i r s) = c_wire s" "c_refreshes (settle i r s) = c_refreshes s"
  "c_storage (settle i r s) = c_storage s" "c_location (settle i r s) = c_location s"
  by (simp_all add: end_session_def settle_def)

lemma end_session_effect [simp]:
  "c_token (end_session s) = None" "c_location (end_session s) = login_path"
  by (simp_all add: c_token_def end_session_def)

lemma settle_token [simp]: "c_token (settle i r s) = c_token s"
  by (simp add: c_token_def settle_def)

lemmas client_defs = api_request_def api_resend_def refresh_catch_def response_error_def
  refresh_resume_def client_start_def

subsection \<open>The refresh flag\<close>

fun is_refreshing :: "api_call \<Rightarrow> bool" where
  "is_refreshing (Refreshing c e) = True"
| "is_refreshing _ = False"

definition refreshing_calls :: "client \<Rightarrow> nat" where
  "refreshing_calls s = length (filter is_refreshing (c_calls s))"

definition refresh_inv :: "client \<Rightarrow> bool" where
  "refresh_inv s \<longleftrightarrow> refreshing_calls s = (if c_isRefreshing s then 1 else 0)"

lemma refreshing_settle:
  "i < length (c_calls s) \<Longrightarrow>
   refreshing_calls (settle i r s) + (if is_refreshing (c_calls s ! i) then 1 else 0) =
   refreshing_calls s + (if is_refreshing r then 1 else 0)"
  by (simp add: refreshing_calls_def settle_def count_update)

text \<open>What a step does to the calls: a new call, a new phase of one call, or nothing.\<close>

lemma client_step_cases:
  assumes "client_step merge ev s = Some t"
  obtains (request) q where "ev = Request q" "t = api_request merge q s"
    | (success) i c d where "ev = Respond i (Success d)" "i < length (c_calls s)"
        "c_calls s ! i = Sent c" "t = settle i (Resolved d) s"
    | (failure) i c e where "ev = Respond i (Failure e)" "i < length (c_calls s)"
        "c_calls s ! i = Sent c" "t = response_error i c e s"
    | (refresh) i c e r where "ev = RefreshReply i r" "i < length (c_calls s)"
        "c_calls s ! i = Refreshing c e" "t = refresh_resume merge i c e r s"
    | (store) tok where "ev = StoreToken tok" "t = s\<lparr>c_storage := setItem token_key tok (c_storage s)\<rparr>"
    | (clear) "ev = ClearToken" "t = s\<lparr>c_storage := removeItem token_key (c_storage s)\<rparr>"
    | (load) "ev = PageLoad" "t = client_start (c_storage s) (c_location s)"
  using assms by (cases ev) (auto split: if_splits api_call.splits transport.splits)

lemma refresh_inv_step:
  assumes "refresh_inv s" and "client_step merge ev s = Some t"
  shows "refresh_inv t"
  using assms(2)
proof (cases rule: client_step_cases)
  case (success i c d)
  with assms(1) refreshing_settle [of i s "Resolved d"] show ?thesis
    by (simp add: refresh_inv_def page_simps)
next
  case (failure i c e)
  with assms(1) show ?thesis
    using refreshing_settle [of i s "Rejected e"] refreshing_settle [of i s "Refreshing (c\<lparr>cf_retry := True\<rparr>) e"]
    by (auto simp: refresh_inv_def refreshing_calls_def client_defs page_simps Let_def)
next
  case (refresh i c e r)
  have gone: "filter is_refreshing ((c_calls s)[i := y]) = []" if "\<not> is_refreshing y" for y
    using assms(1) refresh(2,3) count_update [of i "c_calls s" is_refreshing y] that
    by (simp add: refresh_inv_def refreshing_calls_def split: if_splits)
  show ?thesis
    unfolding refresh(4)
    by (cases r) (simp_all add: refresh_inv_def refreshing_calls_def client_defs page_simps Let_def gone)
qed (use assms(1) in \<open>auto simp: refresh_inv_def refreshing_calls_def client_defs Let_def\<close>)

interpretation client_refresh: machine_invariant "client_step merge" "client_start st loc" refresh_inv
  for merge st loc
  by unfold_locales
     (simp add: refresh_inv_def refreshing_calls_def client_start_def, rule refresh_inv_step)

subsection \<open>How often a call goes over the network\<close>

definition sends :: "nat \<Rightarrow> client \<Rightarrow> nat" where
  "sends i s = length (filter (\<lambda>w. fst w = i) (c_wire s))"

definition refreshes :: "nat \<Rightarrow> client \<Rightarrow> nat" where
  "refreshes i s = length (filter (\<lambda>w. fst w = i) (c_refreshes s))"

text \<open>The phase of a call against what it has sent and how often it asked for a token.\<close>

fun phase_ok :: "api_call \<Rightarrow> nat \<Rightarrow> nat \<Rightarrow> bool" where
  "phase_ok (Sent c) n k = (if cf_retry c then n = 2 \<and> k = 1 else n = 1 \<and> k = 0)"
| "phase_ok (Refreshing c e) n k = (n = 1 \<and> k = 1 \<and> cf_retry c)"
| "phase_ok _ n k = (1 \<le> n \<and> n \<le> 2 \<and> k \<le> 1)"

definition sends_inv :: "client \<Rightarrow> bool" where
  "sends_inv s \<longleftrightarrow>
     (\<forall>i < length (c_calls s). phase_ok (c_calls s ! i) (sends i s) (refreshes i s)) \<and>
     (\<forall>w \<in> set (c_wire s). fst w < length (c_calls s)) \<and>
     (\<forall>w \<in> set (c_refreshes s). fst w < length (c_calls s))"

lemma sends_zero: "\<forall>w \<in> set (c_wire s). fst w < n \<Longrightarrow> n \<le> i \<Longrightarrow> sends i s = 0"
  by (auto simp: sends_def filter_empty_conv)

lemma refreshes_zero: "\<forall>w \<in> set (c_refreshes s). fst w < n \<Longrightarrow> n \<le> i \<Longrightarrow> refreshes i s = 0"
  by (auto simp: refreshes_def filter_empty_conv)

lemma phase_settled: "phase_ok (Sent c) n k \<Longrightarrow> phase_ok (Resolved d) n k \<and> phase_ok (Rejected e) n k"
  by (simp split: if_splits)

lemma sends_inv_update:
  assumes "sends_inv s" and "i < length (c_calls s)" and "c_calls t = (c_calls s)[i := y]"
    and "c_wire t = c_wire s @ replicate a (i, c)" and "c_refreshes t = c_refreshes s @ replicate b (i, h)"
    and "\<And>n k. phase_ok (c_calls s ! i) n k \<Longrightarrow> phase_ok y (n + a) (k + b)"
  shows "sends_inv t"
proof -
  have w: "sends j t = sends j s + (if j = i then a else 0)"
    and r: "refreshes j t = refreshes j s + (if j = i then b else 0)" for j
    using assms(4,5) by (auto simp: sends_def refreshes_def filter_replicate)
  have "phase_ok (c_calls t ! j) (sends j t) (refreshes j t)" if "j < length (c_calls t)" for j
    using that assms(1,2,3) assms(6) by (cases "j = i") (auto simp: w r sends_inv_def)
  then show ?thesis using assms(1-5) by (auto simp: sends_inv_def)
qed

lemma sends_inv_settle:
  assumes "sends_inv s" and "i < length (c_calls s)" and "c_calls t = (c_calls s)[i := y]"
    and "c_wire t = c_wire s" and "c_refreshes t = c_refreshes s"
    and "\<And>n k. phase_ok (c_calls s ! i) n k \<Longrightarrow> phase_ok y n k"
  shows "sends_inv t"
  by (rule sends_inv_update [OF assms(1-3), of 0 undefined 0 undefined]) (simp_all add: assms(4-6))

lemma sends_inv_request: "keeps_retry merge \<Longrightarrow> sends_inv s \<Longrightarrow> sends_inv (api_request merge q s)"
  using sends_zero [of s "length (c_calls s)" "length (c_calls s)"]
    refreshes_zero [of s "length (c_calls s)" "length (c_calls s)"]
  by (auto simp: sends_inv_def api_request_def Let_def nth_append sends_def refreshes_def keeps_retry_def
        less_Suc_eq)

text \<open>The two outcomes of an error reply.\<close>

lemma response_error_cases:
  obtains (reject) "c_calls (response_error i c e s) = (c_calls s)[i := Rejected e]"
      "c_refreshes (response_error i c e s) = c_refreshes s"
    | (refresh) h where "e = HttpError 401" "\<not> cf_retry c" "\<not> c_isRefreshing s" "truthy (c_token s)"
      "c_calls (response_error i c e s) = (c_calls s)[i := Refreshing (c\<lparr>cf_retry := True\<rparr>) e]"
      "c_refreshes (response_error i c e s) = c_refreshes s @ [(i, h)]"
proof (cases "e = HttpError 401 \<and> \<not> cf_retry c \<and> \<not> c_isRefreshing s \<and> truthy (c_token s)")
  case True
  then show ?thesis
    by (intro refresh [of "bearer (the (c_token s))"])
       (simp_all add: response_error_def page_simps Let_def c_token_def)
next
  case False
  then show ?thesis
    by (intro reject) (auto simp: response_error_def refresh_catch_def page_simps Let_def c_token_def)
qed

lemma response_error_wire: "c_wire (response_error i c e s) = c_wire s"
  by (simp add: response_error_def refresh_catch_def page_simps Let_def)

lemma sends_inv_error:
  assumes "sends_inv s" and "i < length (c_calls s)" and "c_calls s ! i = Sent c"
  shows "sends_inv (response_error i c e s)"
proof (cases i c e s rule: response_error_cases)
  case reject
  show ?thesis
    by (rule sends_inv_settle [OF assms(1,2) reject(1) response_error_wire reject(2)])
       (use assms(3) phase_settled in simp)
next
  case (refresh h)
  show ?thesis
    by (rule sends_inv_update [OF assms(1,2) refresh(5), of 0 undefined 1 h])
       (use refresh assms(3) in \<open>simp_all add: response_error_wire\<close>)
qed

text \<open>The two outcomes of the reply to a refresh.\<close>

lemma refresh_resume_cases:
  obtains (reject) "c_calls (refresh_resume merge i c e r s) = (c_calls s)[i := Rejected e]"
      "c_wire (refresh_resume merge i c e r s) = c_wire s"
      "c_refreshes (refresh_resume merge i c e r s) = c_refreshes s"
    | (resend) c' where "\<exists>h. cf_retry c' = cf_retry (merge (c\<lparr>cf_auth := h\<rparr>))"
      "c_calls (refresh_resume merge i c e r s) = (c_calls s)[i := Sent c']"
      "c_wire (refresh_resume merge i c e r s) = c_wire s @ [(i, c')]"
      "c_refreshes (refresh_resume merge i c e r s) = c_refreshes s"
proof (cases r)
  case (RefreshBody tok)
  then show ?thesis
    by (intro resend) (auto simp: refresh_resume_def api_resend_def page_simps Let_def)
qed (use reject in \<open>simp_all add: refresh_resume_def refresh_catch_def page_simps\<close>)

lemma sends_inv_refresh:
  assumes "keeps_retry merge" and "sends_inv s" and "i < length (c_calls s)"
    and "c_calls s ! i = Refreshing c e"
  shows "sends_inv (refresh_resume merge i c e r s)"
proof (cases merge i c e r s rule: refresh_resume_cases)
  case reject
  show ?thesis
    by (rule sends_inv_settle [OF assms(2,3) reject]) (use assms(4) in simp)
next
  case (resend c')
  have "cf_retry c' = cf_retry c" using resend(1) assms(1) by (auto simp: keeps_retry_def)
  then show ?thesis
    by (intro sends_inv_update [OF assms(2,3) resend(2), of 1 c' 0 undefined])
       (use resend assms(4) in simp_all)
qed

lemma sends_inv_step:
  assumes "keeps_retry merge" and "sends_inv s" and "client_step merge ev s = Some t"
  shows "sends_inv t"
  using assms(3)
proof (cases rule: client_step_cases)
  case (request q)
  with assms(1,2) show ?thesis by (simp add: sends_inv_request)
next
  case (success i c d)
  show ?thesis
    unfolding success(4)
    by (rule sends_inv_settle [OF assms(2) success(2), of _ "Resolved d"])
       (use success(3) in \<open>simp_all add: page_simps split: if_splits\<close>)
next
  case (failure i c e)
  with assms(2) show ?thesis by (simp add: sends_inv_error)
next
  case (refresh i c e r)
  with assms(1,2) show ?thesis by (simp add: sends_inv_refresh)
qed (use assms(2) in \<open>simp_all add: sends_inv_def sends_def refreshes_def client_start_def\<close>)

lemma client_sends:
  assumes "keeps_retry merge" and "reachable (client_step merge) (client_start st loc) s"
  shows "sends_inv s"
proof -
  have "machine_invariant (client_step merge) (client_start st loc) sends_inv"
    by (rule machine_invariant.intro)
       (simp add: sends_inv_def client_start_def, rule sends_inv_step [OF assms(1)])
  then show ?thesis using assms(2) by (rule machine_invariant.reachable_inv)
qed


subsection \<open>Every call settles\<close>

fun call_weight :: "api_call \<Rightarrow> nat" where
  "call_weight (Sent c) = (if cf_retry c then 1 else 3)"
| "call_weight (Refreshing c e) = 2"
| "call_weight _ = 0"

definition client_weight :: "client \<Rightarrow> nat" where
  "client_weight s = sum_list (map call_weight (c_calls s))"

fun is_reply :: "client_event \<Rightarrow> bool" where
  "is_reply (Respond i r) = True"
| "is_reply (RefreshReply i r) = True"
| "is_reply _ = False"

definition settled :: "api_call \<Rightarrow> bool" where
  "settled c \<longleftrightarrow> call_weight c = 0"

lemma weight_update:
  assumes "i < length (c_calls s)" and "c_calls t = (c_calls s)[i := y]"
    and "call_weight y < call_weight (c_calls s ! i)"
  shows "client_weight t < client_weight s"
  using assms sum_list_update_less [of i "c_calls s" call_weight y] by (simp add: client_weight_def)

lemma reply_weight:
  assumes "keeps_retry merge" and "sends_inv s" and "client_step merge ev s = Some t" and "is_reply ev"
  shows "client_weight t < client_weight s"
  using assms(3)
proof (cases rule: client_step_cases)
  case (success i c d)
  show ?thesis
    unfolding success(4)
    by (rule weight_update [OF success(2), of _ "Resolved d"]) (simp_all add: page_simps success(3))
next
  case (failure i c e)
  show ?thesis
    unfolding failure(4)
  proof (cases i c e s rule: response_error_cases)
    case reject
    show "client_weight (response_error i c e s) < client_weight s"
      by (rule weight_update [OF failure(2) reject(1)]) (simp add: failure(3))
  next
    case (refresh h)
    show "client_weight (response_error i c e s) < client_weight s"
      by (rule weight_update [OF failure(2) refresh(5)]) (simp add: failure(3) refresh(2))
  qed
next
  case (refresh i c e r)
  then have "cf_retry c" using assms(2) by (auto simp: sends_inv_def)
  show ?thesis
    unfolding refresh(4)
  proof (cases merge i c e r s rule: refresh_resume_cases)
    case reject
    show "client_weight (refresh_resume merge i c e r s) < client_weight s"
      by (rule weight_update [OF refresh(2) reject(1)]) (simp add: refresh(3))
  next
    case (resend c')
    have "cf_retry c'" using resend(1) \<open>cf_retry c\<close> assms(1) by (auto simp: keeps_retry_def)
    then show "client_weight (refresh_resume merge i c e r s) < client_weight s"
      by (intro weight_update [OF refresh(2) resend(2)]) (simp add: refresh(3))
  qed
qed (use assms(4) in simp_all)

lemma replies_weight:
  assumes "keeps_retry merge" and "sends_inv s" and "list_all is_reply es"
    and "run (client_step merge) es s = Some t"
  shows "length es + client_weight t \<le> client_weight s"
  using assms(2-4)
proof (induction es arbitrary: s)
  case (Cons ev es)
  then obtain u where u: "client_step merge ev s = Some u" "run (client_step merge) es u = Some t"
    by (auto split: option.splits)
  have "client_weight u < client_weight s"
    using Cons.prems(2) by (intro reply_weight [OF assms(1) Cons.prems(1) u(1)]) simp
  moreover have "length es + client_weight t \<le> client_weight u"
    using Cons.prems(2) u(2) by (intro Cons.IH sends_inv_step [OF assms(1) Cons.prems(1) u(1)]) simp_all
  ultimately show ?case by simp
qed simp

lemma client_weight_bound: "client_weight s \<le> 3 * length (c_calls s)"
proof -
  have "call_weight c \<le> 3" for c by (cases c) auto
  then have "sum_list (map call_weight cs) \<le> 3 * length cs" for cs
    by (induction cs) (auto simp: add_mono)
  then show ?thesis by (simp add: client_weight_def)
qed

lemma unsettled_has_reply:
  "i < length (c_calls s) \<Longrightarrow> \<not> settled (c_calls s ! i) \<Longrightarrow>
   client_step merge (Respond i r) s \<noteq> None \<or> client_step merge (RefreshReply i r') s \<noteq> None"
  by (cases "c_calls s ! i"; cases r) (auto simp: settled_def)

subsection \<open>Properties\<close>

text \<open>C7: The flag \<open>isRefreshing\<close> is set exactly while one call waits for a new token, and never do two:
  in every reachable state of the client there is at most one refresh request in flight.\<close>

theorem single_refresh:
  "reachable (client_step merge) (client_start st loc) s \<Longrightarrow>
   refreshing_calls s \<le> 1 \<and> (c_isRefreshing s \<longleftrightarrow> refreshing_calls s = 1)"
  by (drule client_refresh.reachable_inv) (auto simp: refresh_inv_def)

definition demo_request :: request where
  "demo_request = mk_request GET (js ''/metrics'') None"

definition demo_store :: storage where
  "demo_store = [token_key \<mapsto> js ''t1'']"

definition demo_events :: "client_event list" where
  "demo_events = [Request demo_request, Request demo_request, Respond 0 (Failure (HttpError 401))]"

lemma demo_token [simp]: "getItem token_key demo_store = Some (js ''t1'')"
  by (simp add: demo_store_def getItem_def)

lemmas client_eval = client_defs settle_def end_session_def c_token_def request_interceptor_def
  bearer_def Let_def

lemma demo_run:
  "\<exists>s. run (client_step id) demo_events (client_start demo_store (js ''/'')) = Some s \<and>
       refreshing_calls s = 1"
  by (simp add: demo_events_def client_eval refreshing_calls_def js.simps)

theorem single_refresh_witness:
  "\<exists>s. run (client_step id) demo_events (client_start demo_store (js ''/'')) = Some s \<and>
       c_isRefreshing s"
proof -
  obtain s where s: "run (client_step id) demo_events (client_start demo_store (js ''/'')) = Some s"
    "refreshing_calls s = 1" using demo_run by blast
  with single_refresh [OF run_reachable [OF s(1)]] show ?thesis by blast
qed

text \<open>C6: A call goes over the network at most twice and asks for a new token at most once, whatever the
  server answers: the field \<open>_retry\<close> stops the handler from looping.\<close>

theorem sends_at_most_twice:
  assumes "keeps_retry merge" and "reachable (client_step merge) (client_start st loc) s"
  shows "sends i s \<le> 2 \<and> refreshes i s \<le> 1"
proof (cases "i < length (c_calls s)")
  case True
  then show ?thesis using client_sends [OF assms]
    by (cases "c_calls s ! i") (auto simp: sends_inv_def split: if_splits)
next
  case False
  then show ?thesis using client_sends [OF assms] sends_zero [of s _ i] refreshes_zero [of s _ i]
    by (auto simp: sends_inv_def)
qed

theorem sends_at_most_twice_witness:
  "\<exists>s. run (client_step id) demo_events (client_start demo_store (js ''/'')) = Some s \<and>
       sends 0 s \<le> 2 \<and> refreshes 0 s \<le> 1"
proof -
  obtain s where s: "run (client_step id) demo_events (client_start demo_store (js ''/'')) = Some s"
    using demo_run by blast
  have "keeps_retry id" by (simp add: keeps_retry_def)
  from sends_at_most_twice [OF this run_reachable [OF s]] s show ?thesis by blast
qed

text \<open>C5: Every call settles. Replies alone can only arrive finitely often: from any reachable state
  a run of replies has at most three per call, and as long as a call is not settled a reply to it
  is possible.\<close>

theorem calls_settle:
  assumes "keeps_retry merge" and "reachable (client_step merge) (client_start st loc) s"
    and "list_all is_reply es" and "run (client_step merge) es s = Some t"
  shows "length es \<le> 3 * length (c_calls s) \<and>
    (\<forall>i < length (c_calls t). settled (c_calls t ! i) \<or>
       (\<exists>ev u. is_reply ev \<and> client_step merge ev t = Some u))"
proof -
  have "length es \<le> 3 * length (c_calls s)"
    using replies_weight [OF assms(1) client_sends [OF assms(1,2)] assms(3,4)] client_weight_bound [of s]
    by simp
  moreover have "\<exists>ev u. is_reply ev \<and> client_step merge ev t = Some u"
    if "i < length (c_calls t)" "\<not> settled (c_calls t ! i)" for i
    using unsettled_has_reply [OF that, of merge "Failure NetworkError" RefreshNull] is_reply.simps(1,2)
    by blast
  ultimately show ?thesis by blast
qed

theorem calls_settle_witness:
  "\<exists>s t. run (client_step id) demo_events (client_start demo_store (js ''/'')) = Some s \<and>
     run (client_step id) [RefreshReply 0 RefreshFailed] s = Some t \<and>
     length [RefreshReply 0 RefreshFailed] \<le> 3 * length (c_calls s)"
proof -
  obtain s t where s: "run (client_step id) demo_events (client_start demo_store (js ''/'')) = Some s"
    "run (client_step id) [RefreshReply 0 RefreshFailed] s = Some t"
    by (simp add: demo_events_def client_eval js.simps)
  have "keeps_retry id" by (simp add: keeps_retry_def)
  from calls_settle [OF this run_reachable [OF s(1)] _ s(2)] s show ?thesis by (auto simp: keeps_retry_def)
qed

text \<open>The error path, on every branch. The session ends (the token is removed and the browser sent to
  the login page) exactly for a first 401 while a refresh is running or with no token stored; for
  any other error, and for the 401 to a call already sent again, storage and address stay as they are
  and the caller gets the error.\<close>

theorem response_error_branches:
  "c_token (response_error i c e s) =
     (if e = HttpError 401 \<and> \<not> cf_retry c
      then if \<not> c_isRefreshing s \<and> truthy (c_token s) then c_token s else None
      else c_token s) \<and>
   c_location (response_error i c e s) =
     (if e = HttpError 401 \<and> \<not> cf_retry c
      then if \<not> c_isRefreshing s \<and> truthy (c_token s) then c_location s else login_path
      else c_location s) \<and>
   c_calls (response_error i c e s) =
     (c_calls s)[i :=
        if e = HttpError 401 \<and> \<not> cf_retry c \<and> \<not> c_isRefreshing s \<and> truthy (c_token s)
        then Refreshing (c\<lparr>cf_retry := True\<rparr>) e else Rejected e]"
  by (auto simp: client_eval)

text \<open>The refresh works: after a first 401 with a token stored, a new token from the server is
  stored, the same request goes out a second time with the new token, and its reply resolves the call.\<close>

theorem refresh_then_resolve:
  assumes "keeps_request merge" and "i < length (c_calls s)" and "c_calls s ! i = Sent c"
    and "\<not> cf_retry c" and "\<not> c_isRefreshing s" and "truthy (c_token s)" and "tok \<noteq> []"
  shows "\<exists>t c'. run (client_step merge)
      [Respond i (Failure (HttpError 401)), RefreshReply i (RefreshBody (Some tok)),
       Respond i (Success d)] s = Some t \<and>
     c_calls t ! i = Resolved d \<and> c_token t = Some tok \<and> \<not> c_isRefreshing t \<and>
     c_wire t = c_wire s @ [(i, c')] \<and> cf_request c' = cf_request c \<and> cf_auth c' = Some (bearer tok)"
  using assms
  by (auto simp: client_eval keeps_request_def)

theorem refresh_then_resolve_witness:
  "\<exists>s t. run (client_step id) [Request demo_request] (client_start demo_store (js ''/'')) = Some s \<and>
     run (client_step id)
      [Respond 0 (Failure (HttpError 401)), RefreshReply 0 (RefreshBody (Some (js ''t2''))),
       Respond 0 (Success JNull)] s = Some t \<and> c_calls t ! 0 = Resolved JNull"
proof -
  define s where "s = api_request id demo_request (client_start demo_store (js ''/''))"
  have "run (client_step id) [Request demo_request] (client_start demo_store (js ''/'')) = Some s"
    by (simp add: s_def)
  moreover have "\<exists>t c'. run (client_step id)
      [Respond 0 (Failure (HttpError 401)), RefreshReply 0 (RefreshBody (Some (js ''t2''))),
       Respond 0 (Success JNull)] s = Some t \<and>
     c_calls t ! 0 = Resolved JNull \<and> c_token t = Some (js ''t2'') \<and> \<not> c_isRefreshing t \<and>
     c_wire t = c_wire s @ [(0, c')] \<and>
     cf_request c' = cf_request (request_interceptor (Some (js ''t1''))
        \<lparr>cf_request = demo_request, cf_auth = None, cf_retry = False\<rparr>) \<and>
     cf_auth c' = Some (bearer (js ''t2''))"
    by (rule refresh_then_resolve)
       (simp_all add: keeps_request_def s_def client_defs c_token_def Let_def js.simps)
  ultimately show ?thesis by blast
qed

text \<open>Two calls that are both answered with 401 end the session although the refresh succeeds: the
  second 401 removes the token and leaves for the login page while the first waits for the new
  token, which then is stored for a user who has been sent to log in again.\<close>

theorem parallel_unauthorized:
  assumes "i < length (c_calls s)" and "j < length (c_calls s)" and "i \<noteq> j"
    and "c_calls s ! i = Sent c" and "c_calls s ! j = Sent c'" and "\<not> cf_retry c" and "\<not> cf_retry c'"
    and "\<not> c_isRefreshing s" and "truthy (c_token s)"
  shows "\<exists>t u. run (client_step merge)
      [Respond i (Failure (HttpError 401)), Respond j (Failure (HttpError 401))] s = Some t \<and>
     c_token t = None \<and> c_location t = login_path \<and> c_calls t ! j = Rejected (HttpError 401) \<and>
     refreshes i t = Suc (refreshes i s) \<and>
     client_step merge (RefreshReply i (RefreshBody (Some tok))) t = Some u \<and>
     c_token u = Some tok \<and> c_location u = login_path"
  using assms
  by (auto simp: client_eval refreshes_def)

theorem parallel_unauthorized_witness:
  "\<exists>s t. run (client_step id) [Request demo_request, Request demo_request]
       (client_start demo_store (js ''/'')) = Some s \<and>
     run (client_step id) [Respond 0 (Failure (HttpError 401)), Respond 1 (Failure (HttpError 401))] s
       = Some t \<and> c_token t = None"
proof -
  define s where "s = api_request id demo_request (api_request id demo_request
    (client_start demo_store (js ''/'')))"
  have "run (client_step id) [Request demo_request, Request demo_request]
      (client_start demo_store (js ''/'')) = Some s"
    by (simp add: s_def)
  moreover have "\<exists>t u. run (client_step id)
      [Respond 0 (Failure (HttpError 401)), Respond 1 (Failure (HttpError 401))] s = Some t \<and>
     c_token t = None \<and> c_location t = login_path \<and> c_calls t ! 1 = Rejected (HttpError 401) \<and>
     refreshes 0 t = Suc (refreshes 0 s) \<and>
     client_step id (RefreshReply 0 (RefreshBody (Some (js ''t2'')))) t = Some u \<and>
     c_token u = Some (js ''t2'') \<and> c_location u = login_path"
    by (rule parallel_unauthorized) (simp_all add: s_def client_eval js.simps)+
  ultimately show ?thesis by blast
qed

end
