(* ===== verification/Shared.thy ===== *)
theory Shared
  imports Runtime
begin

text \<open>
  What several pages share: the form controls and the message banner they render with the same
  markup, the category records that the pages for groups and for lists load with the labels they
  show for them (each page has its own copy of the same table), and the contract of a multiple
  selection, a list of ids edited by clicks on check boxes. \<open>multi_select\<close> is the interface;
  each page interprets it on its own toggle handler.
\<close>

subsection \<open>Form controls and the message banner\<close>

definition labelled :: "jsstr \<Rightarrow> ('f, 'a) node \<Rightarrow> ('f, 'a) node" where
  "labelled l n = Elem TDiv [] [Elem TLabel [] [Text l], n]"

definition text_input :: "jsstr \<Rightarrow> jsstr \<Rightarrow> 'f \<Rightarrow> bool \<Rightarrow> ('f, 'a) node" where
  "text_input t v f required =
     Elem TInput ([TypeAttr t, Value v, OnChange f] @ (if required then [Required] else [])) []"

definition select_input :: "jsstr \<Rightarrow> 'f \<Rightarrow> (jsstr \<times> jsstr) list \<Rightarrow> ('f, 'a) node" where
  "select_input v f opts =
     Elem TSelect [Value v, OnChange f] (map (\<lambda>(x, l). Elem TOption [Value x] [Text l]) opts)"

definition submit_button :: "jsstr \<Rightarrow> bool \<Rightarrow> ('f, 'a) node" where
  "submit_button l disabled = Elem TButton [TypeAttr (js ''submit''), Disabled disabled] [Text l]"

text \<open>
  \<open>{message && <div className=... >{message}</div>}\<close>: nothing for the empty message, and the red
  classes exactly for a message that includes \<open>Erro\<close>.
\<close>

definition error_class :: jsstr where
  "error_class = js ''bg-red-50 text-red-600''"

definition success_class :: jsstr where
  "success_class = js ''bg-green-50 text-green-600''"

definition message_banner :: "jsstr \<Rightarrow> ('f, 'a) node list" where
  "message_banner msg =
     (if msg = [] then []
      else [Elem TDiv
              [ClassName (js ''px-4 py-2 rounded-lg text-sm mb-4 '' @
                 (if js_includes (js ''Erro'') msg then error_class else success_class))]
              [Text msg]])"

lemma error_banner:
  "prefix (js ''Erro'') msg \<Longrightarrow> message_banner msg =
     [Elem TDiv [ClassName (js ''px-4 py-2 rounded-lg text-sm mb-4 '' @ error_class)] [Text msg]]"
  by (auto simp: message_banner_def js_includes_sublist js.simps)

lemma js_Erro: "prefix (js ''Erro'') (js (CHR ''E'' # CHR ''r'' # CHR ''r'' # CHR ''o'' # w))"
  by (simp add: js.simps)

lemma control_view [view_simps]:
  "clicks (labelled l n) = clicks n" "submits (labelled l n) = submits n"
  "input_fields (labelled l n) = input_fields n" "filled (labelled l n) = filled n"
  "submit_buttons (labelled l n) = submit_buttons n"
  by (simp_all add: labelled_def attr_defs)

lemma text_input_view [view_simps]:
  "clicks (text_input t v f r) = []" "submits (text_input t v f r) = []"
  "input_fields (text_input t v f r) = [(f, None)]" "filled (text_input t v f r) = (r \<longrightarrow> v \<noteq> [])"
  "submit_buttons (text_input t v f r) = []"
  by (auto simp: text_input_def attr_defs)

lemma select_input_view [view_simps]:
  "clicks (select_input v f opts) = []" "submits (select_input v f opts) = []"
  "input_fields (select_input v f opts) = [(f, Some (map fst opts))]" "filled (select_input v f opts)"
  "submit_buttons (select_input v f opts) = []"
  by (induction opts) (auto simp: select_input_def attr_defs)

lemma submit_button_view [view_simps]:
  "clicks (submit_button l d) = []" "submits (submit_button l d) = []"
  "input_fields (submit_button l d) = []" "filled (submit_button l d)"
  "submit_buttons (submit_button l d) = [\<not> d]"
  by (simp_all add: submit_button_def attr_defs is_submit_def)

lemma message_banner_view [view_simps]:
  "concat (map clicks (message_banner m)) = []" "concat (map submits (message_banner m)) = []"
  "concat (map input_fields (message_banner m)) = []"
  by (simp_all add: message_banner_def attr_defs)

subsection \<open>Categories and multiple selection\<close>

record category =
  cat_id :: int
  cat_name :: jsstr
  cat_description :: jsstr

text \<open>The table \<open>catLabels\<close> and the expression \<open>catLabels[cat.name] || cat.name\<close>.\<close>

definition catLabels :: "(jsstr \<times> jsstr) list" where
  "catLabels =
     [(js ''malware'', js ''Malware e Phishing''),
      (js ''ads'', js ''Publicidade e Rastreamento''),
      (js ''adult'', js ''Conte%FAdo Adulto''),
      (js ''social'', js ''Redes Sociais''),
      (js ''streaming'', js ''Streaming de V%EDdeo''),
      (js ''gaming'', js ''Jogos Online'')]"

definition category_label :: "category \<Rightarrow> jsstr" where
  "category_label c = (case map_of catLabels (cat_name c) of None \<Rightarrow> cat_name c | Some l \<Rightarrow> l)"

locale multi_select =
  fixes toggle :: "int \<Rightarrow> int list \<Rightarrow> int list"
  assumes set_toggle: "set (toggle c xs) = (if c \<in> set xs then set xs - {c} else insert c (set xs))"
    and distinct_toggle: "distinct xs \<Longrightarrow> distinct (toggle c xs)"
begin

lemma member_toggle: "x \<in> set (toggle c xs) \<longleftrightarrow> (x \<in> set xs) \<noteq> (x = c)"
  by (auto simp: set_toggle)

lemma toggle_twice: "set (toggle c (toggle c xs)) = set xs"
  by (auto simp: set_toggle)

text \<open>After any clicks an id is selected exactly if an odd number of clicks changed its state.\<close>

lemma fold_toggle_parity:
  "x \<in> set (fold toggle cs xs) \<longleftrightarrow> (x \<in> set xs) \<noteq> odd (count_list cs x)"
  by (induction cs arbitrary: xs) (auto simp: member_toggle)

lemma distinct_fold_toggle: "distinct xs \<Longrightarrow> distinct (fold toggle cs xs)"
  by (induction cs arbitrary: xs) (auto simp: distinct_toggle)

end

end
