(* ===== verification/GroupsPage.thy ===== *)
theory GroupsPage
  imports Shared
begin

text \<open>
  The page of groups and policies, \<open>web/src/pages/Groups.tsx\<close>: its state variables, its handlers
  (each split at its \<open>await\<close> into the part that runs on the click and the continuation that runs
  on the reply), its view, and the machine they make. The continuations carry what the closure of
  the handler captured: \<open>handleDelete\<close> compares with the \<open>editingPolicy\<close> of the render in
  which the button was clicked, and \<open>savePolicy\<close> reports the number of categories it sent.
  The lemmas show that saves exclude each other and that the editor always shows the categories
  that the server returned for the group it is open for.
\<close>

record group =
  group_id :: int
  group_name :: jsstr
  group_description :: jsstr

datatype (discs_sels) groups_cont =
  GKGroups | GKCategories | GKCreate | GKDelete int "int option" | GKPolicy int
  | GKSave nat

record groups_state = "groups_cont async" +
  g_groups :: "group list"
  g_categories :: "category list"
  g_name :: jsstr
  g_description :: jsstr
  g_message :: jsstr
  g_editingPolicy :: "int option"
  g_blockedCats :: "int list"
  g_savingPolicy :: bool

subsection \<open>Requests\<close>

definition groups_get :: request where
  "groups_get = mk_request GET (js ''/groups'') None"

definition categories_get :: request where
  "categories_get = mk_request GET (js ''/categories'') None"

definition groups_post :: "jsstr \<Rightarrow> jsstr \<Rightarrow> request" where
  "groups_post name description =
     mk_request POST (js ''/groups'')
       (Some (JObj [(js ''name'', JStr name), (js ''description'', JStr description)]))"

definition groups_delete :: "int \<Rightarrow> request" where
  "groups_delete gid = mk_request DELETE (js ''/groups/'' @ num_str gid) None"

definition policy_get :: "int \<Rightarrow> request" where
  "policy_get gid = mk_request GET (js ''/groups/'' @ num_str gid @ js ''/policy'') None"

definition policy_put :: "int \<Rightarrow> int list \<Rightarrow> request" where
  "policy_put gid cats =
     mk_request PUT (js ''/groups/'' @ num_str gid @ js ''/policy'')
       (Some (JObj [(js ''categories'', JArr (map JNum cats))]))"

lemma groups_post_inject [simp]: "groups_post n d = groups_post n' d' \<longleftrightarrow> n = n' \<and> d = d'"
  by (auto simp: groups_post_def)

lemma policy_put_inject [simp]: "policy_put g xs = policy_put g' ys \<longleftrightarrow> g = g' \<and> xs = ys"
  by (auto simp: policy_put_def)

subsection \<open>Loading\<close>

definition fetchGroups :: "groups_state \<Rightarrow> groups_state" where
  "fetchGroups s = issue groups_get GKGroups s"

definition groups_fetchCategories :: "groups_state \<Rightarrow> groups_state" where
  "groups_fetchCategories s = issue categories_get GKCategories s"

text \<open>The state after the first render, whose effect starts both requests.\<close>

definition groups_init :: groups_state where
  "groups_init = groups_fetchCategories (fetchGroups
     \<lparr>inflight = [], timers = 0, g_groups = [], g_categories = [], g_name = [], g_description = [],
      g_message = [], g_editingPolicy = None, g_blockedCats = [], g_savingPolicy = False\<rparr>)"

subsection \<open>Handlers\<close>

definition groups_handleCreate :: "groups_state \<Rightarrow> groups_state" where
  "groups_handleCreate s = issue (groups_post (g_name s) (g_description s)) GKCreate s"

definition groups_handleDelete :: "int \<Rightarrow> bool \<Rightarrow> groups_state \<Rightarrow> groups_state" where
  "groups_handleDelete gid confirmed s =
     (if \<not> confirmed then s else issue (groups_delete gid) (GKDelete gid (g_editingPolicy s)) s)"

definition openPolicy :: "int \<Rightarrow> groups_state \<Rightarrow> groups_state" where
  "openPolicy gid s =
     (if g_editingPolicy s = Some gid then s\<lparr>g_editingPolicy := None\<rparr>
      else issue (policy_get gid) (GKPolicy gid) s)"

definition toggle_cat :: "int \<Rightarrow> int list \<Rightarrow> int list" where
  "toggle_cat c prev = (if c \<in> set prev then filter (\<lambda>x. x \<noteq> c) prev else prev @ [c])"

definition toggleCategory :: "int \<Rightarrow> groups_state \<Rightarrow> groups_state" where
  "toggleCategory c s = s\<lparr>g_blockedCats := toggle_cat c (g_blockedCats s)\<rparr>"

definition savePolicy :: "groups_state \<Rightarrow> groups_state" where
  "savePolicy s =
     (case g_editingPolicy s of
        None \<Rightarrow> s
      | Some gid \<Rightarrow>
          issue (policy_put gid (g_blockedCats s)) (GKSave (length (g_blockedCats s)))
            (s\<lparr>g_savingPolicy := True\<rparr>))"

datatype groups_action = GCreate | GDelete int | GOpenPolicy int | GToggle int | GSavePolicy
datatype groups_field = GName | GDescription

fun groups_act :: "groups_action \<Rightarrow> bool \<Rightarrow> groups_state \<Rightarrow> groups_state" where
  "groups_act GCreate ok s = groups_handleCreate s"
| "groups_act (GDelete gid) ok s = groups_handleDelete gid ok s"
| "groups_act (GOpenPolicy gid) ok s = openPolicy gid s"
| "groups_act (GToggle c) ok s = toggleCategory c s"
| "groups_act GSavePolicy ok s = savePolicy s"

fun groups_edit :: "groups_field \<Rightarrow> jsstr \<Rightarrow> groups_state \<Rightarrow> groups_state" where
  "groups_edit GName v s = s\<lparr>g_name := v\<rparr>"
| "groups_edit GDescription v s = s\<lparr>g_description := v\<rparr>"

text \<open>
  The replies: the array loaded by a list request, the \<open>blocked_categories\<close> of a policy
  (\<open>res.data?.blocked_categories\<close>), the success of a request whose body is not read, or a
  rejected promise. The error paths of the two list requests only write to the console.
\<close>

datatype groups_reply =
  GRGroups "group payload" | GRCategories "category payload" | GRPolicy "int payload" | GROk | GRError

fun groups_resume :: "groups_cont \<Rightarrow> groups_reply \<Rightarrow> groups_state \<Rightarrow> groups_state option" where
  "groups_resume GKGroups (GRGroups d) s = Some (s\<lparr>g_groups := array_or_empty d\<rparr>)"
| "groups_resume GKGroups GRError s = Some s"
| "groups_resume GKCategories (GRCategories d) s = Some (s\<lparr>g_categories := array_or_empty d\<rparr>)"
| "groups_resume GKCategories GRError s = Some s"
| "groups_resume GKCreate GROk s =
     Some (set_timeout (fetchGroups
       (s\<lparr>g_name := [], g_description := [], g_message := js ''Grupo criado com sucesso''\<rparr>)))"
| "groups_resume GKCreate GRError s = Some (s\<lparr>g_message := js ''Erro ao criar grupo''\<rparr>)"
| "groups_resume (GKDelete gid editing) GROk s =
     (let s1 = fetchGroups (s\<lparr>g_message := js ''Grupo removido''\<rparr>);
          s2 = (if editing = Some gid then s1\<lparr>g_editingPolicy := None\<rparr> else s1)
      in Some (set_timeout s2))"
| "groups_resume (GKDelete gid editing) GRError s = Some (s\<lparr>g_message := js ''Erro ao remover grupo''\<rparr>)"
| "groups_resume (GKPolicy gid) (GRPolicy d) s =
     Some (s\<lparr>g_blockedCats := array_or_empty d, g_editingPolicy := Some gid\<rparr>)"
| "groups_resume (GKPolicy gid) GRError s =
     Some (s\<lparr>g_message := js ''Erro ao carregar pol%EDtica''\<rparr>)"
| "groups_resume (GKSave n) GROk s =
     Some ((set_timeout (s\<lparr>g_message :=
       js ''Pol%EDtica do grupo atualizada %u2014 '' @ num_str (int n) @ js '' categorias bloqueadas''\<rparr>))
       \<lparr>g_savingPolicy := False\<rparr>)"
| "groups_resume (GKSave n) GRError s =
     Some (s\<lparr>g_message := js ''Erro ao salvar pol%EDtica'', g_savingPolicy := False\<rparr>)"
| "groups_resume _ _ s = None"

definition groups_tick :: "groups_state \<Rightarrow> groups_state" where
  "groups_tick s = s\<lparr>g_message := []\<rparr>"

subsection \<open>View\<close>

definition groups_form :: "groups_state \<Rightarrow> (groups_field, groups_action) node" where
  "groups_form s =
     Elem TDiv []
       [Elem TH3 [] [Text (js ''Novo Grupo'')],
        Elem TForm [OnSubmit GCreate]
          [labelled (js ''Nome'') (text_input (js ''text'') (g_name s) GName True),
           labelled (js ''Descri%E7%E3o'') (text_input (js ''text'') (g_description s) GDescription False),
           submit_button (js ''Criar'') False]]"

definition groups_category_box ::
  "groups_state \<Rightarrow> category \<Rightarrow> (groups_field, groups_action) node" where
  "groups_category_box s cat =
     (let blocked = cat_id cat \<in> set (g_blockedCats s)
      in Elem TLabel
           [Key (num_str (cat_id cat)),
            ClassName (if blocked then js ''bg-red-100 border border-red-300''
                       else js ''bg-white border border-gray-200 hover:border-gray-300'')]
           [Elem TInput [TypeAttr (js ''checkbox''), Checked blocked, OnToggle (GToggle (cat_id cat))] [],
            Elem TDiv []
              (Elem TSpan [] [Text (category_label cat)] #
               (if cat_description cat \<noteq> [] then [Elem TP [] [Text (cat_description cat)]] else []))])"

definition groups_policy_panel ::
  "groups_state \<Rightarrow> group \<Rightarrow> (groups_field, groups_action) node" where
  "groups_policy_panel s g =
     Elem TTr []
       [Elem TTd [ColSpan 4]
          ([Elem TDiv []
              [Elem TH4 []
                 [Text (js ''Categorias bloqueadas para o grupo %22'' @ group_name g @ js ''%22'')],
               Elem TP []
                 [Text (js ''Marque as categorias que este grupo N%C3O pode acessar. Listas associadas a essas categorias ser%E3o bloqueadas.'')]],
            Elem TDiv [] (map (groups_category_box s) (g_categories s))] @
           (if g_categories s = []
            then [Elem TP [] [Text (js ''Nenhuma categoria cadastrada no banco.'')]] else []) @
           [Elem TButton [OnClick GSavePolicy, Disabled (g_savingPolicy s)]
              [Text (if g_savingPolicy s then js ''Salvando...'' else js ''Salvar Pol%EDtica'')]])]"

definition groups_row :: "groups_state \<Rightarrow> group \<Rightarrow> (groups_field, groups_action) node" where
  "groups_row s g =
     (let editing = g_editingPolicy s = Some (group_id g)
      in Elem TFragment [Key (num_str (group_id g))]
           (Elem TTr []
              [Elem TTd [] [Text (num_str (group_id g))],
               Elem TTd [] [Text (group_name g)],
               Elem TTd [] [Text (group_description g)],
               Elem TTd []
                 [Elem TButton
                    [OnClick (GOpenPolicy (group_id g)),
                     ClassName (if editing then js ''bg-blue-100 text-blue-700''
                                else js ''bg-gray-100 text-gray-600 hover:bg-gray-200'')]
                    [Text (if editing then js ''Fechar Pol%EDtica'' else js ''Editar Pol%EDtica'')],
                  Elem TButton [OnClick (GDelete (group_id g))] [Text (js ''Remover'')]]] #
            (if editing then [groups_policy_panel s g] else [])))"

definition groups_table :: "groups_state \<Rightarrow> (groups_field, groups_action) node" where
  "groups_table s =
     Elem TDiv []
       [Elem TTable []
          [Elem TThead []
             [Elem TTr []
                (map (\<lambda>h. Elem TTh [] [Text h])
                   [js ''ID'', js ''Nome'', js ''Descri%E7%E3o'', js ''A%E7%F5es''])],
           Elem TTbody [] (map (groups_row s) (g_groups s))]]"

definition groups_view :: "groups_state \<Rightarrow> (groups_field, groups_action) node option" where
  "groups_view s =
     Some (Elem TDiv []
       ([Elem TH2 [] [Text (js ''Grupos e Pol%EDticas'')]] @ message_banner (g_message s) @
        [groups_form s, groups_table s]))"

definition groups_step ::
  "(groups_action, groups_field, groups_reply) page_event \<Rightarrow> groups_state \<Rightarrow> groups_state option" where
  "groups_step = page_step groups_view groups_act groups_edit groups_resume groups_tick"

subsection \<open>What the view offers\<close>

lemma groups_form_view [view_simps]:
  "clicks (groups_form s) = []"
  "submits (groups_form s) = (if g_name s \<noteq> [] then [GCreate] else [])"
  "input_fields (groups_form s) = [(GName, None), (GDescription, None)]"
  by (simp_all add: groups_form_def view_simps attr_defs form_ready_def)

lemma groups_category_box_view [view_simps]:
  "clicks (groups_category_box s cat) = [GToggle (cat_id cat)]"
  "submits (groups_category_box s cat) = []" "input_fields (groups_category_box s cat) = []"
  by (simp_all add: groups_category_box_def Let_def attr_defs)

lemma groups_policy_panel_view [view_simps]:
  "clicks (groups_policy_panel s g) =
     map (\<lambda>cat. GToggle (cat_id cat)) (g_categories s) @
     (if g_savingPolicy s then [] else [GSavePolicy])"
  "submits (groups_policy_panel s g) = []" "input_fields (groups_policy_panel s g) = []"
  by (simp_all add: groups_policy_panel_def view_simps attr_defs o_def set_concat_map_empty)

lemma groups_row_view [view_simps]:
  "clicks (groups_row s g) =
     [GOpenPolicy (group_id g), GDelete (group_id g)] @
     (if g_editingPolicy s = Some (group_id g) then clicks (groups_policy_panel s g) else [])"
  "submits (groups_row s g) = []" "input_fields (groups_row s g) = []"
  by (simp_all add: groups_row_def Let_def view_simps attr_defs)

lemma groups_table_view [view_simps]:
  "clicks (groups_table s) = concat (map (\<lambda>g. clicks (groups_row s g)) (g_groups s))"
  "submits (groups_table s) = []" "input_fields (groups_table s) = []"
  by (simp_all add: groups_table_def view_simps attr_defs o_def set_concat_map_empty)

lemma groups_view_offers [view_simps]:
  "view_clicks (groups_view s) = concat (map (\<lambda>g. clicks (groups_row s g)) (g_groups s))"
  "view_submits (groups_view s) = (if g_name s \<noteq> [] then [GCreate] else [])"
  "view_can_type (groups_view s) f v"
  by (simp_all add: groups_view_def view_simps attr_defs can_type_def) (cases f, simp_all)


subsection \<open>Invariant\<close>

text \<open>Which request each continuation waits for; a new group is only posted with a name.\<close>

fun groups_call :: "groups_cont \<Rightarrow> request \<Rightarrow> bool" where
  "groups_call GKGroups q = (q = groups_get)"
| "groups_call GKCategories q = (q = categories_get)"
| "groups_call GKCreate q = (\<exists>name description. q = groups_post name description \<and> name \<noteq> [])"
| "groups_call (GKDelete gid editing) q = (q = groups_delete gid)"
| "groups_call (GKPolicy gid) q = (q = policy_get gid)"
| "groups_call (GKSave n) q = (\<exists>gid cats. q = policy_put gid cats \<and> length cats = n)"

definition groups_inv :: "groups_state \<Rightarrow> bool" where
  "groups_inv s \<longleftrightarrow>
     busy_ok is_GKSave (g_savingPolicy s) (inflight s) \<and>
     (\<forall>(q, k) \<in> set (inflight s). groups_call k q)"

lemmas groups_handler_defs = fetchGroups_def groups_fetchCategories_def groups_handleCreate_def
  groups_handleDelete_def openPolicy_def toggleCategory_def savePolicy_def groups_tick_def

lemmas groups_inv_unfold = groups_inv_def groups_handler_defs issue_def set_timeout_def

fun_cases groups_resumeE: "groups_resume k r s = Some t"

lemma groups_offers_create: "GCreate \<in> set (view_clicks (groups_view s)) \<union> set (view_submits (groups_view s)) \<Longrightarrow>
   g_name s \<noteq> []"
  by (auto simp: view_simps split: if_splits)

lemma groups_offers_save: "GSavePolicy \<in> set (view_clicks (groups_view s)) \<union> set (view_submits (groups_view s)) \<Longrightarrow>
   \<not> g_savingPolicy s \<and> (\<exists>g \<in> set (g_groups s). g_editingPolicy s = Some (group_id g))"
  by (auto simp: view_simps split: if_splits)

lemma groups_inv_act:
  assumes "groups_inv s" and "a \<in> set (view_clicks (groups_view s)) \<union> set (view_submits (groups_view s))"
  shows "groups_inv (groups_act a ok s)"
proof (cases a)
  case GCreate
  with assms groups_offers_create [of s] show ?thesis
    by (simp add: groups_inv_unfold)
next
  case GSavePolicy
  with assms groups_offers_save [of s] have "\<not> g_savingPolicy s" by simp
  with GSavePolicy assms(1) show ?thesis
    by (simp add: groups_inv_unfold split: option.split)
qed (use assms(1) in \<open>simp_all add: groups_inv_unfold\<close>)

lemma groups_inv_resume:
  assumes inv: "groups_inv s" and i: "i < length (inflight s)" "inflight s ! i = (q, k)"
    and res: "groups_resume k r (take_reply i s) = Some t"
  shows "groups_inv t"
proof -
  let ?u = "take_reply i s"
  have "busy_ok is_GKSave (g_savingPolicy s \<and> \<not> is_GKSave k) (inflight ?u)"
    using busy_ok_reply [OF _ i] inv by (simp add: groups_inv_def)
  moreover have "\<forall>(q, k) \<in> set (inflight ?u). groups_call k q"
    using inv by (auto simp: groups_inv_def page_simps)
  moreover have "g_savingPolicy ?u = g_savingPolicy s" by (simp add: take_reply_def)
  ultimately show ?thesis using res
    by (elim groups_resumeE) (auto simp: groups_inv_unfold Let_def)
qed

lemma groups_inv_edit: "groups_inv s \<Longrightarrow> groups_inv (groups_edit f v s)"
  by (cases f) (simp_all add: groups_inv_def)

lemma groups_inv_tick: "groups_inv s \<Longrightarrow> groups_inv (groups_tick (fire_timer s))"
  by (simp add: groups_inv_unfold fire_timer_def)

lemma groups_inv_init: "groups_inv groups_init"
  by (simp add: groups_inv_unfold groups_init_def)

lemma groups_inv_busy: "groups_inv s \<Longrightarrow> pending is_GKSave s = (if g_savingPolicy s then 1 else 0)"
  by (simp add: groups_inv_def busy_ok_pending)

interpretation groups: exclusive_page groups_view groups_act groups_edit groups_resume groups_tick
  groups_init groups_inv g_savingPolicy is_GKSave
  by unfold_locales
    (erule groups_inv_resume groups_inv_act groups_inv_edit groups_inv_tick groups_inv_busy
       groups_inv_init | rule groups_inv_init | assumption)+

interpretation groups_select: multi_select toggle_cat
  by unfold_locales (auto simp: toggle_cat_def)

subsection \<open>The editor against the server's policies\<close>

text \<open>
  The runs in which the server answers every question for a policy from \<open>P\<close>, with the check boxes
  clicked since the last such answer.
\<close>

inductive policy_run :: "(int \<Rightarrow> int payload) \<Rightarrow> groups_state \<Rightarrow> int list \<Rightarrow> bool" for P where
  policy_start: "policy_run P groups_init []"
| policy_toggle: "policy_run P s ts \<Longrightarrow> groups_step (Click (GToggle c) ok) s = Some t \<Longrightarrow>
    policy_run P t (ts @ [c])"
| policy_answer: "policy_run P s ts \<Longrightarrow> i < length (inflight s) \<Longrightarrow> snd (inflight s ! i) = GKPolicy gid \<Longrightarrow>
    groups_step (Reply i (GRPolicy (P gid))) s = Some t \<Longrightarrow> policy_run P t []"
| policy_other: "policy_run P s ts \<Longrightarrow> (\<And>c ok. e \<noteq> Click (GToggle c) ok) \<Longrightarrow>
    (\<And>i d. e \<noteq> Reply i (GRPolicy d)) \<Longrightarrow> groups_step e s = Some t \<Longrightarrow> policy_run P t ts"

definition policy_shown :: "(int \<Rightarrow> int payload) \<Rightarrow> groups_state \<Rightarrow> int list \<Rightarrow> bool" where
  "policy_shown P s ts \<longleftrightarrow>
     (\<forall>gid. g_editingPolicy s = Some gid \<longrightarrow>
        g_blockedCats s = fold toggle_cat ts (array_or_empty (P gid)))"

lemma policy_other_frame:
  assumes "groups_step e s = Some t" and "\<And>c ok. e \<noteq> Click (GToggle c) ok"
    and "\<And>i d. e \<noteq> Reply i (GRPolicy d)"
  shows "g_blockedCats t = g_blockedCats s \<and> g_editingPolicy t \<in> {g_editingPolicy s, None}"
  using assms(1) unfolding groups_step_def
proof (cases rule: page_step_cases)
  case (click a ok)
  with assms(2) show ?thesis
    by (cases a) (auto simp: groups_handler_defs issue_def split: option.splits)
next
  case (submit a)
  then show ?thesis by (auto simp: view_simps groups_handler_defs issue_def split: if_splits)
next
  case (edit f v)
  then show ?thesis by (cases f) auto
next
  case (reply i r q k)
  then show ?thesis using assms(3)
    by (cases k; cases r)
       (auto simp: groups_handler_defs issue_def set_timeout_def take_reply_def Let_def
          split: if_splits)
qed (simp add: groups_tick_def fire_timer_def)

lemma policy_run_shown: "policy_run P s ts \<Longrightarrow> policy_shown P s ts"
proof (induction rule: policy_run.induct)
  case policy_start
  show ?case
    by (simp add: policy_shown_def groups_init_def groups_handler_defs issue_def)
next
  case (policy_toggle s ts c ok t)
  then have "t = toggleCategory c s"
    by (auto simp: groups_step_def page_step_def split: if_splits)
  with policy_toggle.IH show ?case by (auto simp: policy_shown_def toggleCategory_def)
next
  case (policy_answer s ts i gid t)
  then show ?case
    by (auto simp: policy_shown_def groups_step_def page_step_def split: if_splits)
next
  case (policy_other s ts e t)
  have "g_blockedCats t = g_blockedCats s \<and> g_editingPolicy t \<in> {g_editingPolicy s, None}"
    by (rule policy_other_frame [OF policy_other.hyps(4)]) (use policy_other.hyps in auto)
  with policy_other.IH show ?case by (auto simp: policy_shown_def)
qed

subsection \<open>Properties\<close>

text \<open>At most one policy is being saved, exactly while the button is disabled, and a new group is only
  posted with a name.\<close>

theorem single_policy_save:
  assumes "reachable groups_step groups_init s"
  shows "pending is_GKSave s \<le> 1 \<and> (g_savingPolicy s \<longleftrightarrow> pending is_GKSave s = 1) \<and>
    (\<forall>q. (q, GKCreate) \<in> set (inflight s) \<longrightarrow>
       (\<exists>name description. q = groups_post name description \<and> name \<noteq> []))"
proof -
  have "groups_inv s" using assms unfolding groups_step_def by (rule groups.reachable_inv)
  then have "\<forall>q. (q, GKCreate) \<in> set (inflight s) \<longrightarrow>
       (\<exists>name description. q = groups_post name description \<and> name \<noteq> [])"
    by (auto simp: groups_inv_def)
  then show ?thesis
    using groups.at_most_one [OF assms [unfolded groups_step_def]]
      groups.busy_iff_pending [OF assms [unfolded groups_step_def]] by blast
qed

definition demo_group :: group where
  "demo_group = \<lparr>group_id = 7, group_name = js ''TI'', group_description = []\<rparr>"

definition demo_category :: category where
  "demo_category = \<lparr>cat_id = 2, cat_name = js ''ads'', cat_description = []\<rparr>"

text \<open>The two lists are loaded, the policy of group 7 is opened, and category 2 is clicked.\<close>

definition groups_demo :: "(groups_action, groups_field, groups_reply) page_event list" where
  "groups_demo =
     [Reply 0 (GRGroups (Arr [demo_group])), Reply 0 (GRCategories (Arr [demo_category])),
      Click (GOpenPolicy 7) True, Reply 0 (GRPolicy (Arr [4])), Click (GToggle 2) True]"

lemmas groups_eval = groups_step_def page_step_def groups_init_def groups_handler_defs issue_def
  set_timeout_def take_reply_def remove_nth_def view_simps fire_timer_def

lemma groups_demo_run:
  "\<exists>s. run groups_step groups_demo groups_init = Some s \<and> g_editingPolicy s = Some 7 \<and>
     g_blockedCats s = [4, 2]"
  by (simp add: groups_demo_def groups_eval demo_group_def demo_category_def toggle_cat_def)

theorem single_policy_save_witness:
  "\<exists>s. run groups_step (groups_demo @ [Click GSavePolicy True]) groups_init = Some s \<and>
     g_savingPolicy s \<and> pending is_GKSave s = 1"
proof -
  have "\<exists>s. run groups_step (groups_demo @ [Click GSavePolicy True]) groups_init = Some s \<and> g_savingPolicy s"
    by (simp add: groups_demo_def groups_eval demo_group_def demo_category_def toggle_cat_def)
  then obtain s where s: "run groups_step (groups_demo @ [Click GSavePolicy True]) groups_init = Some s"
    "g_savingPolicy s" by blast
  from single_policy_save [OF run_reachable [OF s(1)]] s show ?thesis by blast
qed

lemma save_click:
  assumes "groups_step (Click GSavePolicy ok) s = Some t"
  shows "\<exists>gid. g_editingPolicy s = Some gid \<and>
    inflight t = inflight s @ [(policy_put gid (g_blockedCats s), GKSave (length (g_blockedCats s)))]"
proof -
  have "GSavePolicy \<in> set (view_clicks (groups_view s))" and t: "t = savePolicy s"
    using assms by (auto simp: groups_step_def page_step_def split: if_splits)
  then obtain gid where "g_editingPolicy s = Some gid" using groups_offers_save [of s] by auto
  then show ?thesis by (simp add: t savePolicy_def issue_def)
qed

lemma policy_demo_run:
  assumes "P 7 = Arr [4]"
  shows "\<exists>s t. policy_run P s [2] \<and> groups_step (Click GSavePolicy True) s = Some t \<and> g_editingPolicy s = Some 7"
proof -
  obtain s1 s2 s3 s4 s5 t where
    r: "groups_step (Reply 0 (GRGroups (Arr [demo_group]))) groups_init = Some s1"
      "groups_step (Reply 0 (GRCategories (Arr [demo_category]))) s1 = Some s2"
      "groups_step (Click (GOpenPolicy 7) True) s2 = Some s3"
      "groups_step (Reply 0 (GRPolicy (Arr [4]))) s3 = Some s4"
      "groups_step (Click (GToggle 2) True) s4 = Some s5"
      "groups_step (Click GSavePolicy True) s5 = Some t"
    and k: "inflight s3 = [(policy_get 7, GKPolicy 7)]" "g_editingPolicy s5 = Some 7"
    by (simp add: groups_eval demo_group_def demo_category_def toggle_cat_def)
  have "policy_run P s1 []" by (rule policy_other [OF policy_start _ _ r(1)]) simp_all
  then have "policy_run P s2 []" by (rule policy_other [OF _ _ _ r(2)]) simp_all
  then have "policy_run P s3 []" by (rule policy_other [OF _ _ _ r(3)]) simp_all
  then have "policy_run P s4 []" by (rule policy_answer [where i = 0 and gid = 7]) (simp_all add: k r(4) assms)
  then have "policy_run P s5 [2]" using policy_toggle [OF _ r(5), of P "[]"] by simp
  with r(6) k(2) show ?thesis by blast
qed



text \<open>Errors on the groups page are shown and lose nothing: after a failed create, delete, policy or save
  request the banner is red with a message, and the fields, the lists and the editor are as before;
  a failed list request changes nothing at all.\<close>

theorem groups_error_reply:
  assumes "groups_resume k GRError s = Some t"
  shows "g_name t = g_name s \<and> g_description t = g_description s \<and> g_groups t = g_groups s \<and>
    g_categories t = g_categories s \<and> g_editingPolicy t = g_editingPolicy s \<and>
    g_blockedCats t = g_blockedCats s \<and> inflight t = inflight s \<and>
    (if k \<in> {GKGroups, GKCategories} then t = s
     else message_banner (g_message t) =
       [Elem TDiv [ClassName (js ''px-4 py-2 rounded-lg text-sm mb-4 '' @ error_class)] [Text (g_message t)]])"
  using assms
  by (cases k) (auto intro!: error_banner js_Erro)

theorem groups_error_reply_witness:
  "\<exists>t. groups_resume GKCreate GRError groups_init = Some t \<and> g_name t = g_name groups_init"
  using groups_error_reply [of GKCreate groups_init] by auto

text \<open>A success message's timer also hides a later error: after one group was created and a second
  creation failed, the timer started by the first clears the error message.\<close>

theorem timer_hides_error:
  "\<exists>s t. run groups_step
       [Edit GName (js ''a''), Submit GCreate, Reply 2 GROk,
        Edit GName (js ''b''), Submit GCreate, Reply 3 GRError] groups_init = Some s \<and>
     g_message s = js ''Erro ao criar grupo'' \<and> timers s = 1 \<and>
     groups_step Tick s = Some t \<and> g_message t = []"
  by (simp add: groups_eval js.simps)

end
