(* ===== verification/ListsPage.thy ===== *)
theory ListsPage
  imports Shared
begin

text \<open>
  The page of block lists, \<open>web/src/pages/Lists.tsx\<close>: state, handlers with their continuations,
  view and machine. Two editors can be open below a list, one for its categories
  (\<open>editingCats\<close>) and one to add domains (\<open>addingDomains\<close>); four flags disable the button of
  the request they guard. \<open>valid_domains\<close> is the pipeline that turns the text area into the
  domains a save sends, and \<open>domain_counter\<close> is the count shown beside the button.
\<close>

record blocklist_info =
  bl_id :: int
  bl_name :: jsstr
  bl_source_url :: jsstr
  bl_list_type :: int
  bl_active :: bool
  bl_domain_count :: int

datatype (discs_sels) lists_cont =
  LKLists
  | LKCategories
  | LKCreate
  | LKDownload
  | LKReload
  | LKDelete int "int option" "int option"
  | LKListCats int
  | LKSaveCats nat
  | LKSaveDomains

record lists_state = "lists_cont async" +
  l_lists :: "blocklist_info list"
  l_categories :: "category list"
  l_name :: jsstr
  l_sourceURL :: jsstr
  l_listType :: "int option"
  l_message :: jsstr
  l_reloading :: bool
  l_downloading :: bool
  l_editingCats :: "int option"
  l_listCats :: "int list"
  l_savingCats :: bool
  l_addingDomains :: "int option"
  l_domainsText :: jsstr
  l_savingDomains :: bool

text \<open>
  \<open>listType\<close> is \<open>Number(e.target.value)\<close>, so its model is the result of \<^const>\<open>js_Number\<close>, where
  \<^const>\<open>None\<close> is \<open>NaN\<close>.
\<close>

subsection \<open>Requests\<close>

definition lists_get :: request where
  "lists_get = mk_request GET (js ''/lists'') None"

definition lists_categories_get :: request where
  "lists_categories_get = mk_request GET (js ''/categories'') None"

definition lists_post :: "jsstr \<Rightarrow> jsstr \<Rightarrow> int option \<Rightarrow> request" where
  "lists_post name url t =
     mk_request POST (js ''/lists'')
       (Some (JObj [(js ''name'', JStr name), (js ''source_url'', JStr url), (js ''list_type'', json_num t)]))"

definition download_post :: request where
  "download_post = mk_request POST (js ''/lists/download'') None"

definition reload_post :: request where
  "reload_post = mk_request POST (js ''/lists/reload'') None"

definition lists_delete :: "int \<Rightarrow> request" where
  "lists_delete lid = mk_request DELETE (js ''/lists/'' @ num_str lid) None"

definition list_cats_get :: "int \<Rightarrow> request" where
  "list_cats_get lid = mk_request GET (js ''/lists/'' @ num_str lid @ js ''/categories'') None"

definition list_cats_put :: "int \<Rightarrow> int list \<Rightarrow> request" where
  "list_cats_put lid cats =
     mk_request PUT (js ''/lists/'' @ num_str lid @ js ''/categories'')
       (Some (JObj [(js ''categories'', JArr (map JNum cats))]))"

definition entries_post :: "int \<Rightarrow> jsstr list \<Rightarrow> request" where
  "entries_post lid domains =
     mk_request POST (js ''/lists/'' @ num_str lid @ js ''/entries'')
       (Some (JObj [(js ''domains'', JArr (map JStr domains))]))"

lemma lists_post_inject [simp]:
  "lists_post n u t = lists_post n' u' t' \<longleftrightarrow> n = n' \<and> u = u' \<and> json_num t = json_num t'"
  by (auto simp: lists_post_def)

lemma list_cats_put_inject [simp]: "list_cats_put l xs = list_cats_put l' ys \<longleftrightarrow> l = l' \<and> xs = ys"
  by (auto simp: list_cats_put_def)

lemma entries_post_inject [simp]: "entries_post l xs = entries_post l' ys \<longleftrightarrow> l = l' \<and> xs = ys"
  by (auto simp: entries_post_def)

subsection \<open>The domains of the text area\<close>

definition valid_domains :: "jsstr \<Rightarrow> jsstr list" where
  "valid_domains text =
     filter (\<lambda>d. length d > 0 \<and> js_includes (js ''.'') d)
       (map (\<lambda>d. toLowerCase (trim d)) (js_split 10 text))"

definition domain_counter :: "jsstr \<Rightarrow> nat" where
  "domain_counter text =
     length (filter (\<lambda>d. length (trim d) > 0 \<and> js_includes (js ''.'') d) (js_split 10 text))"

subsection \<open>Loading\<close>

definition fetchLists :: "lists_state \<Rightarrow> lists_state" where
  "fetchLists s = issue lists_get LKLists s"

definition lists_fetchCategories :: "lists_state \<Rightarrow> lists_state" where
  "lists_fetchCategories s = issue lists_categories_get LKCategories s"

definition lists_init :: lists_state where
  "lists_init = lists_fetchCategories (fetchLists
     \<lparr>inflight = [], timers = 0, l_lists = [], l_categories = [], l_name = [], l_sourceURL = [],
      l_listType = Some 0, l_message = [], l_reloading = False, l_downloading = False,
      l_editingCats = None, l_listCats = [], l_savingCats = False, l_addingDomains = None,
      l_domainsText = [], l_savingDomains = False\<rparr>)"

subsection \<open>Handlers\<close>

definition lists_handleCreate :: "lists_state \<Rightarrow> lists_state" where
  "lists_handleCreate s = issue (lists_post (l_name s) (l_sourceURL s) (l_listType s)) LKCreate s"

definition handleDownload :: "lists_state \<Rightarrow> lists_state" where
  "handleDownload s = issue download_post LKDownload (s\<lparr>l_downloading := True\<rparr>)"

definition handleReload :: "lists_state \<Rightarrow> lists_state" where
  "handleReload s = issue reload_post LKReload (s\<lparr>l_reloading := True\<rparr>)"

definition lists_handleDelete :: "int \<Rightarrow> bool \<Rightarrow> lists_state \<Rightarrow> lists_state" where
  "lists_handleDelete lid confirmed s =
     (if \<not> confirmed then s
      else issue (lists_delete lid) (LKDelete lid (l_editingCats s) (l_addingDomains s)) s)"

definition openCategories :: "int \<Rightarrow> lists_state \<Rightarrow> lists_state" where
  "openCategories lid s =
     (if l_editingCats s = Some lid then s\<lparr>l_editingCats := None\<rparr>
      else issue (list_cats_get lid) (LKListCats lid) (s\<lparr>l_addingDomains := None\<rparr>))"

definition toggle_list_cat :: "int \<Rightarrow> int list \<Rightarrow> int list" where
  "toggle_list_cat c prev = (if c \<in> set prev then filter (\<lambda>x. x \<noteq> c) prev else prev @ [c])"

definition toggleListCat :: "int \<Rightarrow> lists_state \<Rightarrow> lists_state" where
  "toggleListCat c s = s\<lparr>l_listCats := toggle_list_cat c (l_listCats s)\<rparr>"

definition saveCategories :: "lists_state \<Rightarrow> lists_state" where
  "saveCategories s =
     (case l_editingCats s of
        None \<Rightarrow> s
      | Some lid \<Rightarrow>
          issue (list_cats_put lid (l_listCats s)) (LKSaveCats (length (l_listCats s)))
            (s\<lparr>l_savingCats := True\<rparr>))"

definition openDomains :: "int \<Rightarrow> lists_state \<Rightarrow> lists_state" where
  "openDomains lid s =
     (if l_addingDomains s = Some lid then s\<lparr>l_addingDomains := None\<rparr>
      else s\<lparr>l_editingCats := None, l_domainsText := [], l_addingDomains := Some lid\<rparr>)"

definition saveDomains :: "lists_state \<Rightarrow> lists_state" where
  "saveDomains s =
     (case l_addingDomains s of
        None \<Rightarrow> s
      | Some lid \<Rightarrow>
          let domains = valid_domains (l_domainsText s)
          in if length domains = 0
             then s\<lparr>l_message := js ''Nenhum dom%EDnio v%E1lido encontrado''\<rparr>
             else issue (entries_post lid domains) LKSaveDomains (s\<lparr>l_savingDomains := True\<rparr>))"

datatype lists_action =
  LCreate | LDownload | LReload | LDelete int | LOpenCategories int | LToggle int | LSaveCategories
  | LOpenDomains int | LSaveDomains
datatype lists_field = LName | LSourceURL | LListType | LDomainsText

fun lists_act :: "lists_action \<Rightarrow> bool \<Rightarrow> lists_state \<Rightarrow> lists_state" where
  "lists_act LCreate ok s = lists_handleCreate s"
| "lists_act LDownload ok s = handleDownload s"
| "lists_act LReload ok s = handleReload s"
| "lists_act (LDelete lid) ok s = lists_handleDelete lid ok s"
| "lists_act (LOpenCategories lid) ok s = openCategories lid s"
| "lists_act (LToggle c) ok s = toggleListCat c s"
| "lists_act LSaveCategories ok s = saveCategories s"
| "lists_act (LOpenDomains lid) ok s = openDomains lid s"
| "lists_act LSaveDomains ok s = saveDomains s"

fun lists_edit :: "lists_field \<Rightarrow> jsstr \<Rightarrow> lists_state \<Rightarrow> lists_state" where
  "lists_edit LName v s = s\<lparr>l_name := v\<rparr>"
| "lists_edit LSourceURL v s = s\<lparr>l_sourceURL := v\<rparr>"
| "lists_edit LListType v s = s\<lparr>l_listType := js_Number v\<rparr>"
| "lists_edit LDomainsText v s = s\<lparr>l_domainsText := v\<rparr>"

subsection \<open>Continuations\<close>

text \<open>The bodies that a handler reads fields of; a body that is null or missing throws there.\<close>

record download_body =
  db_downloaded :: "(jsstr \<times> int) list"
  db_blacklist_loaded :: "int option"
  db_whitelist_loaded :: "int option"

record reload_body =
  rb_blacklist :: "int option"
  rb_whitelist :: "int option"

datatype lists_reply =
  LRLists "blocklist_info payload" | LRCategories "category payload" | LRListCats "int payload"
  | LRDownload "download_body option" | LRReload "reload_body option" | LRInserted "int option option"
  | LROk | LRError

definition download_details :: "(jsstr \<times> int) list \<Rightarrow> jsstr" where
  "download_details ds =
     js_join (js '', '')
       (map (\<lambda>(n, count). n @ js '': '' @
          (if count = -1 then js ''erro'' else num_str count @ js '' dom%EDnios'')) ds)"

definition download_message :: "download_body \<Rightarrow> jsstr" where
  "download_message d =
     js ''Download conclu%EDdo %u2014 '' @ download_details (db_downloaded d) @ js ''. Total: '' @
     show_num (db_blacklist_loaded d) @ js '' blacklist + '' @ show_num (db_whitelist_loaded d) @
     js '' whitelist''"

definition reload_message :: "reload_body \<Rightarrow> jsstr" where
  "reload_message d =
     js ''Recarregado: '' @ show_num (rb_blacklist d) @ js '' blacklist + '' @
     show_num (rb_whitelist d) @ js '' whitelist''"

definition fetchLists_resume :: "lists_reply \<Rightarrow> lists_state \<Rightarrow> lists_state option" where
  "fetchLists_resume r s =
     (case r of
        LRLists d \<Rightarrow> Some (s\<lparr>l_lists := array_or_empty d\<rparr>)
      | LRError \<Rightarrow> Some s
      | _ \<Rightarrow> None)"

definition lists_fetchCategories_resume :: "lists_reply \<Rightarrow> lists_state \<Rightarrow> lists_state option" where
  "lists_fetchCategories_resume r s =
     (case r of
        LRCategories d \<Rightarrow> Some (s\<lparr>l_categories := array_or_empty d\<rparr>)
      | LRError \<Rightarrow> Some s
      | _ \<Rightarrow> None)"

definition lists_handleCreate_resume :: "lists_reply \<Rightarrow> lists_state \<Rightarrow> lists_state option" where
  "lists_handleCreate_resume r s =
     (case r of
        LROk \<Rightarrow> Some (set_timeout (fetchLists
          (s\<lparr>l_name := [], l_sourceURL := [], l_listType := Some 0,
             l_message := js ''Lista criada com sucesso''\<rparr>)))
      | LRError \<Rightarrow> Some (s\<lparr>l_message := js ''Erro ao criar lista''\<rparr>)
      | _ \<Rightarrow> None)"

definition handleDownload_resume :: "lists_reply \<Rightarrow> lists_state \<Rightarrow> lists_state option" where
  "handleDownload_resume r s =
     (let failed = s\<lparr>l_message := js ''Erro ao baixar listas externas'', l_downloading := False\<rparr>
      in case r of
           LRDownload (Some d) \<Rightarrow>
             Some ((set_timeout (fetchLists (s\<lparr>l_message := download_message d\<rparr>)))\<lparr>l_downloading := False\<rparr>)
         | LRDownload None \<Rightarrow> Some failed
         | LRError \<Rightarrow> Some failed
         | _ \<Rightarrow> None)"

definition handleReload_resume :: "lists_reply \<Rightarrow> lists_state \<Rightarrow> lists_state option" where
  "handleReload_resume r s =
     (let failed = s\<lparr>l_message := js ''Erro ao recarregar listas'', l_reloading := False\<rparr>
      in case r of
           LRReload (Some d) \<Rightarrow>
             Some ((set_timeout (s\<lparr>l_message := reload_message d\<rparr>))\<lparr>l_reloading := False\<rparr>)
         | LRReload None \<Rightarrow> Some failed
         | LRError \<Rightarrow> Some failed
         | _ \<Rightarrow> None)"

definition lists_handleDelete_resume ::
  "int \<Rightarrow> int option \<Rightarrow> int option \<Rightarrow> lists_reply \<Rightarrow> lists_state \<Rightarrow> lists_state option" where
  "lists_handleDelete_resume lid editing adding r s =
     (case r of
        LROk \<Rightarrow>
          let s1 = fetchLists (s\<lparr>l_message := js ''Lista removida''\<rparr>);
              s2 = (if editing = Some lid then s1\<lparr>l_editingCats := None\<rparr> else s1);
              s3 = (if adding = Some lid then s2\<lparr>l_addingDomains := None\<rparr> else s2)
          in Some (set_timeout s3)
      | LRError \<Rightarrow> Some (s\<lparr>l_message := js ''Erro ao remover lista''\<rparr>)
      | _ \<Rightarrow> None)"

definition openCategories_resume :: "int \<Rightarrow> lists_reply \<Rightarrow> lists_state \<Rightarrow> lists_state option" where
  "openCategories_resume lid r s =
     (case r of
        LRListCats d \<Rightarrow> Some (s\<lparr>l_listCats := array_or_empty d, l_editingCats := Some lid\<rparr>)
      | LRError \<Rightarrow> Some (s\<lparr>l_message := js ''Erro ao carregar categorias da lista''\<rparr>)
      | _ \<Rightarrow> None)"

definition saveCategories_resume :: "nat \<Rightarrow> lists_reply \<Rightarrow> lists_state \<Rightarrow> lists_state option" where
  "saveCategories_resume n r s =
     (case r of
        LROk \<Rightarrow>
          Some ((set_timeout (s\<lparr>l_message :=
            js ''Categorias da lista atualizadas %u2014 '' @ num_str (int n) @ js '' categorias associadas''\<rparr>))
            \<lparr>l_savingCats := False\<rparr>)
      | LRError \<Rightarrow> Some (s\<lparr>l_message := js ''Erro ao salvar categorias'', l_savingCats := False\<rparr>)
      | _ \<Rightarrow> None)"

definition saveDomains_resume :: "lists_reply \<Rightarrow> lists_state \<Rightarrow> lists_state option" where
  "saveDomains_resume r s =
     (let failed = s\<lparr>l_message := js ''Erro ao adicionar dom%EDnios'', l_savingDomains := False\<rparr>
      in case r of
           LRInserted (Some n) \<Rightarrow>
             Some ((set_timeout (fetchLists
               (s\<lparr>l_message := show_num n @ js '' dom%EDnios adicionados com sucesso'',
                  l_domainsText := [], l_addingDomains := None\<rparr>)))
               \<lparr>l_savingDomains := False\<rparr>)
         | LRInserted None \<Rightarrow> Some failed
         | LRError \<Rightarrow> Some failed
         | _ \<Rightarrow> None)"

definition lists_resume :: "lists_cont \<Rightarrow> lists_reply \<Rightarrow> lists_state \<Rightarrow> lists_state option" where
  "lists_resume k r s =
     (case k of
        LKLists \<Rightarrow> fetchLists_resume r s
      | LKCategories \<Rightarrow> lists_fetchCategories_resume r s
      | LKCreate \<Rightarrow> lists_handleCreate_resume r s
      | LKDownload \<Rightarrow> handleDownload_resume r s
      | LKReload \<Rightarrow> handleReload_resume r s
      | LKDelete lid editing adding \<Rightarrow> lists_handleDelete_resume lid editing adding r s
      | LKListCats lid \<Rightarrow> openCategories_resume lid r s
      | LKSaveCats n \<Rightarrow> saveCategories_resume n r s
      | LKSaveDomains \<Rightarrow> saveDomains_resume r s)"

definition lists_tick :: "lists_state \<Rightarrow> lists_state" where
  "lists_tick s = s\<lparr>l_message := []\<rparr>"

subsection \<open>View\<close>

text \<open>\<open>typeLabels[l.list_type] || { label: '?', color: 'bg-gray-100' }\<close>\<close>

definition type_label :: "int \<Rightarrow> jsstr \<times> jsstr" where
  "type_label t =
     (if t = 0 then (js ''Blacklist'', js ''bg-red-100 text-red-700'')
      else if t = 1 then (js ''Whitelist'', js ''bg-green-100 text-green-700'')
      else (js ''?'', js ''bg-gray-100''))"

definition lists_toolbar :: "lists_state \<Rightarrow> (lists_field, lists_action) node" where
  "lists_toolbar s =
     Elem TDiv []
       [Elem TH2 [] [Text (js ''Listas de Bloqueio'')],
        Elem TDiv []
          [Elem TButton [OnClick LDownload, Disabled (l_downloading s)]
             [Text (if l_downloading s then js ''Baixando...'' else js ''Baixar Listas Externas'')],
           Elem TButton [OnClick LReload, Disabled (l_reloading s)]
             [Text (if l_reloading s then js ''Recarregando...'' else js ''Recarregar Listas'')]]]"

definition lists_form :: "lists_state \<Rightarrow> (lists_field, lists_action) node" where
  "lists_form s =
     Elem TDiv []
       [Elem TH3 [] [Text (js ''Nova Lista'')],
        Elem TForm [OnSubmit LCreate]
          [labelled (js ''Nome'') (text_input (js ''text'') (l_name s) LName True),
           labelled (js ''URL (opcional %u2014 deixe vazio para lista manual)'')
             (text_input (js ''text'') (l_sourceURL s) LSourceURL False),
           labelled (js ''Tipo'')
             (select_input (show_num (l_listType s)) LListType
                [(num_str 0, js ''Blacklist''), (num_str 1, js ''Whitelist'')]),
           submit_button (js ''Criar'') False]]"

definition lists_help :: "(lists_field, lists_action) node" where
  "lists_help =
     Elem TDiv []
       [Elem TP [] [Text (js ''Como funciona:'')],
        Elem TP [] [Text (js ''%u2022 Listas ''), Elem TStrong [] [Text (js ''sem categoria'')],
          Text (js '' associada %u2192 bloqueiam/permitem para ''),
          Elem TStrong [] [Text (js ''toda a rede'')], Text (js '' (global)'')],
        Elem TP [] [Text (js ''%u2022 Listas ''), Elem TStrong [] [Text (js ''com categoria'')],
          Text (js '' associada %u2192 bloqueiam apenas para ''),
          Elem TStrong [] [Text (js ''grupos que bloqueiam aquela categoria'')],
          Text (js '' na pol%EDtica'')],
        Elem TP [] [Text (js ''%u2022 Use o bot%E3o ''), Elem TStrong [] [Text (js ''Dom%EDnios'')],
          Text (js '' para adicionar dom%EDnios manualmente a qualquer lista'')],
        Elem TP [] [Text (js ''%u2022 Ap%F3s alterar listas ou dom%EDnios, clique ''),
          Elem TStrong [] [Text (js ''Recarregar Listas'')], Text (js '' para aplicar'')]]"

definition lists_domains_panel ::
  "lists_state \<Rightarrow> blocklist_info \<Rightarrow> (lists_field, lists_action) node" where
  "lists_domains_panel s l =
     Elem TTr []
       [Elem TTd [ColSpan 7]
          [Elem TDiv []
             [Elem TH4 [] [Text (js ''Adicionar dom%EDnios %E0 lista %22'' @ bl_name l @ js ''%22'')],
              Elem TP []
                [Text (js ''Digite um dom%EDnio por linha. Exemplos: facebook.com, instagram.com, tiktok.com'')]],
           Elem TTextArea [Value (l_domainsText s), OnChange LDomainsText] [],
           Elem TDiv []
             [Elem TButton
                [OnClick LSaveDomains, Disabled (l_savingDomains s \<or> trim (l_domainsText s) = [])]
                [Text (if l_savingDomains s then js ''Salvando...'' else js ''Adicionar Dom%EDnios'')],
              Elem TSpan []
                [Text (num_str (int (domain_counter (l_domainsText s))) @ js '' dom%EDnios v%E1lidos'')]]]]"

definition lists_category_box ::
  "lists_state \<Rightarrow> category \<Rightarrow> (lists_field, lists_action) node" where
  "lists_category_box s cat =
     (let chosen = cat_id cat \<in> set (l_listCats s)
      in Elem TLabel
           [Key (num_str (cat_id cat)),
            ClassName (if chosen then js ''bg-purple-100 border border-purple-300''
                       else js ''bg-white border border-gray-200 hover:border-gray-300'')]
           [Elem TInput [TypeAttr (js ''checkbox''), Checked chosen, OnToggle (LToggle (cat_id cat))] [],
            Elem TDiv [] [Elem TSpan [] [Text (category_label cat)]]])"

definition lists_categories_panel ::
  "lists_state \<Rightarrow> blocklist_info \<Rightarrow> (lists_field, lists_action) node" where
  "lists_categories_panel s l =
     Elem TTr []
       [Elem TTd [ColSpan 7]
          ([Elem TDiv []
              [Elem TH4 [] [Text (js ''Categorias da lista %22'' @ bl_name l @ js ''%22'')],
               Elem TP []
                 [Text (js ''Selecione a quais categorias esta lista pertence. Se associada a categorias, os dom%EDnios s%F3 ser%E3o bloqueados para grupos que bloqueiam essas categorias. Se nenhuma categoria for selecionada, a lista bloqueia para toda a rede (global).'')]],
            Elem TDiv [] (map (lists_category_box s) (l_categories s))] @
           (if l_categories s = []
            then [Elem TP [] [Text (js ''Nenhuma categoria cadastrada no banco.'')]] else []) @
           [Elem TButton [OnClick LSaveCategories, Disabled (l_savingCats s)]
              [Text (if l_savingCats s then js ''Salvando...'' else js ''Salvar Categorias'')]])]"

definition lists_row_cells ::
  "lists_state \<Rightarrow> blocklist_info \<Rightarrow> (lists_field, lists_action) node" where
  "lists_row_cells s l =
     (let adding = l_addingDomains s = Some (bl_id l);
          editing = l_editingCats s = Some (bl_id l)
      in Elem TTr []
           [Elem TTd [] [Text (num_str (bl_id l))],
            Elem TTd [] [Text (bl_name l)],
            Elem TTd []
              [Elem TSpan [ClassName (js ''px-2 py-1 rounded text-xs font-medium '' @ snd (type_label (bl_list_type l)))]
                 [Text (fst (type_label (bl_list_type l)))]],
            Elem TTd [] [NumberText (bl_domain_count l)],
            Elem TTd []
              [Elem TSpan [ClassName (js ''px-2 py-1 rounded text-xs font-medium '' @
                  (if bl_active l then js ''bg-green-100 text-green-700'' else js ''bg-gray-100 text-gray-500''))]
                 [Text (if bl_active l then js ''Ativa'' else js ''Inativa'')]],
            Elem TTd [] [Text (if bl_source_url l \<noteq> [] then bl_source_url l else js ''Manual'')],
            Elem TTd []
              [Elem TButton
                 [OnClick (LOpenDomains (bl_id l)),
                  ClassName (if adding then js ''bg-green-100 text-green-700''
                             else js ''bg-gray-100 text-gray-600 hover:bg-gray-200'')]
                 [Text (if adding then js ''Fechar'' else js ''Dom%EDnios'')],
               Elem TButton
                 [OnClick (LOpenCategories (bl_id l)),
                  ClassName (if editing then js ''bg-purple-100 text-purple-700''
                             else js ''bg-gray-100 text-gray-600 hover:bg-gray-200'')]
                 [Text (if editing then js ''Fechar'' else js ''Categorias'')],
               Elem TButton [OnClick (LDelete (bl_id l))] [Text (js ''Remover'')]]])"

definition lists_row :: "lists_state \<Rightarrow> blocklist_info \<Rightarrow> (lists_field, lists_action) node" where
  "lists_row s l =
     Elem TFragment [Key (num_str (bl_id l))]
       (lists_row_cells s l #
        (if l_addingDomains s = Some (bl_id l) then [lists_domains_panel s l] else []) @
        (if l_editingCats s = Some (bl_id l) then [lists_categories_panel s l] else []))"

definition lists_table :: "lists_state \<Rightarrow> (lists_field, lists_action) node" where
  "lists_table s =
     Elem TDiv []
       [Elem TTable []
          [Elem TThead []
             [Elem TTr []
                (map (\<lambda>h. Elem TTh [] [Text h])
                   [js ''ID'', js ''Nome'', js ''Tipo'', js ''Dom%EDnios'', js ''Status'', js ''Fonte'',
                    js ''A%E7%F5es''])],
           Elem TTbody [] (map (lists_row s) (l_lists s))]]"

definition lists_view :: "lists_state \<Rightarrow> (lists_field, lists_action) node option" where
  "lists_view s =
     Some (Elem TDiv []
       ([lists_toolbar s] @ message_banner (l_message s) @ [lists_form s, lists_help, lists_table s]))"

definition lists_step ::
  "(lists_action, lists_field, lists_reply) page_event \<Rightarrow> lists_state \<Rightarrow> lists_state option" where
  "lists_step = page_step lists_view lists_act lists_edit lists_resume lists_tick"

subsection \<open>What the domain pipeline yields\<close>

text \<open>A domain as the server stores it: trimmed, lower case, on one line, with a dot.\<close>

definition valid_domain :: "jsstr \<Rightarrow> bool" where
  "valid_domain d \<longleftrightarrow> d \<noteq> [] \<and> 0x2E \<in> set d \<and> trim d = d \<and> toLowerCase d = d \<and> 10 \<notin> set d"

lemma js_dot: "js ''.'' = [0x2E]"
  by (simp add: js.simps)

lemma newline_toLowerCase: "10 \<in> set (toLowerCase s) \<longleftrightarrow> 10 \<in> set s"
  by (simp add: in_toLowerCase_below)

lemma valid_domains_valid: "d \<in> set (valid_domains text) \<Longrightarrow> valid_domain d"
proof -
  assume "d \<in> set (valid_domains text)"
  then obtain l where l: "l \<in> set (js_split 10 text)" "d = toLowerCase (trim l)" "d \<noteq> []" "0x2E \<in> set d"
    by (auto simp: valid_domains_def js_dot)
  from l(1) have "10 \<notin> set l" by (rule js_split_no_sep)
  then have "10 \<notin> set (trim l)" using set_trim [of is_space l] by blast
  with l show ?thesis by (simp add: valid_domain_def newline_toLowerCase trim_toLowerCase)
qed

lemma domain_counter_length: "domain_counter text = length (valid_domains text)"
  by (simp add: domain_counter_def valid_domains_def js_dot filter_map o_def)

lemma valid_domains_fixed:
  assumes "\<forall>d \<in> set ds. valid_domain d"
  shows "valid_domains (js_join [10] ds) = ds"
proof (cases "ds = []")
  case True
  then show ?thesis by (simp add: valid_domains_def trim_by_def toLowerCase_def)
next
  case False
  with assms have "js_split 10 (js_join [10] ds) = ds"
    by (intro js_split_join) (auto simp: valid_domain_def)
  moreover from assms have "map (\<lambda>d. toLowerCase (trim d)) ds = ds"
    by (auto simp: valid_domain_def intro!: map_idI)
  moreover from assms have "filter (\<lambda>d. length d > 0 \<and> js_includes (js ''.'') d) ds = ds"
    by (auto simp: valid_domain_def js_dot filter_id_conv)
  ultimately show ?thesis by (simp add: valid_domains_def)
qed

subsection \<open>What the view offers\<close>

lemma lists_toolbar_view [view_simps]:
  "clicks (lists_toolbar s) =
     (if l_downloading s then [] else [LDownload]) @ (if l_reloading s then [] else [LReload])"
  "submits (lists_toolbar s) = []" "input_fields (lists_toolbar s) = []"
  by (simp_all add: lists_toolbar_def attr_defs)

lemma lists_form_view [view_simps]:
  "clicks (lists_form s) = []"
  "submits (lists_form s) = (if l_name s \<noteq> [] then [LCreate] else [])"
  "input_fields (lists_form s) =
     [(LName, None), (LSourceURL, None), (LListType, Some [num_str 0, num_str 1])]"
  by (simp_all add: lists_form_def view_simps attr_defs form_ready_def)

lemma lists_help_view [view_simps]:
  "clicks lists_help = []" "submits lists_help = []" "input_fields lists_help = []"
  by (simp_all add: lists_help_def attr_defs)

lemma lists_domains_panel_view [view_simps]:
  "clicks (lists_domains_panel s l) =
     (if l_savingDomains s \<or> trim (l_domainsText s) = [] then [] else [LSaveDomains])"
  "submits (lists_domains_panel s l) = []"
  "input_fields (lists_domains_panel s l) = [(LDomainsText, None)]"
  by (simp_all add: lists_domains_panel_def attr_defs)

lemma lists_category_box_view [view_simps]:
  "clicks (lists_category_box s cat) = [LToggle (cat_id cat)]"
  "submits (lists_category_box s cat) = []" "input_fields (lists_category_box s cat) = []"
  by (simp_all add: lists_category_box_def Let_def attr_defs)

lemma lists_categories_panel_view [view_simps]:
  "clicks (lists_categories_panel s l) =
     map (\<lambda>cat. LToggle (cat_id cat)) (l_categories s) @
     (if l_savingCats s then [] else [LSaveCategories])"
  "submits (lists_categories_panel s l) = []" "input_fields (lists_categories_panel s l) = []"
  by (simp_all add: lists_categories_panel_def view_simps attr_defs o_def set_concat_map_empty)

lemma lists_row_cells_view [view_simps]:
  "clicks (lists_row_cells s l) = [LOpenDomains (bl_id l), LOpenCategories (bl_id l), LDelete (bl_id l)]"
  "submits (lists_row_cells s l) = []" "input_fields (lists_row_cells s l) = []"
  by (simp_all add: lists_row_cells_def Let_def attr_defs)

lemma lists_row_view [view_simps]:
  "clicks (lists_row s l) =
     [LOpenDomains (bl_id l), LOpenCategories (bl_id l), LDelete (bl_id l)] @
     (if l_addingDomains s = Some (bl_id l) then clicks (lists_domains_panel s l) else []) @
     (if l_editingCats s = Some (bl_id l) then clicks (lists_categories_panel s l) else [])"
  "submits (lists_row s l) = []"
  "input_fields (lists_row s l) =
     (if l_addingDomains s = Some (bl_id l) then [(LDomainsText, None)] else [])"
  by (simp_all add: lists_row_def view_simps attr_defs)

lemma lists_table_view [view_simps]:
  "clicks (lists_table s) = concat (map (\<lambda>l. clicks (lists_row s l)) (l_lists s))"
  "submits (lists_table s) = []"
  "input_fields (lists_table s) = concat (map (\<lambda>l. input_fields (lists_row s l)) (l_lists s))"
  by (simp_all add: lists_table_def view_simps attr_defs o_def set_concat_map_empty)

lemma lists_view_offers [view_simps]:
  "view_clicks (lists_view s) =
     clicks (lists_toolbar s) @ concat (map (\<lambda>l. clicks (lists_row s l)) (l_lists s))"
  "view_submits (lists_view s) = (if l_name s \<noteq> [] then [LCreate] else [])"
  "view_can_type (lists_view s) LListType v \<longleftrightarrow> v \<in> {num_str 0, num_str 1}"
proof -
  have no_type: "(LListType, vs) \<notin> set (concat (map (\<lambda>l. input_fields (lists_row s l)) (l_lists s)))" for vs
    by (auto simp: view_simps split: if_splits)
  show "view_clicks (lists_view s) =
     clicks (lists_toolbar s) @ concat (map (\<lambda>l. clicks (lists_row s l)) (l_lists s))"
    and "view_submits (lists_view s) = (if l_name s \<noteq> [] then [LCreate] else [])"
    by (simp_all add: lists_view_def view_simps attr_defs)
  show "view_can_type (lists_view s) LListType v \<longleftrightarrow> v \<in> {num_str 0, num_str 1}"
    using no_type by (auto simp: lists_view_def view_simps attr_defs can_type_iff)
qed

lemmas lists_offers = lists_toolbar_view lists_row_view lists_domains_panel_view
  lists_categories_panel_view lists_view_offers

lemma lists_offers_guards:
  assumes "a \<in> set (view_clicks (lists_view s)) \<union> set (view_submits (lists_view s))"
  shows "a = LCreate \<Longrightarrow> l_name s \<noteq> []" and "a = LDownload \<Longrightarrow> \<not> l_downloading s"
    and "a = LReload \<Longrightarrow> \<not> l_reloading s"
    and "a = LSaveCategories \<Longrightarrow>
         \<not> l_savingCats s \<and> (\<exists>l \<in> set (l_lists s). l_editingCats s = Some (bl_id l))"
    and "a = LSaveDomains \<Longrightarrow>
         \<not> l_savingDomains s \<and> (\<exists>l \<in> set (l_lists s). l_addingDomains s = Some (bl_id l))"
  using assms by (auto simp: lists_offers split: if_splits)

subsection \<open>Invariant\<close>

text \<open>
  Which request each continuation waits for: a list is only created with a name and one of the two
  types the form offers, and the domains of a save are non-empty and valid.
\<close>

fun lists_call :: "lists_cont \<Rightarrow> request \<Rightarrow> bool" where
  "lists_call LKLists q = (q = lists_get)"
| "lists_call LKCategories q = (q = lists_categories_get)"
| "lists_call LKCreate q =
     (\<exists>name url t. q = lists_post name url (Some t) \<and> name \<noteq> [] \<and> t \<in> {0, 1})"
| "lists_call LKDownload q = (q = download_post)"
| "lists_call LKReload q = (q = reload_post)"
| "lists_call (LKDelete lid editing adding) q = (q = lists_delete lid)"
| "lists_call (LKListCats lid) q = (q = list_cats_get lid)"
| "lists_call (LKSaveCats n) q = (\<exists>lid cats. q = list_cats_put lid cats \<and> length cats = n)"
| "lists_call LKSaveDomains q =
     (\<exists>lid ds. q = entries_post lid ds \<and> ds \<noteq> [] \<and> (\<forall>d \<in> set ds. valid_domain d))"

abbreviation is_LKDownload :: "lists_cont \<Rightarrow> bool" where
  "is_LKDownload \<equiv> (\<lambda>k. k = LKDownload)"

abbreviation is_LKReload :: "lists_cont \<Rightarrow> bool" where
  "is_LKReload \<equiv> (\<lambda>k. k = LKReload)"

abbreviation is_LKSaveDomains :: "lists_cont \<Rightarrow> bool" where
  "is_LKSaveDomains \<equiv> (\<lambda>k. k = LKSaveDomains)"

definition lists_inv :: "lists_state \<Rightarrow> bool" where
  "lists_inv s \<longleftrightarrow>
     busy_ok is_LKDownload (l_downloading s) (inflight s) \<and>
     busy_ok is_LKReload (l_reloading s) (inflight s) \<and>
     busy_ok is_LKSaveCats (l_savingCats s) (inflight s) \<and>
     busy_ok is_LKSaveDomains (l_savingDomains s) (inflight s) \<and>
     l_listType s \<in> {Some 0, Some 1} \<and>
     (\<forall>(q, k) \<in> set (inflight s). lists_call k q)"

lemmas lists_handler_defs = fetchLists_def lists_fetchCategories_def lists_handleCreate_def
  handleDownload_def handleReload_def lists_handleDelete_def openCategories_def toggleListCat_def
  saveCategories_def openDomains_def saveDomains_def lists_tick_def

lemmas lists_resume_defs = fetchLists_resume_def lists_fetchCategories_resume_def
  lists_handleCreate_resume_def handleDownload_resume_def handleReload_resume_def
  lists_handleDelete_resume_def openCategories_resume_def saveCategories_resume_def
  saveDomains_resume_def

lemmas lists_inv_unfold = lists_inv_def lists_handler_defs issue_def set_timeout_def

lemma lists_inv_act:
  assumes "lists_inv s" and "a \<in> set (view_clicks (lists_view s)) \<union> set (view_submits (lists_view s))"
  shows "lists_inv (lists_act a ok s)"
  using assms(1) lists_offers_guards [OF assms(2)] valid_domains_valid
  by (cases a) (auto simp: lists_inv_unfold Let_def split: option.split)

lemma lists_inv_edit: "lists_inv s \<Longrightarrow> view_can_type (lists_view s) f v \<Longrightarrow> lists_inv (lists_edit f v s)"
  by (cases f) (auto simp: lists_inv_def view_simps)

text \<open>
  What a continuation does to the requests and the flags: it may reload the lists, and it releases
  the flag of its own request and no other.
\<close>

definition lists_frame :: "lists_cont \<Rightarrow> lists_state \<Rightarrow> lists_state \<Rightarrow> bool" where
  "lists_frame k u t \<longleftrightarrow>
     (inflight t = inflight u \<or> inflight t = inflight u @ [(lists_get, LKLists)]) \<and>
     l_downloading t = (l_downloading u \<and> k \<noteq> LKDownload) \<and>
     l_reloading t = (l_reloading u \<and> k \<noteq> LKReload) \<and>
     l_savingCats t = (l_savingCats u \<and> \<not> is_LKSaveCats k) \<and>
     l_savingDomains t = (l_savingDomains u \<and> k \<noteq> LKSaveDomains) \<and>
     l_listType t \<in> {l_listType u, Some 0}"

lemma lists_resume_frame: "lists_resume k r u = Some t \<Longrightarrow> lists_frame k u t"
  by (cases k; cases r; simp add: lists_resume_def lists_resume_defs)
     (auto simp: lists_frame_def Let_def lists_handler_defs issue_def set_timeout_def
       split: option.split_asm if_splits)

lemma lists_inv_resume:
  assumes inv: "lists_inv s" and i: "i < length (inflight s)" "inflight s ! i = (q, k)"
    and res: "lists_resume k r (take_reply i s) = Some t"
  shows "lists_inv t"
proof -
  let ?u = "take_reply i s"
  have same: "l_downloading ?u = l_downloading s" "l_reloading ?u = l_reloading s"
    "l_savingCats ?u = l_savingCats s" "l_savingDomains ?u = l_savingDomains s"
    "l_listType ?u = l_listType s"
    by (simp_all add: take_reply_def)
  note frame = lists_resume_frame [OF res, unfolded lists_frame_def same]
  then have calls: "inflight t = inflight ?u \<or> inflight t = inflight ?u @ [(lists_get, LKLists)]" by blast
  then have other: "busy_ok P b (inflight t) = busy_ok P b (inflight ?u)" if "\<not> P LKLists" for P b
    using that by (elim disjE) simp_all
  have "\<forall>(q, k) \<in> set (inflight ?u). lists_call k q"
    using inv by (auto simp: lists_inv_def page_simps)
  with calls have "\<forall>(q, k) \<in> set (inflight t). lists_call k q" by (elim disjE) simp_all
  moreover have "busy_ok is_LKDownload (l_downloading t) (inflight t)" "busy_ok is_LKReload (l_reloading t) (inflight t)"
    "busy_ok is_LKSaveCats (l_savingCats t) (inflight t)" "busy_ok is_LKSaveDomains (l_savingDomains t) (inflight t)"
    using frame inv busy_ok_reply [where P = is_LKDownload, OF _ i]
      busy_ok_reply [where P = is_LKReload, OF _ i] busy_ok_reply [where P = is_LKSaveCats, OF _ i]
      busy_ok_reply [where P = is_LKSaveDomains, OF _ i]
    by (simp_all add: lists_inv_def other)
  moreover have "l_listType t \<in> {Some 0, Some 1}" using frame inv unfolding lists_inv_def by auto
  ultimately show ?thesis unfolding lists_inv_def by blast
qed

lemma lists_inv_tick: "lists_inv s \<Longrightarrow> lists_inv (lists_tick (fire_timer s))"
  by (simp add: lists_inv_unfold fire_timer_def)

lemma lists_inv_init: "lists_inv lists_init"
  by (simp add: lists_inv_unfold lists_init_def)

lemma lists_inv_busy:
  assumes "lists_inv s"
  shows "pending is_LKDownload s = (if l_downloading s then 1 else 0)"
    and "pending is_LKReload s = (if l_reloading s then 1 else 0)"
    and "pending is_LKSaveCats s = (if l_savingCats s then 1 else 0)"
    and "pending is_LKSaveDomains s = (if l_savingDomains s then 1 else 0)"
  using assms by (simp_all add: lists_inv_def busy_ok_pending)

lemmas lists_inv_rules = lists_inv_resume lists_inv_act lists_inv_edit lists_inv_tick lists_inv_init

interpretation lists_download: exclusive_page lists_view lists_act lists_edit lists_resume lists_tick
  lists_init lists_inv l_downloading is_LKDownload
  by unfold_locales (erule lists_inv_rules lists_inv_busy | rule lists_inv_init | assumption)+

interpretation lists_reload: exclusive_page lists_view lists_act lists_edit lists_resume lists_tick
  lists_init lists_inv l_reloading is_LKReload
  by unfold_locales (erule lists_inv_busy)

interpretation lists_save_cats: exclusive_page lists_view lists_act lists_edit lists_resume lists_tick
  lists_init lists_inv l_savingCats is_LKSaveCats
  by unfold_locales (erule lists_inv_busy)

interpretation lists_save_domains: exclusive_page lists_view lists_act lists_edit lists_resume
  lists_tick lists_init lists_inv l_savingDomains is_LKSaveDomains
  by unfold_locales (erule lists_inv_busy)

interpretation lists_select: multi_select toggle_list_cat
  by unfold_locales (auto simp: toggle_list_cat_def)

subsection \<open>Properties\<close>

text \<open>Downloads, reloads, category saves and domain saves each exclude themselves: at most one request of
  each kind is in flight, exactly while its button is disabled, in every interleaving of the four.\<close>

theorem lists_exclusive:
  assumes "reachable lists_step lists_init s"
  shows "pending is_LKDownload s = (if l_downloading s then 1 else 0) \<and>
    pending is_LKReload s = (if l_reloading s then 1 else 0) \<and>
    pending is_LKSaveCats s = (if l_savingCats s then 1 else 0) \<and>
    pending is_LKSaveDomains s = (if l_savingDomains s then 1 else 0)"
  using assms lists_download.busy_pending lists_reload.busy_pending lists_save_cats.busy_pending
    lists_save_domains.busy_pending lists_download.reachable_inv
  unfolding lists_step_def by blast

definition demo_list :: blocklist_info where
  "demo_list =
     \<lparr>bl_id = 1, bl_name = js ''Local'', bl_source_url = [], bl_list_type = 0, bl_active = True,
      bl_domain_count = 0\<rparr>"

lemmas lists_eval = lists_step_def page_step_def lists_init_def lists_handler_defs lists_resume_def
  lists_resume_defs issue_def set_timeout_def take_reply_def remove_nth_def view_simps

lemma lists_demo_run:
  "\<exists>s. run lists_step [Click LDownload True, Click LReload True] lists_init = Some s \<and>
     l_downloading s \<and> l_reloading s"
  by (simp add: lists_eval)

theorem lists_exclusive_witness:
  "\<exists>s. run lists_step [Click LDownload True, Click LReload True] lists_init = Some s \<and>
     pending is_LKDownload s = 1 \<and> pending is_LKReload s = 1"
proof -
  obtain s where s: "run lists_step [Click LDownload True, Click LReload True] lists_init = Some s"
    "l_downloading s" "l_reloading s" using lists_demo_run by blast
  from lists_exclusive [OF run_reachable [OF s(1)]] s show ?thesis by auto
qed

lemma save_domains_click:
  assumes "lists_step (Click LSaveDomains ok) s = Some t"
  shows "t = saveDomains s \<and> l_addingDomains s \<noteq> None"
proof -
  have "LSaveDomains \<in> set (view_clicks (lists_view s))" and t: "t = saveDomains s"
    using assms by (auto simp: lists_step_def page_step_def split: if_splits)
  with lists_offers_guards(5) [of LSaveDomains s] show ?thesis by auto
qed

text \<open>Saving domains: the counter beside the button is the number of domains that are sent; with none the
  page says so and sends nothing, and otherwise all of them go to the open list, each one trimmed,
  in lower case, on one line and with a dot.\<close>

theorem save_domains:
  assumes "lists_step (Click LSaveDomains ok) s = Some t"
  shows "\<exists>lid. l_addingDomains s = Some lid \<and>
    (if domain_counter (l_domainsText s) = 0
     then t = s\<lparr>l_message := js ''Nenhum dom%EDnio v%E1lido encontrado''\<rparr>
     else \<exists>ds. inflight t = inflight s @ [(entries_post lid ds, LKSaveDomains)] \<and>
            length ds = domain_counter (l_domainsText s) \<and> (\<forall>d \<in> set ds. valid_domain d) \<and>
            l_savingDomains t)"
proof -
  have "LSaveDomains \<in> set (view_clicks (lists_view s))" and t: "t = saveDomains s"
    using assms by (auto simp: lists_step_def page_step_def split: if_splits)
  then obtain lid where "l_addingDomains s = Some lid"
    using lists_offers_guards(5) [of LSaveDomains s] by auto
  then show ?thesis
    using valid_domains_valid
    by (auto simp: t saveDomains_def Let_def domain_counter_length issue_def)
qed

definition lists_domains_demo :: "jsstr \<Rightarrow> (lists_action, lists_field, lists_reply) page_event list" where
  "lists_domains_demo text =
     [Reply 0 (LRLists (Arr [demo_list])), Click (LOpenDomains 1) True, Edit LDomainsText text]"

lemmas lists_view_eval = lists_view_def lists_form_def lists_table_def lists_row_def attr_defs can_type_iff

lemma lists_domains_demo_run:
  "\<exists>s t. run lists_step (lists_domains_demo (js '' A.com%0Ab'')) lists_init = Some s \<and>
     lists_step (Click LSaveDomains True) s = Some t \<and> l_domainsText s = js '' A.com%0Ab'' \<and>
     l_addingDomains s = Some 1"
  by (simp add: lists_domains_demo_def lists_eval lists_view_eval demo_list_def js.simps trim_by_def
        is_space_def hex_digit_def)

theorem save_domains_witness:
  "\<exists>s t. run lists_step (lists_domains_demo (js '' A.com%0Ab'')) lists_init = Some s \<and>
     lists_step (Click LSaveDomains True) s = Some t \<and> (\<exists>lid. l_addingDomains s = Some lid)"
proof -
  obtain s t where s: "run lists_step (lists_domains_demo (js '' A.com%0Ab'')) lists_init = Some s"
    "lists_step (Click LSaveDomains True) s = Some t" using lists_domains_demo_run by blast
  from save_domains [OF s(2)] s show ?thesis by blast
qed

text \<open>The clean-up of the text area is idempotent and complete: writing the accepted domains one per line
  and reading them again gives the same domains, and a text of valid domains is read as it is.\<close>

theorem valid_domains_roundtrip:
  "valid_domains (js_join [10] (valid_domains input)) = valid_domains input \<and>
   ((\<forall>d \<in> set ds. valid_domain d) \<longrightarrow> valid_domains (js_join [10] ds) = ds) \<and>
   (d \<in> set (valid_domains input) \<longleftrightarrow>
      (\<exists>l \<in> set (js_split 10 input). d = toLowerCase (trim l) \<and> d \<noteq> [] \<and> 0x2E \<in> set d))"
proof (intro conjI impI)
  show "valid_domains (js_join [10] (valid_domains input)) = valid_domains input"
    by (rule valid_domains_fixed) (simp add: valid_domains_valid)
  show "valid_domains (js_join [10] ds) = ds" if "\<forall>d \<in> set ds. valid_domain d"
    using that by (rule valid_domains_fixed)
qed (auto simp: valid_domains_def js_dot)

theorem valid_domains_roundtrip_witness:
  "valid_domains (js_join [10] [js ''a.com'', js ''b.org'']) = [js ''a.com'', js ''b.org'']"
  using valid_domains_roundtrip [where ds = "[js ''a.com'', js ''b.org'']"]
  by (simp add: valid_domain_def toLowerCase_def lower_unit_def trim_by_def is_space_def js.simps)

text \<open>Category boxes: after any clicks a category is selected exactly if its selection changed an odd
  number of times, and no category is ever selected twice.\<close>

lemma toggle_parity:
  "(c \<in> set (fold toggle_list_cat cs xs) \<longleftrightarrow> (c \<in> set xs) \<noteq> odd (count_list cs c)) \<and>
   (distinct xs \<longrightarrow> distinct (fold toggle_list_cat cs xs))"
  using lists_select.fold_toggle_parity lists_select.distinct_fold_toggle by blast

text \<open>The two editors of a list exclude each other only for a single click at a time: opening the domain
  editor while the categories are still loading leaves both open once the reply arrives.\<close>

theorem both_editors_open:
  "\<exists>s. run lists_step
       [Reply 0 (LRLists (Arr [demo_list])), Click (LOpenCategories 1) True,
        Click (LOpenDomains 1) True, Reply 1 (LRListCats (Arr []))] lists_init = Some s \<and>
     l_editingCats s = Some 1 \<and> l_addingDomains s = Some 1 \<and>
     LSaveCategories \<in> set (view_clicks (lists_view s)) \<and>
     view_can_type (lists_view s) LDomainsText v"
  by (simp add: lists_eval lists_view_eval demo_list_def)

text \<open>Errors on the lists page are shown and lose nothing: the banner is red, the fields, the lists and both
  editors are as before, and the flag of the failed request is released.\<close>

theorem lists_error_reply:
  assumes "lists_resume k LRError s = Some t"
  shows "l_name t = l_name s \<and> l_sourceURL t = l_sourceURL s \<and> l_lists t = l_lists s \<and>
    l_domainsText t = l_domainsText s \<and> l_listCats t = l_listCats s \<and>
    l_editingCats t = l_editingCats s \<and> l_addingDomains t = l_addingDomains s \<and>
    lists_frame k s t \<and>
    (if k \<in> {LKLists, LKCategories} then t = s
     else message_banner (l_message t) =
       [Elem TDiv [ClassName (js ''px-4 py-2 rounded-lg text-sm mb-4 '' @ error_class)] [Text (l_message t)]])"
  using assms lists_resume_frame [OF assms]
  by (cases k) (auto simp: lists_resume_def lists_resume_defs Let_def intro!: error_banner js_Erro)

theorem lists_error_reply_witness:
  "\<exists>t. lists_resume LKSaveDomains LRError lists_init = Some t \<and> l_domainsText t = l_domainsText lists_init"
proof -
  obtain t where t: "lists_resume LKSaveDomains LRError lists_init = Some t"
    by (simp add: lists_resume_def saveDomains_resume_def Let_def)
  with lists_error_reply [OF t] show ?thesis by blast
qed

end
