(* ===== verification/UsersPage.thy ===== *)
theory UsersPage
  imports Shared
begin

text \<open>
  The page of dashboard users, \<open>web/src/pages/Users.tsx\<close>. Unlike the pages for groups and lists it
  stores \<open>res.data || []\<close> without checking that the reply is an array, so the state keeps the
  shape of the reply (\<open>payload\<close>), and the render throws on \<open>users.map\<close> when it is not an array:
  the view is then \<^const>\<open>None\<close>.
\<close>

record user =
  user_id :: int
  user_username :: jsstr
  user_role :: int
  user_active :: bool

datatype users_cont = UKUsers | UKCreate

record users_state = "users_cont async" +
  u_users :: "user payload"
  u_username :: jsstr
  u_password :: jsstr
  u_role :: "int option"
  u_message :: jsstr

definition users_get :: request where
  "users_get = mk_request GET (js ''/users'') None"

definition users_post :: "jsstr \<Rightarrow> jsstr \<Rightarrow> int option \<Rightarrow> request" where
  "users_post username password role =
     mk_request POST (js ''/users'')
       (Some (JObj [(js ''username'', JStr username), (js ''password'', JStr password),
                    (js ''role'', json_num role)]))"

lemma users_post_inject [simp]:
  "users_post u p r = users_post u' p' r' \<longleftrightarrow> u = u' \<and> p = p' \<and> json_num r = json_num r'"
  by (auto simp: users_post_def)

subsection \<open>Handlers\<close>

definition fetchUsers :: "users_state \<Rightarrow> users_state" where
  "fetchUsers s = issue users_get UKUsers s"

definition users_init :: users_state where
  "users_init = fetchUsers
     \<lparr>inflight = [], timers = 0, u_users = Arr [], u_username = [], u_password = [],
      u_role = Some 1, u_message = []\<rparr>"

definition users_handleCreate :: "users_state \<Rightarrow> users_state" where
  "users_handleCreate s = issue (users_post (u_username s) (u_password s) (u_role s)) UKCreate s"

datatype users_action = UCreate
datatype users_field = UUsername | UPassword | URole

fun users_act :: "users_action \<Rightarrow> bool \<Rightarrow> users_state \<Rightarrow> users_state" where
  "users_act UCreate ok s = users_handleCreate s"

fun users_edit :: "users_field \<Rightarrow> jsstr \<Rightarrow> users_state \<Rightarrow> users_state" where
  "users_edit UUsername v s = s\<lparr>u_username := v\<rparr>"
| "users_edit UPassword v s = s\<lparr>u_password := v\<rparr>"
| "users_edit URole v s = s\<lparr>u_role := js_Number v\<rparr>"

datatype users_reply = URUsers "user payload" | UROk | URError

fun users_resume :: "users_cont \<Rightarrow> users_reply \<Rightarrow> users_state \<Rightarrow> users_state option" where
  "users_resume UKUsers (URUsers d) s = Some (s\<lparr>u_users := or_empty d\<rparr>)"
| "users_resume UKUsers URError s = Some s"
| "users_resume UKCreate UROk s =
     Some (set_timeout (fetchUsers
       (s\<lparr>u_username := [], u_password := [], u_role := Some 1,
          u_message := js ''Usu%E1rio criado com sucesso''\<rparr>)))"
| "users_resume UKCreate URError s = Some (s\<lparr>u_message := js ''Erro ao criar usu%E1rio''\<rparr>)"
| "users_resume _ _ s = None"

definition users_tick :: "users_state \<Rightarrow> users_state" where
  "users_tick s = s\<lparr>u_message := []\<rparr>"

subsection \<open>View\<close>

text \<open>\<open>roleLabels[u.role] || 'Desconhecido'\<close>\<close>

definition role_label :: "int \<Rightarrow> jsstr" where
  "role_label r =
     (if r = 0 then js ''Administrador'' else if r = 1 then js ''Visualizador'' else js ''Desconhecido'')"

definition users_form :: "users_state \<Rightarrow> (users_field, users_action) node" where
  "users_form s =
     Elem TDiv []
       ([Elem TH3 [] [Text (js ''Novo Usu%E1rio'')]] @ message_banner (u_message s) @
        [Elem TForm [OnSubmit UCreate]
           [labelled (js ''Usu%E1rio'') (text_input (js ''text'') (u_username s) UUsername True),
            labelled (js ''Senha'') (text_input (js ''password'') (u_password s) UPassword True),
            labelled (js ''Perfil'')
              (select_input (show_num (u_role s)) URole
                 [(num_str 0, js ''Administrador''), (num_str 1, js ''Visualizador'')]),
            submit_button (js ''Criar'') False]])"

definition users_row :: "user \<Rightarrow> (users_field, users_action) node" where
  "users_row u =
     Elem TTr [Key (num_str (user_id u))]
       [Elem TTd [] [Text (num_str (user_id u))],
        Elem TTd [] [Text (user_username u)],
        Elem TTd []
          [Elem TSpan [ClassName (js ''px-2 py-1 rounded-full text-xs font-medium '' @
              (if user_role u = 0 then js ''bg-purple-100 text-purple-700'' else js ''bg-gray-100 text-gray-600''))]
             [Text (role_label (user_role u))]],
        Elem TTd []
          [Elem TSpan [ClassName (js ''px-2 py-1 rounded-full text-xs font-medium '' @
              (if user_active u then js ''bg-green-100 text-green-700'' else js ''bg-red-100 text-red-700''))]
             [Text (if user_active u then js ''Ativo'' else js ''Inativo'')]]]"

definition users_table :: "user list \<Rightarrow> (users_field, users_action) node" where
  "users_table us =
     Elem TDiv []
       [Elem TTable []
          [Elem TThead []
             [Elem TTr []
                (map (\<lambda>h. Elem TTh [] [Text h]) [js ''ID'', js ''Usu%E1rio'', js ''Perfil'', js ''Status''])],
           Elem TTbody [] (map users_row us)]]"

definition users_view :: "users_state \<Rightarrow> (users_field, users_action) node option" where
  "users_view s =
     (case u_users s of
        Arr us \<Rightarrow>
          Some (Elem TDiv []
            [Elem TH2 [] [Text (js ''Usu%E1rios do Dashboard'')], users_form s, users_table us])
      | _ \<Rightarrow> None)"

definition users_step ::
  "(users_action, users_field, users_reply) page_event \<Rightarrow> users_state \<Rightarrow> users_state option" where
  "users_step = page_step users_view users_act users_edit users_resume users_tick"

subsection \<open>What the view offers\<close>

lemma users_form_view [view_simps]:
  "clicks (users_form s) = []"
  "submits (users_form s) = (if u_username s \<noteq> [] \<and> u_password s \<noteq> [] then [UCreate] else [])"
  "input_fields (users_form s) =
     [(UUsername, None), (UPassword, None), (URole, Some [num_str 0, num_str 1])]"
  by (simp_all add: users_form_def view_simps attr_defs form_ready_def)

lemma users_row_view [view_simps]:
  "clicks (users_row u) = []" "submits (users_row u) = []" "input_fields (users_row u) = []"
  by (simp_all add: users_row_def attr_defs)

lemma users_table_view [view_simps]:
  "clicks (users_table us) = []" "submits (users_table us) = []" "input_fields (users_table us) = []"
  by (simp_all add: users_table_def view_simps attr_defs o_def set_concat_map_empty)

lemma users_view_offers [view_simps]:
  "view_clicks (users_view s) = []"
  "a \<in> set (view_submits (users_view s)) \<Longrightarrow> u_username s \<noteq> [] \<and> u_password s \<noteq> []"
  "view_can_type (users_view s) URole v \<Longrightarrow> v \<in> {num_str 0, num_str 1}"
  by (auto simp: users_view_def view_simps attr_defs can_type_iff split: payload.splits if_splits)

subsection \<open>Invariant\<close>

text \<open>
  A new user is posted with a name, a password and one of the two roles. The render throws exactly
  after a reply to the list request that is neither an array nor falsy.
\<close>

fun users_call :: "users_cont \<Rightarrow> request \<Rightarrow> bool" where
  "users_call UKUsers q = (q = users_get)"
| "users_call UKCreate q =
     (\<exists>u p r. q = users_post u p (Some r) \<and> u \<noteq> [] \<and> p \<noteq> [] \<and> r \<in> {0, 1})"

definition users_inv :: "users_state \<Rightarrow> bool" where
  "users_inv s \<longleftrightarrow>
     u_role s \<in> {Some 0, Some 1} \<and> (\<exists>us. u_users s \<in> {Arr us, NonArray}) \<and>
     (\<forall>c \<in> set (inflight s). users_call (snd c) (fst c))"

lemmas users_inv_unfold = users_inv_def fetchUsers_def users_handleCreate_def users_tick_def
  issue_def set_timeout_def

lemma users_inv_init: "users_inv users_init"
  by (simp add: users_inv_unfold users_init_def)

lemma users_inv_act:
  "users_inv s \<Longrightarrow> a \<in> set (view_clicks (users_view s)) \<union> set (view_submits (users_view s)) \<Longrightarrow>
   users_inv (users_act a ok s)"
  by (cases a) (auto simp: users_inv_unfold users_view_offers(1) dest!: users_view_offers(2))

lemma users_inv_edit: "users_inv s \<Longrightarrow> view_can_type (users_view s) f v \<Longrightarrow> users_inv (users_edit f v s)"
  by (cases f) (auto simp: users_inv_def dest!: users_view_offers(3))

lemma or_empty_shape: "\<exists>xs. or_empty d \<in> {Arr xs, NonArray}"
  by (cases d) auto

lemma users_resume_frame:
  assumes "users_resume k r u = Some t"
  shows "u_role t \<in> {u_role u, Some 1} \<and> (\<exists>d. u_users t \<in> {u_users u, or_empty d}) \<and>
    inflight t \<in> {inflight u, inflight u @ [(users_get, UKUsers)]}"
  using assms by (cases k; cases r) (auto simp: fetchUsers_def issue_def set_timeout_def)

lemma users_inv_resume:
  assumes inv: "users_inv s" and "i < length (inflight s)" and "inflight s ! i = (q, k)"
    and res: "users_resume k r (take_reply i s) = Some t"
  shows "users_inv t"
proof -
  have u: "u_role (take_reply i s) = u_role s" "u_users (take_reply i s) = u_users s"
    by (simp_all add: take_reply_def)
  note f = users_resume_frame [OF res, unfolded u]
  have "u_role t \<in> {Some 0, Some 1}" using f inv by (auto simp: users_inv_def)
  moreover have "\<exists>us. u_users t \<in> {Arr us, NonArray}"
  proof -
    from f obtain d where "u_users t = u_users s \<or> u_users t = or_empty d" by auto
    with inv or_empty_shape [of d] show ?thesis by (auto simp: users_inv_def)
  qed
  moreover have "\<forall>c \<in> set (inflight t). users_call (snd c) (fst c)"
  proof -
    have "\<forall>c \<in> set (inflight (take_reply i s)). users_call (snd c) (fst c)"
      using inv by (intro ball_take_reply) (simp add: users_inv_def)
    with f show ?thesis by auto
  qed
  ultimately show ?thesis by (simp add: users_inv_def)
qed

lemma users_inv_tick: "users_inv s \<Longrightarrow> users_inv (users_tick (fire_timer s))"
  by (simp add: users_inv_unfold fire_timer_def)

interpretation users: page users_view users_act users_edit users_resume users_tick users_init users_inv
  by unfold_locales
     (erule users_inv_resume users_inv_act users_inv_edit users_inv_tick | rule users_inv_init | assumption)+

lemma users_resume_users:
  assumes "users_resume k r u = Some t"
  shows "u_users t = u_users u \<or> (\<exists>d. r = URUsers d \<and> u_users t = or_empty d)"
  using assms by (cases k; cases r) (auto simp: fetchUsers_def issue_def set_timeout_def)

lemma or_empty_array: "d \<noteq> NonArray \<Longrightarrow> or_empty d \<noteq> NonArray"
  by (cases d) simp_all

lemma users_array_step:
  assumes "users_step e s = Some t" and "\<forall>i. e \<noteq> Reply i (URUsers NonArray)" and "u_users s \<noteq> NonArray"
    and "users_inv s"
  shows "u_users t \<noteq> NonArray"
  using assms(1) unfolding users_step_def
proof (cases rule: page_step_cases)
  case (click a ok)
  then show ?thesis by (simp add: view_simps)
next
  case (submit a)
  then show ?thesis using assms(3) by (cases a) (simp add: users_handleCreate_def issue_def)
next
  case (edit f v)
  then show ?thesis using assms(3) by (cases f) simp_all
next
  case (reply i r q k)
  have same: "u_users (take_reply i s) = u_users s" by (simp add: take_reply_def)
  from users_resume_users [OF reply(4)] show ?thesis
  proof
    assume "u_users t = u_users (take_reply i s)"
    with same assms(3) show ?thesis by simp
  next
    assume "\<exists>d. r = URUsers d \<and> u_users t = or_empty d"
    then obtain d where d: "r = URUsers d" "u_users t = or_empty d" by blast
    with assms(2) reply(1) have "d \<noteq> NonArray" by blast
    then show ?thesis unfolding d(2) by (rule or_empty_array)
  qed
next
  case tick
  then show ?thesis using assms(3) by (simp add: users_tick_def fire_timer_def)
qed

lemma users_array_run:
  "run users_step es s = Some t \<Longrightarrow> \<forall>i. Reply i (URUsers NonArray) \<notin> set es \<Longrightarrow> u_users s \<noteq> NonArray \<Longrightarrow>
   users_inv s \<Longrightarrow> u_users t \<noteq> NonArray \<and> users_inv t"
proof (induction es arbitrary: s)
  case (Cons e es)
  then obtain u where u: "users_step e s = Some u" "run users_step es u = Some t"
    by (auto split: option.splits)
  have "u_users u \<noteq> NonArray" using Cons.prems(2-4) by (intro users_array_step [OF u(1)]) auto
  moreover have "users_inv u" using Cons.prems(4) u(1) unfolding users_step_def by (rule users.step_inv)
  ultimately show ?case using Cons.prems(2) by (intro Cons.IH [OF u(2)]) auto
qed simp

subsection \<open>Properties\<close>

text \<open>Every user the page posts has a name, a password and one of the two roles of the form, whatever
  the user did before; a cleared form posts nothing.\<close>

theorem users_posted:
  assumes "reachable users_step users_init s" and "(q, UKCreate) \<in> set (inflight s)"
  shows "\<exists>u p r. q = users_post u p (Some r) \<and> u \<noteq> [] \<and> p \<noteq> [] \<and> r \<in> {0, 1}"
  using users.reachable_inv [OF assms(1) [unfolded users_step_def]] assms(2)
  by (auto simp: users_inv_def)

definition users_demo :: "(users_action, users_field, users_reply) page_event list" where
  "users_demo =
     [Edit UUsername (js ''ana''), Edit UPassword (js ''x''), Edit URole (num_str 0), Submit UCreate]"

lemma users_demo_run:
  "\<exists>s. run users_step users_demo users_init = Some s \<and>
     inflight s = [(users_get, UKUsers), (users_post (js ''ana'') (js ''x'') (Some 0), UKCreate)]"
  by (simp add: users_demo_def users_step_def page_step_def users_init_def fetchUsers_def issue_def
        users_view_def view_simps attr_defs can_type_iff users_handleCreate_def js.simps)

theorem users_posted_witness:
  "\<exists>s q. run users_step users_demo users_init = Some s \<and> (q, UKCreate) \<in> set (inflight s) \<and>
     (\<exists>u p r. q = users_post u p (Some r) \<and> u \<noteq> [] \<and> p \<noteq> [] \<and> r \<in> {0, 1})"
proof -
  obtain s where s: "run users_step users_demo users_init = Some s"
    "(users_post (js ''ana'') (js ''x'') (Some 0), UKCreate) \<in> set (inflight s)"
    using users_demo_run by auto
  from users_posted [OF run_reachable [OF s(1)] s(2)] s show ?thesis by blast
qed

text \<open>The page is shown in every run in which no reply to the list of users is a truthy body that is not
  an array: null, missing and empty bodies, errors and any order of events are survived; and such a body
  ends it, since the render then throws and nothing is left to click or to fill in.\<close>

theorem users_rendered:
  assumes "run users_step es users_init = Some s" and "\<forall>i. Reply i (URUsers NonArray) \<notin> set es"
  shows "users_view s \<noteq> None \<and>
    (\<exists>t. users_resume UKUsers (URUsers NonArray) s = Some t \<and> users_view t = None)"
proof -
  have "u_users users_init \<noteq> NonArray" by (simp add: users_init_def fetchUsers_def issue_def)
  then have "u_users s \<noteq> NonArray \<and> users_inv s"
    using users_array_run [OF assms _ users_inv_init] by blast
  then show ?thesis by (auto simp: users_view_def users_inv_def)
qed

theorem users_rendered_witness:
  "\<exists>s. run users_step [Reply 0 (URUsers Null)] users_init = Some s \<and> users_view s \<noteq> None"
proof -
  obtain s where s: "run users_step [Reply 0 (URUsers Null)] users_init = Some s"
    by (simp add: users_step_def page_step_def users_init_def fetchUsers_def issue_def)
  from users_rendered [OF s] s show ?thesis by simp
qed

end
