(* ===== verification/RangesPage.thy ===== *)
theory RangesPage
  imports Shared
begin

text \<open>
  The page of IP ranges, \<open>web/src/pages/Ranges.tsx\<close>: the ranges and the groups are loaded once each
  on the first render, the ranges again after a range is created. Both are stored as
  \<open>res.data || []\<close>, so the view is \<^const>\<open>None\<close> (the render throws) when one of them is not an
  array. The group of a new range starts as group 1 and changes only to an option of the select.
\<close>

record ip_range =
  range_id :: int
  range_cidr :: jsstr
  range_group_id :: int
  range_auth_mode :: int
  range_description :: jsstr

record range_group =
  rg_id :: int
  rg_name :: jsstr

datatype ranges_cont = RKRanges | RKGroups | RKCreate

record ranges_state = "ranges_cont async" +
  r_ranges :: "ip_range payload"
  r_groups :: "range_group payload"
  r_cidr :: jsstr
  r_groupId :: "int option"
  r_authMode :: "int option"
  r_description :: jsstr
  r_message :: jsstr

definition ranges_get :: request where
  "ranges_get = mk_request GET (js ''/ranges'') None"

definition ranges_groups_get :: request where
  "ranges_groups_get = mk_request GET (js ''/groups'') None"

definition ranges_post :: "jsstr \<Rightarrow> int option \<Rightarrow> int option \<Rightarrow> jsstr \<Rightarrow> request" where
  "ranges_post cidr gid mode description =
     mk_request POST (js ''/ranges'')
       (Some (JObj [(js ''cidr'', JStr cidr), (js ''group_id'', json_num gid),
                    (js ''auth_mode'', json_num mode), (js ''description'', JStr description)]))"

lemma ranges_post_inject [simp]:
  "ranges_post c g m d = ranges_post c' g' m' d' \<longleftrightarrow>
   c = c' \<and> json_num g = json_num g' \<and> json_num m = json_num m' \<and> d = d'"
  by (auto simp: ranges_post_def)

subsection \<open>Handlers\<close>

definition fetchRanges :: "ranges_state \<Rightarrow> ranges_state" where
  "fetchRanges s = issue ranges_get RKRanges s"

definition ranges_fetchGroups :: "ranges_state \<Rightarrow> ranges_state" where
  "ranges_fetchGroups s = issue ranges_groups_get RKGroups s"

definition ranges_init :: ranges_state where
  "ranges_init = ranges_fetchGroups (fetchRanges
     \<lparr>inflight = [], timers = 0, r_ranges = Arr [], r_groups = Arr [], r_cidr = [],
      r_groupId = Some 1, r_authMode = Some 0, r_description = [], r_message = []\<rparr>)"

definition ranges_handleCreate :: "ranges_state \<Rightarrow> ranges_state" where
  "ranges_handleCreate s =
     issue (ranges_post (r_cidr s) (r_groupId s) (r_authMode s) (r_description s)) RKCreate s"

datatype ranges_action = RCreate
datatype ranges_field = RCidr | RGroupId | RAuthMode | RDescription

fun ranges_act :: "ranges_action \<Rightarrow> bool \<Rightarrow> ranges_state \<Rightarrow> ranges_state" where
  "ranges_act RCreate ok s = ranges_handleCreate s"

fun ranges_edit :: "ranges_field \<Rightarrow> jsstr \<Rightarrow> ranges_state \<Rightarrow> ranges_state" where
  "ranges_edit RCidr v s = s\<lparr>r_cidr := v\<rparr>"
| "ranges_edit RGroupId v s = s\<lparr>r_groupId := js_Number v\<rparr>"
| "ranges_edit RAuthMode v s = s\<lparr>r_authMode := js_Number v\<rparr>"
| "ranges_edit RDescription v s = s\<lparr>r_description := v\<rparr>"

datatype ranges_reply = RRRanges "ip_range payload" | RRGroups "range_group payload" | RROk | RRError

fun ranges_resume :: "ranges_cont \<Rightarrow> ranges_reply \<Rightarrow> ranges_state \<Rightarrow> ranges_state option" where
  "ranges_resume RKRanges (RRRanges d) s = Some (s\<lparr>r_ranges := or_empty d\<rparr>)"
| "ranges_resume RKRanges RRError s = Some s"
| "ranges_resume RKGroups (RRGroups d) s = Some (s\<lparr>r_groups := or_empty d\<rparr>)"
| "ranges_resume RKGroups RRError s = Some s"
| "ranges_resume RKCreate RROk s =
     Some (set_timeout (fetchRanges
       (s\<lparr>r_cidr := [], r_description := [], r_message := js ''Range criado com sucesso''\<rparr>)))"
| "ranges_resume RKCreate RRError s =
     Some (s\<lparr>r_message := js ''Erro ao criar range %u2014 verifique o formato CIDR''\<rparr>)"
| "ranges_resume _ _ s = None"

definition ranges_tick :: "ranges_state \<Rightarrow> ranges_state" where
  "ranges_tick s = s\<lparr>r_message := []\<rparr>"

subsection \<open>View\<close>

text \<open>\<open>groups.find(g => g.id === id)?.name || `Grupo ${id}`\<close>\<close>

definition groupName :: "range_group list \<Rightarrow> int \<Rightarrow> jsstr" where
  "groupName gs i =
     (case find (\<lambda>g. rg_id g = i) gs of
        Some g \<Rightarrow> if rg_name g \<noteq> [] then rg_name g else js ''Grupo '' @ num_str i
      | None \<Rightarrow> js ''Grupo '' @ num_str i)"

text \<open>\<open>authModeLabels[r.auth_mode] || { label: '?', color: 'bg-gray-100' }\<close>\<close>

definition auth_mode_label :: "int \<Rightarrow> jsstr \<times> jsstr" where
  "auth_mode_label m =
     (if m = 0 then (js ''Sem autentica%E7%E3o'', js ''bg-gray-100 text-gray-600'')
      else if m = 1 then (js ''Captive Portal'', js ''bg-amber-100 text-amber-700'')
      else (js ''?'', js ''bg-gray-100''))"

definition ranges_form ::
  "ranges_state \<Rightarrow> range_group list \<Rightarrow> (ranges_field, ranges_action) node" where
  "ranges_form s gs =
     Elem TDiv []
       ([Elem TH3 [] [Text (js ''Nova Faixa'')]] @ message_banner (r_message s) @
        [Elem TForm [OnSubmit RCreate]
           [labelled (js ''CIDR'') (text_input (js ''text'') (r_cidr s) RCidr True),
            labelled (js ''Grupo'')
              (select_input (show_num (r_groupId s)) RGroupId
                 (map (\<lambda>g. (num_str (rg_id g), rg_name g)) gs)),
            labelled (js ''Autentica%E7%E3o'')
              (select_input (show_num (r_authMode s)) RAuthMode
                 [(num_str 0, js ''Sem autentica%E7%E3o''), (num_str 1, js ''Captive Portal'')]),
            labelled (js ''Descri%E7%E3o'') (text_input (js ''text'') (r_description s) RDescription False),
            submit_button (js ''Criar'') False]])"

definition ranges_row :: "range_group list \<Rightarrow> ip_range \<Rightarrow> (ranges_field, ranges_action) node" where
  "ranges_row gs r =
     Elem TTr [Key (num_str (range_id r))]
       [Elem TTd [] [Text (num_str (range_id r))],
        Elem TTd [] [Text (range_cidr r)],
        Elem TTd [] [Text (groupName gs (range_group_id r))],
        Elem TTd []
          [Elem TSpan [ClassName (js ''px-2 py-1 rounded-full text-xs font-medium '' @
              snd (auth_mode_label (range_auth_mode r)))]
             [Text (fst (auth_mode_label (range_auth_mode r)))]],
        Elem TTd [] [Text (if range_description r \<noteq> [] then range_description r else js ''-'')]]"

definition ranges_table ::
  "range_group list \<Rightarrow> ip_range list \<Rightarrow> (ranges_field, ranges_action) node" where
  "ranges_table gs rs =
     Elem TDiv []
       [Elem TTable []
          [Elem TThead []
             [Elem TTr []
                (map (\<lambda>h. Elem TTh [] [Text h])
                   [js ''ID'', js ''CIDR'', js ''Grupo'', js ''Autentica%E7%E3o'', js ''Descri%E7%E3o''])],
           Elem TTbody []
             (map (ranges_row gs) rs @
              (if rs = []
               then [Elem TTr [] [Elem TTd [ColSpan 5] [Text (js ''Nenhuma faixa cadastrada'')]]]
               else []))]]"

definition ranges_view :: "ranges_state \<Rightarrow> (ranges_field, ranges_action) node option" where
  "ranges_view s =
     (case (r_groups s, r_ranges s) of
        (Arr gs, Arr rs) \<Rightarrow>
          Some (Elem TDiv []
            [Elem TH2 [] [Text (js ''Faixas de IP'')], ranges_form s gs, ranges_table gs rs])
      | _ \<Rightarrow> None)"

definition ranges_step ::
  "(ranges_action, ranges_field, ranges_reply) page_event \<Rightarrow> ranges_state \<Rightarrow> ranges_state option" where
  "ranges_step = page_step ranges_view ranges_act ranges_edit ranges_resume ranges_tick"

subsection \<open>What the view offers\<close>

lemma ranges_form_view [view_simps]:
  "clicks (ranges_form s gs) = []"
  "submits (ranges_form s gs) = (if r_cidr s \<noteq> [] then [RCreate] else [])"
  "input_fields (ranges_form s gs) =
     [(RCidr, None), (RGroupId, Some (map (\<lambda>g. num_str (rg_id g)) gs)),
      (RAuthMode, Some [num_str 0, num_str 1]), (RDescription, None)]"
  by (simp_all add: ranges_form_def view_simps attr_defs form_ready_def o_def)

lemma ranges_row_view [view_simps]:
  "clicks (ranges_row gs r) = []" "submits (ranges_row gs r) = []" "input_fields (ranges_row gs r) = []"
  by (simp_all add: ranges_row_def attr_defs)

lemma ranges_table_view [view_simps]:
  "clicks (ranges_table gs rs) = []" "submits (ranges_table gs rs) = []"
  "input_fields (ranges_table gs rs) = []"
  by (simp_all add: ranges_table_def view_simps attr_defs o_def set_concat_map_empty)

lemma ranges_view_offers [view_simps]:
  "view_clicks (ranges_view s) = []"
  "a \<in> set (view_submits (ranges_view s)) \<Longrightarrow> r_cidr s \<noteq> []"
  "view_can_type (ranges_view s) RAuthMode v \<Longrightarrow> v \<in> {num_str 0, num_str 1}"
  "view_can_type (ranges_view s) RGroupId v \<Longrightarrow>
     \<exists>gs. r_groups s = Arr gs \<and> (\<exists>g \<in> set gs. v = num_str (rg_id g))"
  by (auto simp: ranges_view_def view_simps attr_defs can_type_iff split: payload.splits if_splits)

subsection \<open>Invariant\<close>

definition group_chosen :: "range_group payload \<Rightarrow> int option \<Rightarrow> bool" where
  "group_chosen gs i \<longleftrightarrow> i = Some 1 \<or> (\<exists>xs. gs = Arr xs \<and> (\<exists>g \<in> set xs. i = Some (rg_id g)))"

fun ranges_call :: "ranges_cont \<Rightarrow> request \<Rightarrow> bool" where
  "ranges_call RKRanges q = (q = ranges_get)"
| "ranges_call RKGroups q = (q = ranges_groups_get)"
| "ranges_call RKCreate q =
     (\<exists>c g m d. q = ranges_post c (Some g) (Some m) d \<and> c \<noteq> [] \<and> m \<in> {0, 1})"

text \<open>
  The groups are loaded once: while that request is in flight no group can be chosen, and after it
  the options do not change.
\<close>

definition groups_phase :: "bool \<Rightarrow> range_group payload \<Rightarrow> int option \<Rightarrow> bool" where
  "groups_phase b gs i \<longleftrightarrow> (if b then gs = Arr [] \<and> i = Some 1 else group_chosen gs i)"

lemma groups_phase_chosen: "groups_phase b gs i \<Longrightarrow> group_chosen gs i"
  by (auto simp: groups_phase_def group_chosen_def split: if_splits)

lemma groups_phase_loaded: "groups_phase True gs i \<Longrightarrow> groups_phase False gs' i"
  by (simp add: groups_phase_def group_chosen_def)

lemma groups_phase_pick: "groups_phase b (Arr gs) i \<Longrightarrow> g \<in> set gs \<Longrightarrow> groups_phase b (Arr gs) (Some (rg_id g))"
  by (auto simp: groups_phase_def group_chosen_def split: if_splits)

lemma group_chosen_some: "group_chosen gs i \<Longrightarrow> \<exists>n. i = Some n"
  by (auto simp: group_chosen_def)

definition ranges_inv :: "ranges_state \<Rightarrow> bool" where
  "ranges_inv s \<longleftrightarrow>
     r_authMode s \<in> {Some 0, Some 1} \<and>
     (\<exists>b. busy_ok (\<lambda>k. k = RKGroups) b (inflight s) \<and> groups_phase b (r_groups s) (r_groupId s)) \<and>
     (\<forall>c \<in> set (inflight s). ranges_call (snd c) (fst c))"

lemma ranges_invI:
  "r_authMode s \<in> {Some 0, Some 1} \<Longrightarrow> busy_ok (\<lambda>k. k = RKGroups) b (inflight s) \<Longrightarrow>
   groups_phase b (r_groups s) (r_groupId s) \<Longrightarrow>
   (\<And>c. c \<in> set (inflight s) \<Longrightarrow> ranges_call (snd c) (fst c)) \<Longrightarrow> ranges_inv s"
  by (auto simp: ranges_inv_def)

lemma ranges_inv_group: "ranges_inv s \<Longrightarrow> group_chosen (r_groups s) (r_groupId s)"
  by (auto simp: ranges_inv_def dest: groups_phase_chosen)

lemma ranges_inv_init: "ranges_inv ranges_init"
  by (rule ranges_invI [where b = True])
     (auto simp: ranges_init_def ranges_fetchGroups_def fetchRanges_def issue_def busy_ok_def
        groups_phase_def)

lemma ranges_inv_act:
  assumes "ranges_inv s" and "a \<in> set (view_clicks (ranges_view s)) \<union> set (view_submits (ranges_view s))"
  shows "ranges_inv (ranges_act a ok s)"
proof -
  from assms(1) obtain b where b: "r_authMode s \<in> {Some 0, Some 1}"
    "busy_ok (\<lambda>k. k = RKGroups) b (inflight s)" "groups_phase b (r_groups s) (r_groupId s)"
    "\<forall>c \<in> set (inflight s). ranges_call (snd c) (fst c)"
    by (auto simp: ranges_inv_def)
  have "a \<in> set (view_submits (ranges_view s))" using assms(2) by (simp add: ranges_view_offers(1))
  then have "r_cidr s \<noteq> []" by (rule ranges_view_offers(2))
  moreover obtain g where "r_groupId s = Some g"
    using ranges_inv_group [OF assms(1)] group_chosen_some by blast
  ultimately show ?thesis
    by (cases a, intro ranges_invI [where b = b])
       (use b in \<open>auto simp: ranges_handleCreate_def issue_def\<close>)
qed

lemma ranges_inv_edit:
  assumes "ranges_inv s" and "view_can_type (ranges_view s) f v"
  shows "ranges_inv (ranges_edit f v s)"
proof -
  from assms(1) obtain b where b: "r_authMode s \<in> {Some 0, Some 1}"
    "busy_ok (\<lambda>k. k = RKGroups) b (inflight s)" "groups_phase b (r_groups s) (r_groupId s)"
    "\<forall>c \<in> set (inflight s). ranges_call (snd c) (fst c)"
    by (auto simp: ranges_inv_def)
  show ?thesis
  proof (cases f)
    case RGroupId
    with assms(2) obtain gs g where g: "r_groups s = Arr gs" "g \<in> set gs" "v = num_str (rg_id g)"
      using ranges_view_offers(4) by blast
    have "groups_phase b (r_groups s) (Some (rg_id g))"
      using b(3) g(1,2) by (auto intro: groups_phase_pick)
    with RGroupId g(3) b show ?thesis by (intro ranges_invI [where b = b]) auto
  next
    case RAuthMode
    with assms ranges_view_offers(3) [of s v] b show ?thesis by (intro ranges_invI [where b = b]) auto
  qed (use b in \<open>intro ranges_invI [where b = b]; simp\<close>)+
qed

lemma ranges_resume_frame:
  assumes "ranges_resume k r u = Some t"
  shows "r_groupId t = r_groupId u \<and> r_authMode t = r_authMode u \<and>
    (k \<noteq> RKGroups \<longrightarrow> r_groups t = r_groups u) \<and>
    inflight t \<in> {inflight u, inflight u @ [(ranges_get, RKRanges)]}"
  using assms by (cases k; cases r) (auto simp: fetchRanges_def issue_def set_timeout_def)

lemma ranges_inv_resume:
  assumes inv: "ranges_inv s" and i: "i < length (inflight s)" "inflight s ! i = (q, k)"
    and res: "ranges_resume k r (take_reply i s) = Some t"
  shows "ranges_inv t"
proof -
  let ?u = "take_reply i s" and ?P = "\<lambda>k. k = RKGroups"
  from inv obtain b where b: "r_authMode s \<in> {Some 0, Some 1}"
    "busy_ok (\<lambda>k. k = RKGroups) b (inflight s)" "groups_phase b (r_groups s) (r_groupId s)"
    "\<forall>c \<in> set (inflight s). ranges_call (snd c) (fst c)"
    by (auto simp: ranges_inv_def)
  have u: "r_authMode ?u = r_authMode s" "r_groups ?u = r_groups s" "r_groupId ?u = r_groupId s"
    by (simp_all add: take_reply_def)
  note f = ranges_resume_frame [OF res]
  have "busy_ok ?P (b \<and> k \<noteq> RKGroups) (inflight t)"
    using busy_ok_reply [OF b(2) i] f by auto
  moreover have "groups_phase (b \<and> k \<noteq> RKGroups) (r_groups t) (r_groupId t)"
  proof (cases "k = RKGroups")
    case True
    have "(q, k) \<in> set (inflight s)" using i by (metis nth_mem)
    with b(2) True have b by (auto simp: busy_ok_pending pending_zero_iff split: if_splits)
    with b(3) True f u(3) show ?thesis by (auto intro: groups_phase_loaded)
  qed (use b(3) f u in simp)
  moreover have "ranges_call (snd c) (fst c)" if "c \<in> set (inflight t)" for c
    using that f ball_take_reply [OF b(4), of i] by auto
  ultimately show ?thesis using b(1) f u by (intro ranges_invI) auto
qed

lemma ranges_inv_tick: "ranges_inv s \<Longrightarrow> ranges_inv (ranges_tick (fire_timer s))"
  by (simp add: ranges_inv_def ranges_tick_def fire_timer_def)

interpretation ranges: page ranges_view ranges_act ranges_edit ranges_resume ranges_tick ranges_init
  ranges_inv
  by unfold_locales
     (erule ranges_inv_resume ranges_inv_act ranges_inv_edit ranges_inv_tick | rule ranges_inv_init | assumption)+

subsection \<open>Properties\<close>

text \<open>Every range the page posts has an address, one of the two authentication modes, and as its group
  either one of the groups loaded for the select or group 1.\<close>

theorem ranges_posted:
  assumes "reachable ranges_step ranges_init s" and "ranges_step (Submit RCreate) s = Some t"
  shows "\<exists>c g m d. inflight t = inflight s @ [(ranges_post c (Some g) (Some m) d, RKCreate)] \<and>
    c \<noteq> [] \<and> m \<in> {0, 1} \<and> (g = 1 \<or> (\<exists>gs. r_groups s = Arr gs \<and> g \<in> rg_id ` set gs))"
proof -
  have inv: "ranges_inv s" using assms(1) unfolding ranges_step_def by (rule ranges.reachable_inv)
  have sub: "RCreate \<in> set (view_submits (ranges_view s))" and t: "t = ranges_handleCreate s"
    using assms(2) by (auto simp: ranges_step_def page_step_def split: if_splits)
  have "r_cidr s \<noteq> []" using sub by (rule ranges_view_offers(2))
  moreover have "r_authMode s \<in> {Some 0, Some 1}" using inv by (simp add: ranges_inv_def)
  moreover have "group_chosen (r_groups s) (r_groupId s)" using inv by (rule ranges_inv_group)
  ultimately show ?thesis
    by (auto simp: t ranges_handleCreate_def issue_def group_chosen_def)
qed

text \<open>A page whose only group has id 5, and an address typed in.\<close>

definition ranges_demo :: "(ranges_action, ranges_field, ranges_reply) page_event list" where
  "ranges_demo =
     [Reply 1 (RRGroups (Arr [\<lparr>rg_id = 5, rg_name = js ''Visitantes''\<rparr>])),
      Edit RCidr (js ''10.0.0.0/8'')]"

lemmas ranges_eval = ranges_step_def page_step_def ranges_init_def ranges_fetchGroups_def
  fetchRanges_def issue_def take_reply_def remove_nth_def ranges_view_def view_simps attr_defs
  can_type_iff ranges_handleCreate_def

lemma ranges_demo_run:
  "\<exists>s t. run ranges_step ranges_demo ranges_init = Some s \<and> ranges_step (Submit RCreate) s = Some t \<and>
     r_groups s = Arr [\<lparr>rg_id = 5, rg_name = js ''Visitantes''\<rparr>] \<and>
     inflight t = [(ranges_get, RKRanges),
       (ranges_post (js ''10.0.0.0/8'') (Some 1) (Some 0) [], RKCreate)]"
  by (simp add: ranges_demo_def ranges_eval js.simps)

theorem ranges_posted_witness:
  "\<exists>s t c g m d. run ranges_step ranges_demo ranges_init = Some s \<and>
     ranges_step (Submit RCreate) s = Some t \<and>
     inflight t = inflight s @ [(ranges_post c (Some g) (Some m) d, RKCreate)] \<and> c \<noteq> []"
proof -
  obtain s t where s: "run ranges_step ranges_demo ranges_init = Some s"
    "ranges_step (Submit RCreate) s = Some t"
    using ranges_demo_run by blast
  from ranges_posted [OF run_reachable [OF s(1)] s(2)] s show ?thesis by blast
qed

text \<open>The group a new range is given need not be the one on the screen: with a single group of id 5 the
  select shows that group as its only option, and a user who fills in the address and submits sends
  group 1, which is not among the options.\<close>

theorem ranges_posts_unlisted_group:
  "\<exists>s t. run ranges_step ranges_demo ranges_init = Some s \<and>
     input_fields (the (ranges_view s)) =
       [(RCidr, None), (RGroupId, Some [num_str 5]), (RAuthMode, Some [num_str 0, num_str 1]),
        (RDescription, None)] \<and>
     ranges_step (Submit RCreate) s = Some t \<and>
     snd (last (inflight t)) = RKCreate \<and>
     fst (last (inflight t)) = ranges_post (js ''10.0.0.0/8'') (Some 1) (Some 0) []"
  by (simp add: ranges_demo_def ranges_eval js.simps)

end
