(* ===== verification/JsNumber.thy ===== *)
theory JsNumber
  imports Complex_Main JsText
begin

text \<open>
  Number values. The dashboard's numbers are IEEE doubles; a finite double is a rational, and an
  arithmetic operation of JavaScript is the exact rational operation followed by rounding to 53
  significant bits, ties to even (\<open>fl\<close>). \<open>Math.floor\<close>, \<open>Math.ceil\<close> and \<open>toFixed\<close>
  are exact on their argument. The exponent range is not bounded here: the quotients the pages
  compute lie far inside the range of a double. The lemmas show where the double computation agrees with
  integer arithmetic (\<open>js_div_floor\<close>, \<open>js_div_ceil\<close>) and that rounding stays below an
  integer bound (\<open>fl_le_int\<close>).
\<close>

subsection \<open>Rounding to 53 bits\<close>

fun ilog2 :: "nat \<Rightarrow> nat" where
  "ilog2 n = (if n \<le> 1 then 0 else Suc (ilog2 (n div 2)))"

declare ilog2.simps [simp del]

lemma ilog2_le: "0 < n \<Longrightarrow> 2 ^ ilog2 n \<le> n"
proof (induction n rule: ilog2.induct)
  case (1 n)
  show ?case
  proof (cases "n \<le> 1")
    case True
    with 1 show ?thesis by (subst ilog2.simps) simp
  next
    case False
    with 1 have "2 ^ ilog2 (n div 2) \<le> n div 2" by simp
    moreover have "2 * (n div 2) \<le> n" by simp
    ultimately have "2 * 2 ^ ilog2 (n div 2) \<le> n" by linarith
    with False show ?thesis by (subst ilog2.simps) simp
  qed
qed

lemma ilog2_gt: "n < 2 ^ Suc (ilog2 n)"
proof (induction n rule: ilog2.induct)
  case (1 n)
  show ?case
  proof (cases "n \<le> 1")
    case True
    then show ?thesis by (subst ilog2.simps) simp
  next
    case False
    with 1 have "n div 2 + 1 \<le> 2 ^ Suc (ilog2 (n div 2))" by simp
    moreover have "n < 2 * (n div 2 + 1)" by simp
    ultimately have "n < 2 * 2 ^ Suc (ilog2 (n div 2))" by linarith
    with False show ?thesis by (subst ilog2.simps) simp
  qed
qed

definition pow2 :: "int \<Rightarrow> rat" where
  "pow2 k = (if 0 \<le> k then 2 ^ nat k else 1 / 2 ^ nat (- k))"

lemma pow2_powi: "pow2 k = 2 powi k"
  by (simp add: pow2_def power_int_def inverse_eq_divide power_one_over)

lemma pow2_pos [simp]: "0 < pow2 k"
  by (simp add: pow2_def)

lemma pow2_add: "pow2 (j + k) = pow2 j * pow2 k"
  by (simp add: pow2_powi power_int_add)

lemma pow2_neg_cancel [simp]: "pow2 k * pow2 (- k) = 1"
  by (simp add: pow2_add [symmetric] pow2_def)

lemma pow2_nonneg_int: "0 \<le> k \<Longrightarrow> pow2 k = of_int (2 ^ nat k)"
  by (simp add: pow2_def)

lemma pow2_ge: "53 \<le> e \<Longrightarrow> 2 ^ 53 \<le> pow2 e"
  using power_increasing [of 53 "nat e" "2::rat"] by (simp add: pow2_def del: power_increasing_iff)

text \<open>The binary exponent of a positive rational.\<close>

definition binexp :: "rat \<Rightarrow> int" where
  "binexp x =
     (if 1 \<le> x then int (ilog2 (nat \<lfloor>x\<rfloor>)) else - (int (ilog2 (nat (\<lceil>1 / x\<rceil> - 1))) + 1))"

lemma binexp_le:
  assumes "0 < x"
  shows "pow2 (binexp x) \<le> x"
proof (cases "1 \<le> x")
  case True
  then have "1 \<le> \<lfloor>x\<rfloor>" by simp
  then have "2 ^ ilog2 (nat \<lfloor>x\<rfloor>) \<le> nat \<lfloor>x\<rfloor>" by (intro ilog2_le) simp
  then have "(2::int) ^ ilog2 (nat \<lfloor>x\<rfloor>) \<le> \<lfloor>x\<rfloor>" using \<open>1 \<le> \<lfloor>x\<rfloor>\<close> by (simp add: le_nat_iff)
  then have "(2::rat) ^ ilog2 (nat \<lfloor>x\<rfloor>) \<le> x" by (simp add: le_floor_iff)
  with True show ?thesis by (simp add: binexp_def pow2_def)
next
  case False
  let ?m = "\<lceil>1 / x\<rceil> - 1"
  have "1 < 1 / x" using False assms by simp
  then have m: "1 \<le> ?m" by linarith
  have "int (nat ?m) = ?m" using m by (intro nat_0_le) linarith
  moreover have "int (nat ?m) < 2 ^ Suc (ilog2 (nat ?m))"
    by (metis ilog2_gt of_nat_less_iff of_nat_numeral of_nat_power)
  ultimately have "?m < 2 ^ Suc (ilog2 (nat ?m))" by (simp only:)
  then have "\<lceil>1 / x\<rceil> \<le> 2 ^ Suc (ilog2 (nat ?m))" by simp
  then have "1 / x \<le> 2 ^ Suc (ilog2 (nat ?m))" by (simp add: ceiling_le_iff)
  then have "1 / 2 ^ Suc (ilog2 (nat ?m)) \<le> x" using assms by (simp add: field_simps)
  moreover have "binexp x = - int (Suc (ilog2 (nat ?m)))" using False by (simp add: binexp_def)
  moreover have "pow2 (- int (Suc k)) = 1 / 2 ^ Suc k" for k
    by (simp only: pow2_def nat_int minus_minus) simp
  ultimately show ?thesis by simp
qed

definition round_half_even :: "rat \<Rightarrow> int" where
  "round_half_even y =
     (let f = \<lfloor>y\<rfloor>; d = y - of_int f
      in if d < 1 / 2 then f else if d > 1 / 2 then f + 1 else if even f then f else f + 1)"

lemma round_half_even_int [simp]: "round_half_even (of_int n) = n"
  by (simp add: round_half_even_def)

lemma round_half_even_err: "\<bar>of_int (round_half_even y) - y\<bar> \<le> 1 / 2"
proof -
  have "of_int \<lfloor>y\<rfloor> \<le> y" and "y < of_int \<lfloor>y\<rfloor> + 1" by linarith+
  then show ?thesis unfolding round_half_even_def Let_def by (simp split: if_split)
qed

lemma round_half_even_le_int: "y \<le> of_int n \<Longrightarrow> round_half_even y \<le> n"
proof -
  assume "y \<le> of_int n"
  show ?thesis
  proof (cases "y = of_int n")
    case False
    with \<open>y \<le> of_int n\<close> have "\<lfloor>y\<rfloor> < n" by linarith
    then show ?thesis by (auto simp: round_half_even_def Let_def)
  qed simp
qed

lemma round_half_even_nonneg: "0 \<le> y \<Longrightarrow> 0 \<le> round_half_even y"
  by (auto simp: round_half_even_def Let_def)

definition fl_pos :: "rat \<Rightarrow> rat" where
  "fl_pos x = of_int (round_half_even (x * pow2 (52 - binexp x))) * pow2 (binexp x - 52)"

definition fl :: "rat \<Rightarrow> rat" where
  "fl x = (if x = 0 then 0 else if x < 0 then - fl_pos (- x) else fl_pos x)"

lemma pow2_scale: "pow2 (52 - e) * pow2 (e - 52) = 1"
  using pow2_neg_cancel [of "52 - e"] by simp

lemma fl_pos_err:
  assumes "0 < x"
  shows "\<bar>fl_pos x - x\<bar> \<le> x / 2 ^ 53"
proof -
  let ?e = "binexp x"
  let ?y = "x * pow2 (52 - ?e)"
  have "x = ?y * pow2 (?e - 52)" by (simp add: mult.assoc pow2_scale)
  then have "fl_pos x - x = (of_int (round_half_even ?y) - ?y) * pow2 (?e - 52)"
    unfolding fl_pos_def by (metis left_diff_distrib)
  then have "\<bar>fl_pos x - x\<bar> = \<bar>of_int (round_half_even ?y) - ?y\<bar> * pow2 (?e - 52)"
    by (simp add: abs_mult less_imp_le)
  also have "\<dots> \<le> 1 / 2 * pow2 (?e - 52)"
    by (intro mult_right_mono round_half_even_err less_imp_le) simp
  also have "\<dots> = pow2 ?e / 2 ^ 53"
    using pow2_add [of ?e "- 52"] by (simp add: pow2_def)
  also have "\<dots> \<le> x / 2 ^ 53"
    by (intro divide_right_mono binexp_le assms) simp
  finally show ?thesis .
qed

lemma fl_nonneg: "0 \<le> x \<Longrightarrow> 0 \<le> fl x"
  by (auto simp: fl_def fl_pos_def less_imp_le intro!: mult_nonneg_nonneg round_half_even_nonneg)

lemma fl_err: "0 \<le> x \<Longrightarrow> \<bar>fl x - x\<bar> \<le> x / 2 ^ 53"
  using fl_pos_err [of x] by (cases "x = 0") (auto simp: fl_def)

lemma fl_pos_le_int:
  assumes "0 < x" and "x \<le> of_int n" and "n < 2 ^ 53"
  shows "fl_pos x \<le> of_int n"
proof -
  let ?e = "binexp x"
  have "pow2 ?e \<le> x" using assms(1) by (rule binexp_le)
  have "?e \<le> 52"
  proof (rule ccontr)
    assume "\<not> ?e \<le> 52"
    then have "(2::rat) ^ 53 \<le> pow2 ?e" by (intro pow2_ge) simp
    moreover have "x < 2 ^ 53" using assms(2,3) by (metis le_less_trans of_int_less_iff of_int_numeral of_int_power)
    ultimately show False using \<open>pow2 ?e \<le> x\<close> by simp
  qed
  then have scale: "pow2 (52 - ?e) = of_int (2 ^ nat (52 - ?e))" by (intro pow2_nonneg_int) simp
  have "x * pow2 (52 - ?e) \<le> of_int (n * 2 ^ nat (52 - ?e))"
    using assms(2) unfolding scale of_int_mult by (intro mult_right_mono) auto
  then have "round_half_even (x * pow2 (52 - ?e)) \<le> n * 2 ^ nat (52 - ?e)"
    by (rule round_half_even_le_int)
  then have "(of_int (round_half_even (x * pow2 (52 - ?e))) :: rat) \<le> of_int n * pow2 (52 - ?e)"
    unfolding scale by (metis of_int_le_iff of_int_mult)
  then have "fl_pos x \<le> of_int n * pow2 (52 - ?e) * pow2 (?e - 52)"
    unfolding fl_pos_def by (intro mult_right_mono) (auto intro: less_imp_le)
  then show ?thesis by (simp add: mult.assoc pow2_scale)
qed

lemma fl_le_int: "0 \<le> x \<Longrightarrow> x \<le> of_int n \<Longrightarrow> n < 2 ^ 53 \<Longrightarrow> fl x \<le> of_int n"
  using fl_pos_le_int [of x n] by (cases "x = 0") (auto simp: fl_def)

lemma fl_int:
  assumes "0 \<le> n" and "n < 2 ^ 53"
  shows "fl (of_int n) = of_int n"
proof (cases "n = 0")
  case False
  with assms have pos: "0 < (of_int n :: rat)" by simp
  let ?e = "binexp (of_int n)"
  have "pow2 ?e \<le> of_int n" using pos by (rule binexp_le)
  have "?e \<le> 52"
  proof (rule ccontr)
    assume "\<not> ?e \<le> 52"
    then have "(2::rat) ^ 53 \<le> pow2 ?e" by (intro pow2_ge) simp
    with \<open>pow2 ?e \<le> of_int n\<close> have "(of_int (2 ^ 53) :: rat) \<le> of_int n" by simp
    with assms(2) show False by (simp only: of_int_le_iff)
  qed
  then have scale: "pow2 (52 - ?e) = of_int (2 ^ nat (52 - ?e))" by (intro pow2_nonneg_int) simp
  have "round_half_even (of_int n * pow2 (52 - ?e)) = n * 2 ^ nat (52 - ?e)"
    unfolding scale of_int_mult [symmetric] by (rule round_half_even_int)
  then have "fl_pos (of_int n) = of_int n * pow2 (52 - ?e) * pow2 (?e - 52)"
    unfolding fl_pos_def scale by simp
  then have "fl_pos (of_int n) = of_int n" by (simp add: mult.assoc pow2_scale)
  with False assms show ?thesis by (simp add: fl_def)
qed (simp add: fl_def)

subsection \<open>Arithmetic of doubles\<close>

definition js_div :: "rat \<Rightarrow> rat \<Rightarrow> rat" where
  "js_div a b = fl (a / b)"

definition js_mul :: "rat \<Rightarrow> rat \<Rightarrow> rat" where
  "js_mul a b = fl (a * b)"

lemma js_div_close:
  assumes "0 \<le> n" and "n < 2 ^ 53" and "0 < d"
  shows "\<bar>js_div (of_int n) (of_int d) - of_int n / of_int d\<bar> < 1 / of_int d"
proof -
  let ?x = "of_int n / of_int d :: rat"
  have "\<bar>fl ?x - ?x\<bar> \<le> ?x / 2 ^ 53" using assms by (intro fl_err) simp
  moreover have "?x / 2 ^ 53 < 1 / of_int d"
  proof -
    have "(of_int n :: rat) < of_int (2 ^ 53)" using assms(2) by (simp only: of_int_less_iff)
    then show ?thesis using assms(3) by (simp add: field_simps)
  qed
  ultimately show ?thesis by (simp add: js_div_def)
qed

text \<open>A quotient of integers below \<open>2 ^ 53\<close> is on the same side of every integer after rounding.\<close>

lemma js_div_less_int:
  assumes "0 \<le> n" and "n < 2 ^ 53" and "0 < d" and "n < k * d"
  shows "js_div (of_int n) (of_int d) < of_int k"
proof -
  from assms(4) have "n + 1 \<le> k * d" by simp
  then have "(of_int n + 1 :: rat) \<le> of_int k * of_int d"
    by (metis of_int_1 of_int_add of_int_le_iff of_int_mult)
  with assms(3) have "of_int n / of_int d + 1 / of_int d \<le> (of_int k :: rat)"
    by (simp add: field_simps)
  with js_div_close [OF assms(1-3)] show ?thesis by linarith
qed

lemma js_div_greater_int:
  assumes "0 \<le> n" and "n < 2 ^ 53" and "0 < d" and "k * d < n"
  shows "of_int k < js_div (of_int n) (of_int d)"
proof -
  from assms(4) have "k * d + 1 \<le> n" by simp
  then have "(of_int k * of_int d + 1 :: rat) \<le> of_int n"
    by (metis of_int_1 of_int_add of_int_le_iff of_int_mult)
  then have "(of_int k * of_int d + 1) / of_int d \<le> (of_int n / of_int d :: rat)"
    using assms(3) by (intro divide_right_mono) auto
  with assms(3) have "of_int k + 1 / of_int d \<le> (of_int n / of_int d :: rat)"
    by (simp add: add_divide_distrib)
  with js_div_close [OF assms(1-3)] show ?thesis by linarith
qed

lemma js_div_exact:
  assumes "0 \<le> n" and "n < 2 ^ 53" and "0 < d" and "n = k * d"
  shows "js_div (of_int n) (of_int d) = of_int k"
proof -
  have "0 \<le> k" using assms by (simp add: zero_le_mult_iff)
  moreover have "k \<le> n" using assms \<open>0 \<le> k\<close> using mult_left_mono [of 1 d k] by simp
  moreover have "of_int n / of_int d = (of_int k :: rat)" using assms(3,4) by simp
  ultimately show ?thesis using assms(2) by (simp add: js_div_def fl_int)
qed

lemma js_div_floor:
  assumes "0 \<le> n" and "n < 2 ^ 53" and "0 < d"
  shows "\<lfloor>js_div (of_int n) (of_int d)\<rfloor> = n div d"
proof (rule floor_unique)
  have split: "n = (n div d) * d + n mod d" by simp
  have "0 \<le> n mod d" and "n mod d < d" using assms(3) by simp_all
  show "of_int (n div d) \<le> js_div (of_int n) (of_int d)"
  proof (cases "n mod d = 0")
    case True
    with split js_div_exact [OF assms, of "n div d"] show ?thesis by simp
  next
    case False
    with \<open>0 \<le> n mod d\<close> split have "(n div d) * d < n" by linarith
    from js_div_greater_int [OF assms this] show ?thesis by simp
  qed
  have "(n div d + 1) * d = (n div d) * d + d" by (simp add: algebra_simps)
  with split \<open>n mod d < d\<close> have "n < (n div d + 1) * d" by linarith
  from js_div_less_int [OF assms this]
  show "js_div (of_int n) (of_int d) < of_int (n div d) + 1" by simp
qed

lemma js_div_ceil:
  assumes "0 \<le> n" and "n < 2 ^ 53" and "0 < d"
  shows "\<lceil>js_div (of_int n) (of_int d)\<rceil> = (n + d - 1) div d"
proof (rule ceiling_unique)
  let ?k = "(n + d - 1) div d"
  have split: "n + d - 1 = ?k * d + (n + d - 1) mod d" by simp
  have lo: "0 \<le> (n + d - 1) mod d" and hi: "(n + d - 1) mod d < d" using assms(3) by simp_all
  have "(?k - 1) * d = ?k * d - d" by (simp add: algebra_simps)
  with split lo have "(?k - 1) * d < n" by linarith
  from js_div_greater_int [OF assms this]
  show "of_int ?k - 1 < js_div (of_int n) (of_int d)" by simp
  show "js_div (of_int n) (of_int d) \<le> of_int ?k"
  proof (cases "n = ?k * d")
    case True
    from js_div_exact [OF assms True] show ?thesis by simp
  next
    case False
    with split hi have "n < ?k * d" by linarith
    from js_div_less_int [OF assms this] show ?thesis by simp
  qed
qed

subsection \<open>toFixed\<close>

definition pad_zeros :: "nat \<Rightarrow> jsstr \<Rightarrow> jsstr" where
  "pad_zeros k s = replicate (k - length s) 48 @ s"

text \<open>The decimal text of \<open>n / 10 ^ f\<close> with exactly \<open>f\<close> digits after the point.\<close>

definition fixed_str :: "nat \<Rightarrow> nat \<Rightarrow> jsstr" where
  "fixed_str f n =
     (let m = pad_zeros (Suc f) (nat_str n)
      in if f = 0 then m else take (length m - f) m @ [46] @ drop (length m - f) m)"

definition toFixed :: "nat \<Rightarrow> rat \<Rightarrow> jsstr" where
  "toFixed f x =
     (if x < 0 then 45 # fixed_str f (nat \<lfloor>- x * 10 ^ f + 1 / 2\<rfloor>)
      else fixed_str f (nat \<lfloor>x * 10 ^ f + 1 / 2\<rfloor>))"

lemma fixed_str_nonempty [simp]: "fixed_str f n \<noteq> []"
  by (simp add: fixed_str_def pad_zeros_def Let_def)

lemma toFixed_nonempty [simp]: "toFixed f x \<noteq> []"
  by (simp add: toFixed_def)

lemma toFixed_bounds:
  assumes "0 \<le> x" and "x \<le> of_nat b"
  shows "\<exists>n \<le> b * 10 ^ f. toFixed f x = fixed_str f n"
proof (intro exI conjI)
  have "x * 10 ^ f \<le> of_nat (b * 10 ^ f)" using assms(2) by simp
  then have "\<lfloor>x * 10 ^ f + 1 / 2\<rfloor> \<le> int (b * 10 ^ f)" by linarith
  then show "nat \<lfloor>x * 10 ^ f + 1 / 2\<rfloor> \<le> b * 10 ^ f" by (simp add: nat_le_iff)
  show "toFixed f x = fixed_str f (nat \<lfloor>x * 10 ^ f + 1 / 2\<rfloor>)" using assms(1) by (simp add: toFixed_def)
qed

end
