(* ===== verification/UrlParams.thy ===== *)
theory UrlParams
  imports JsText
begin

text \<open>
  Query strings. \<open>URLSearchParams\<close> writes its entries as
  \<open>application/x-www-form-urlencoded\<close>: the UTF-8 bytes of every name and value, a space as
  \<open>+\<close> and every other byte than letters, digits and \<open>*-._\<close> as \<open>%XX\<close>. The other side of the
  wire is Go's \<open>r.URL.Query()\<close>, read by \<open>GetLogs\<close> in \<open>internal/api/handlers.go\<close>, whose strings
  are bytes. The round trip below is what makes the filters of the page the filters of the query.
\<close>

type_synonym bytes = "8 word list"

subsection \<open>UTF-8\<close>

definition utf8_cp :: "nat \<Rightarrow> bytes" where
  "utf8_cp c =
     (if c < 0x80 then [of_nat c]
      else if c < 0x800 then [of_nat (0xC0 + c div 64), of_nat (0x80 + c mod 64)]
      else if c < 0x10000 then
        [of_nat (0xE0 + c div 4096), of_nat (0x80 + c div 64 mod 64), of_nat (0x80 + c mod 64)]
      else
        [of_nat (0xF0 + c div 262144), of_nat (0x80 + c div 4096 mod 64),
         of_nat (0x80 + c div 64 mod 64), of_nat (0x80 + c mod 64)])"

definition is_high :: "16 word \<Rightarrow> bool" where
  "is_high u \<longleftrightarrow> 0xD800 \<le> u \<and> u < 0xDC00"

definition is_low :: "16 word \<Rightarrow> bool" where
  "is_low u \<longleftrightarrow> 0xDC00 \<le> u \<and> u < 0xE000"

text \<open>A surrogate without its partner becomes U+FFFD.\<close>

fun utf8 :: "jsstr \<Rightarrow> bytes" where
  "utf8 [] = []"
| "utf8 (u # us) =
     (if is_high u then
        (case us of
           v # vs \<Rightarrow>
             if is_low v
             then utf8_cp (0x10000 + (unat u - 0xD800) * 1024 + (unat v - 0xDC00)) @ utf8 vs
             else utf8_cp 0xFFFD @ utf8 us
         | [] \<Rightarrow> utf8_cp 0xFFFD)
      else if is_low u then utf8_cp 0xFFFD @ utf8 us
      else utf8_cp (unat u) @ utf8 us)"

declare utf8.simps [simp del]

lemma ucast_ucast_byte [simp]: "ucast (ucast (b :: 8 word) :: 16 word) = b"
  by transfer simp

lemma unat_unit [simp]: "unat (ucast (b :: 8 word) :: 16 word) = unat b"
  by transfer simp

lemma utf8_ascii:
  assumes "\<forall>u \<in> set s. unat u < 0x80"
  shows "utf8 s = map ucast s"
  using assms
proof (induction s)
  case (Cons u us)
  then have u: "\<not> is_high u" "\<not> is_low u" "unat u < 0x80"
    by (simp_all add: is_high_def is_low_def word_le_nat_alt)
  then have "utf8_cp (unat u) = [ucast u]" by (simp add: utf8_cp_def unsigned_of_nat)
  moreover have "utf8 us = map ucast us" using Cons by simp
  ultimately show ?case by (simp only: utf8.simps u(1,2) if_False list.map) simp
qed (simp add: utf8.simps)

subsection \<open>Percent encoding\<close>

definition hex_upper :: "nat \<Rightarrow> 16 word" where
  "hex_upper n = (if n < 10 then of_nat (48 + n) else of_nat (55 + n))"

definition url_safe :: "8 word \<Rightarrow> bool" where
  "url_safe b \<longleftrightarrow>
     (let n = unat b
      in 48 \<le> n \<and> n \<le> 57 \<or> 65 \<le> n \<and> n \<le> 90 \<or> 97 \<le> n \<and> n \<le> 122 \<or> n \<in> {0x2A, 0x2D, 0x2E, 0x5F})"

definition url_byte :: "8 word \<Rightarrow> jsstr" where
  "url_byte b =
     (if url_safe b then [ucast b]
      else if b = 0x20 then [0x2B]
      else [0x25, hex_upper (unat b div 16), hex_upper (unat b mod 16)])"

definition url_encode :: "jsstr \<Rightarrow> jsstr" where
  "url_encode s = concat (map url_byte (utf8 s))"

text \<open>\<open>URLSearchParams\<close> in a template string, for entries set in this order.\<close>

definition query_string :: "(jsstr \<times> jsstr) list \<Rightarrow> jsstr" where
  "query_string ps = js_join [0x26] (map (\<lambda>(k, v). url_encode k @ [0x3D] @ url_encode v) ps)"

subsection \<open>The server's reading\<close>

definition unhex :: "16 word \<Rightarrow> nat option" where
  "unhex u =
     (let n = unat u
      in if 48 \<le> n \<and> n \<le> 57 then Some (n - 48)
         else if 97 \<le> n \<and> n \<le> 102 then Some (n - 87)
         else if 65 \<le> n \<and> n \<le> 70 then Some (n - 55)
         else None)"

fun query_unescape :: "jsstr \<Rightarrow> bytes option" where
  "query_unescape [] = Some []"
| "query_unescape (u # us) =
     (if u = 0x25 then
        (case us of
           a # b # vs \<Rightarrow>
             (case (unhex a, unhex b) of
                (Some x, Some y) \<Rightarrow> map_option ((#) (of_nat (16 * x + y))) (query_unescape vs)
              | _ \<Rightarrow> None)
         | _ \<Rightarrow> None)
      else if u = 0x2B then map_option ((#) 0x20) (query_unescape us)
      else map_option ((#) (ucast u)) (query_unescape us))"

declare query_unescape.simps [simp del]

definition query_part :: "jsstr \<Rightarrow> (bytes \<times> bytes) list" where
  "query_part p =
     (if p = [] \<or> 0x3B \<in> set p then []
      else case (query_unescape (takeWhile (\<lambda>u. u \<noteq> 0x3D) p),
                 query_unescape (drop 1 (dropWhile (\<lambda>u. u \<noteq> 0x3D) p))) of
             (Some k, Some v) \<Rightarrow> [(k, v)]
           | _ \<Rightarrow> [])"

definition parse_query :: "jsstr \<Rightarrow> (bytes \<times> bytes) list" where
  "parse_query s = concat (map query_part (js_split 0x26 s))"

definition query_get :: "bytes \<Rightarrow> jsstr \<Rightarrow> bytes" where
  "query_get k s = (case map_of (parse_query s) k of None \<Rightarrow> [] | Some v \<Rightarrow> v)"

subsection \<open>Round trip\<close>

lemma unat_of_small: "n < 65536 \<Longrightarrow> unat (of_nat n :: 16 word) = n"
  by (simp add: unsigned_of_nat take_bit_nat_eq_self_iff)

lemma unat_hex_upper: "n < 16 \<Longrightarrow> unat (hex_upper n) = (if n < 10 then 48 + n else 55 + n)"
  unfolding hex_upper_def
  using unat_of_small [of "48 + n"] unat_of_small [of "55 + n"] by simp

lemma unhex_hex_upper: "n < 16 \<Longrightarrow> unhex (hex_upper n) = Some n"
  by (simp add: unhex_def unat_hex_upper Let_def)

lemma unit_eqI: "unat (u :: 16 word) \<noteq> unat v \<Longrightarrow> u \<noteq> v"
  by blast

lemma nibble_bounds: "unat (b :: 8 word) div 16 < 16" "unat (b :: 8 word) mod 16 < 16"
proof -
  have "unat b < 2 ^ LENGTH(8)" by (rule unsigned_less)
  then show "unat b div 16 < 16" by simp
qed simp

lemma unescape_byte: "query_unescape (url_byte b @ s) = map_option ((#) b) (query_unescape s)"
proof (cases "url_safe b")
  case True
  then have n: "unat b \<noteq> 0x25" "unat b \<noteq> 0x2B" by (auto simp: url_safe_def Let_def)
  then have "(ucast b :: 16 word) \<noteq> 0x25" "(ucast b :: 16 word) \<noteq> 0x2B"
    by (auto intro!: unit_eqI)
  with True show ?thesis by (simp add: url_byte_def query_unescape.simps(2))
next
  case False
  show ?thesis
  proof (cases "b = 0x20")
    case True
    with False show ?thesis by (simp add: url_byte_def query_unescape.simps(2))
  next
    case other: False
    have "of_nat (16 * (unat b div 16) + unat b mod 16) = b" by (simp only: mult_div_mod_eq) simp
    with False other show ?thesis
      by (simp add: url_byte_def query_unescape.simps(2) unhex_hex_upper nibble_bounds)
  qed
qed

lemma unescape_bytes: "query_unescape (concat (map url_byte bs)) = Some bs"
  by (induction bs) (simp_all add: query_unescape.simps(1) unescape_byte)

lemma unescape_encode [simp]: "query_unescape (url_encode s) = Some (utf8 s)"
  by (simp add: url_encode_def unescape_bytes)

lemma hex_upper_units: "n < 16 \<Longrightarrow> unat (hex_upper n) \<in> {48..57} \<union> {65..70}"
  by (simp add: unat_hex_upper)

lemma url_byte_units:
  assumes "u \<in> set (url_byte b)"
  shows "unat u \<notin> {0x26, 0x3B, 0x3D}"
proof (cases "url_safe b")
  case True
  then have "unat b \<notin> {0x26, 0x3B, 0x3D}" by (auto simp: url_safe_def Let_def)
  with True assms show ?thesis by (simp add: url_byte_def)
next
  case False
  with assms have "unat u \<in> {0x2B, 0x25} \<or> unat u \<in> {48..57} \<union> {65..70}"
    using hex_upper_units [OF nibble_bounds(1) [of b]] hex_upper_units [OF nibble_bounds(2) [of b]]
    by (auto simp: url_byte_def split: if_splits)
  then show ?thesis by auto
qed

lemma url_encode_units:
  "0x26 \<notin> set (url_encode s)" "0x3B \<notin> set (url_encode s)" "0x3D \<notin> set (url_encode s)"
  by (auto simp: url_encode_def dest: url_byte_units)

lemma query_part_entry: "query_part (url_encode k @ [0x3D] @ url_encode v) = [(utf8 k, utf8 v)]"
proof -
  have "\<forall>u \<in> set (url_encode k). u \<noteq> 0x3D" using url_encode_units(3) [of k] by blast
  then have "takeWhile (\<lambda>u. u \<noteq> 0x3D) (url_encode k @ [0x3D] @ url_encode v) = url_encode k"
    and "dropWhile (\<lambda>u. u \<noteq> 0x3D) (url_encode k @ [0x3D] @ url_encode v) = [0x3D] @ url_encode v"
    by (simp_all add: takeWhile_append dropWhile_append)
  then show ?thesis using url_encode_units(2) by (simp add: query_part_def)
qed

lemma parse_query_string: "parse_query (query_string ps) = map (\<lambda>(k, v). (utf8 k, utf8 v)) ps"
proof (cases "ps = []")
  case True
  then show ?thesis by (simp add: parse_query_def query_string_def query_part_def)
next
  case False
  let ?parts = "map (\<lambda>(k, v). url_encode k @ [0x3D] @ url_encode v) ps"
  have "js_split 0x26 (query_string ps) = ?parts"
    unfolding query_string_def
    by (rule js_split_join) (use False url_encode_units(1) in auto)
  moreover have "concat (map query_part ?parts) = map (\<lambda>(k, v). (utf8 k, utf8 v)) ps"
    by (induction ps) (auto simp: query_part_entry [simplified])
  ultimately show ?thesis by (simp add: parse_query_def)
qed

end
