(* ===== verification/LogsPage.thy ===== *)
theory LogsPage
  imports Shared JsNumber UrlParams
begin

text \<open>
  The log page, \<open>web/src/pages/Logs.tsx\<close>: five filters and pages of twenty rows. Every change of a
  filter or of the page runs the effect, which asks for the page again; the request captures the
  values of that render, kept in the continuation. The table is drawn by @tanstack/react-table, whose
  row model is a parameter \<open>core_rows\<close>: its documented behaviour is one row per entry, in the order of
  the data.

  \<open>res.data.data\<close> is an array or null and \<open>res.data.total\<close> a number or missing; a null body throws
  where it is read, which the handler treats as an error.
\<close>

record log_entry =
  le_queried_at :: jsstr
  le_client_ip :: "jsstr option"
  le_domain :: jsstr
  le_query_type :: int
  le_action :: int
  le_response_ms :: "rat option"
  le_upstream :: jsstr

text \<open>The dependencies of the effect: offset, domain, action, client address, first and last date.\<close>

type_synonym log_deps = "int \<times> jsstr \<times> jsstr \<times> jsstr \<times> jsstr \<times> jsstr"

datatype logs_cont = KLogs log_deps

record logs_state = "logs_cont async" +
  lo_data :: "log_entry list"
  lo_total :: int
  lo_offset :: int
  lo_domain :: jsstr
  lo_action :: jsstr
  lo_clientIP :: jsstr
  lo_dateFrom :: jsstr
  lo_dateTo :: jsstr

definition limit :: int where
  "limit = 20"

definition logs_deps :: "logs_state \<Rightarrow> log_deps" where
  "logs_deps s =
     (lo_offset s, lo_domain s, lo_action s, lo_clientIP s, lo_dateFrom s, lo_dateTo s)"

subsection \<open>Requests\<close>

definition param_if :: "jsstr \<Rightarrow> jsstr \<Rightarrow> (jsstr \<times> jsstr) list" where
  "param_if k v = (if v \<noteq> [] then [(k, v)] else [])"

fun logs_params :: "log_deps \<Rightarrow> (jsstr \<times> jsstr) list" where
  "logs_params (offset, domain, action, clientIP, dateFrom, dateTo) =
     [(js ''limit'', num_str limit), (js ''offset'', num_str offset)] @
     param_if (js ''domain'') domain @ param_if (js ''action'') action @
     param_if (js ''client_ip'') clientIP @ param_if (js ''date_from'') dateFrom @
     param_if (js ''date_to'') dateTo"

definition logs_url_path :: jsstr where
  "logs_url_path = js ''/logs?''"

definition logs_get :: "log_deps \<Rightarrow> request" where
  "logs_get d = mk_request GET (logs_url_path @ query_string (logs_params d)) None"

definition fetchLogs :: "logs_state \<Rightarrow> logs_state" where
  "fetchLogs s = issue (logs_get (logs_deps s)) (KLogs (logs_deps s)) s"

subsection \<open>Handlers\<close>

definition logs_init :: logs_state where
  "logs_init = fetchLogs
     \<lparr>inflight = [], timers = 0, lo_data = [], lo_total = 0, lo_offset = 0, lo_domain = [],
      lo_action = [], lo_clientIP = [], lo_dateFrom = [], lo_dateTo = []\<rparr>"

text \<open>The render after an event: the effect runs when a dependency has changed.\<close>

definition logs_effect :: "logs_state \<Rightarrow> logs_state \<Rightarrow> logs_state" where
  "logs_effect old new = (if logs_deps new \<noteq> logs_deps old then fetchLogs new else new)"

datatype logs_action = OSearch | OPrev | ONext
datatype logs_field = ODomain | OClientIP | OAction | ODateFrom | ODateTo

fun logs_act :: "logs_action \<Rightarrow> bool \<Rightarrow> logs_state \<Rightarrow> logs_state" where
  "logs_act OSearch ok s = fetchLogs s"
| "logs_act OPrev ok s = logs_effect s (s\<lparr>lo_offset := max 0 (lo_offset s - limit)\<rparr>)"
| "logs_act ONext ok s = logs_effect s (s\<lparr>lo_offset := lo_offset s + limit\<rparr>)"

fun logs_set_field :: "logs_field \<Rightarrow> jsstr \<Rightarrow> logs_state \<Rightarrow> logs_state" where
  "logs_set_field ODomain v s = s\<lparr>lo_domain := v\<rparr>"
| "logs_set_field OClientIP v s = s\<lparr>lo_clientIP := v\<rparr>"
| "logs_set_field OAction v s = s\<lparr>lo_action := v\<rparr>"
| "logs_set_field ODateFrom v s = s\<lparr>lo_dateFrom := v\<rparr>"
| "logs_set_field ODateTo v s = s\<lparr>lo_dateTo := v\<rparr>"

definition logs_edit :: "logs_field \<Rightarrow> jsstr \<Rightarrow> logs_state \<Rightarrow> logs_state" where
  "logs_edit f v s = logs_effect s ((logs_set_field f v s)\<lparr>lo_offset := 0\<rparr>)"

datatype logs_reply = ORLogs "log_entry list option" "int option" | ORError

fun logs_resume :: "logs_cont \<Rightarrow> logs_reply \<Rightarrow> logs_state \<Rightarrow> logs_state option" where
  "logs_resume (KLogs d) (ORLogs es n) s =
     Some (s\<lparr>lo_data := (case es of None \<Rightarrow> [] | Some x \<Rightarrow> x),
             lo_total := (case n of None \<Rightarrow> 0 | Some x \<Rightarrow> x)\<rparr>)"
| "logs_resume (KLogs d) ORError s = Some s"

definition logs_tick :: "logs_state \<Rightarrow> logs_state" where
  "logs_tick s = s"

subsection \<open>View\<close>

definition queryTypes :: "(int \<times> jsstr) list" where
  "queryTypes =
     [(1, js ''A''), (5, js ''CNAME''), (15, js ''MX''), (28, js ''AAAA''), (2, js ''NS''), (16, js ''TXT'')]"

definition actionLabels :: "(int \<times> jsstr \<times> jsstr) list" where
  "actionLabels =
     [(0, js ''Permitido'', js ''bg-green-100 text-green-700''),
      (1, js ''Bloqueado'', js ''bg-red-100 text-red-700''),
      (2, js ''Cache'', js ''bg-blue-100 text-blue-700'')]"

definition query_type_cell :: "int \<Rightarrow> jsstr" where
  "query_type_cell t = (case map_of queryTypes t of None \<Rightarrow> num_str t | Some l \<Rightarrow> l)"

definition action_cell :: "int \<Rightarrow> (logs_field, logs_action) node" where
  "action_cell n =
     (let (l, color) = (case map_of actionLabels n of None \<Rightarrow> (js ''?'', js ''bg-gray-100'') | Some x \<Rightarrow> x)
      in Elem TSpan [ClassName (js ''px-2 py-1 rounded-full text-xs font-medium '' @ color)] [Text l])"

text \<open>\<open>info.getValue()?.replace('/32', '') || '-'\<close>\<close>

definition client_ip_cell :: "jsstr option \<Rightarrow> jsstr" where
  "client_ip_cell v =
     (case v of
        None \<Rightarrow> js ''-''
      | Some ip \<Rightarrow> let r = js_replace (js ''/32'') [] ip in if r = [] then js ''-'' else r)"

definition response_cell :: "rat option \<Rightarrow> jsstr" where
  "response_cell v = (case v of None \<Rightarrow> js ''0'' | Some x \<Rightarrow> toFixed 1 x) @ js ''ms''"

definition columns :: "(jsstr \<times> (log_entry \<Rightarrow> (logs_field, logs_action) node)) list" where
  "columns =
     [(js ''Data/Hora'', \<lambda>e. DateText (le_queried_at e)),
      (js ''IP Cliente'', \<lambda>e. Text (client_ip_cell (le_client_ip e))),
      (js ''Dom%EDnio'', \<lambda>e. Text (le_domain e)),
      (js ''Tipo'', \<lambda>e. Text (query_type_cell (le_query_type e))),
      (js ''A%E7%E3o'', \<lambda>e. action_cell (le_action e)),
      (js ''Lat%EAncia'', \<lambda>e. Text (response_cell (le_response_ms e))),
      (js ''Upstream'', \<lambda>e. Text (le_upstream e))]"

definition totalPages :: "int \<Rightarrow> int" where
  "totalPages n = \<lceil>js_div (of_int n) (of_int limit)\<rceil>"

definition currentPage :: "int \<Rightarrow> int" where
  "currentPage offset = \<lfloor>js_div (of_int offset) (of_int limit)\<rfloor> + 1"

definition logs_filters :: "logs_state \<Rightarrow> (logs_field, logs_action) node" where
  "logs_filters s =
     Elem TDiv []
       [text_input (js ''text'') (lo_domain s) ODomain False,
        text_input (js ''text'') (lo_clientIP s) OClientIP False,
        select_input (lo_action s) OAction
          [([], js ''Todas as a%E7%F5es''), (js ''0'', js ''Permitido''), (js ''1'', js ''Bloqueado''),
           (js ''2'', js ''Cache'')],
        text_input (js ''datetime-local'') (lo_dateFrom s) ODateFrom False,
        text_input (js ''datetime-local'') (lo_dateTo s) ODateTo False,
        Elem TButton [OnClick OSearch] [Text (js ''Buscar'')]]"

definition logs_row :: "log_entry \<Rightarrow> (logs_field, logs_action) node" where
  "logs_row e = Elem TTr [] (map (\<lambda>c. Elem TTd [] [snd c e]) columns)"

definition logs_table ::
  "(log_entry list \<Rightarrow> log_entry list) \<Rightarrow> logs_state \<Rightarrow> (logs_field, logs_action) node" where
  "logs_table core_rows s =
     Elem TTable []
       [Elem TThead [] [Elem TTr [] (map (\<lambda>c. Elem TTh [] [Text (fst c)]) columns)],
        Elem TTbody []
          (map logs_row (core_rows (lo_data s)) @
           (if lo_data s = []
            then [Elem TTr [] [Elem TTd [ColSpan (length columns)] [Text (js ''Nenhum log encontrado'')]]]
            else []))]"

definition page_text :: "logs_state \<Rightarrow> jsstr" where
  "page_text s =
     js ''P%E1gina '' @ num_str (currentPage (lo_offset s)) @ js '' de '' @
     num_str (if totalPages (lo_total s) = 0 then 1 else totalPages (lo_total s))"

definition logs_pagination :: "logs_state \<Rightarrow> (logs_field, logs_action) node" where
  "logs_pagination s =
     Elem TDiv []
       [Elem TSpan [] [Text (num_str (lo_total s) @ js '' registros'')],
        Elem TDiv []
          [Elem TButton [Disabled (lo_offset s = 0), OnClick OPrev] [Text (js ''Anterior'')],
           Elem TSpan [] [Text (page_text s)],
           Elem TButton [Disabled (lo_total s \<le> lo_offset s + limit), OnClick ONext]
             [Text (js ''Pr%F3xima'')]]]"

definition logs_view ::
  "(log_entry list \<Rightarrow> log_entry list) \<Rightarrow> logs_state \<Rightarrow> (logs_field, logs_action) node option" where
  "logs_view core_rows s =
     Some (Elem TDiv []
       [Elem TH2 [] [Text (js ''Logs DNS'')], logs_filters s,
        Elem TDiv [] [logs_table core_rows s, logs_pagination s]])"

definition logs_step ::
  "(log_entry list \<Rightarrow> log_entry list) \<Rightarrow> (logs_action, logs_field, logs_reply) page_event \<Rightarrow>
   logs_state \<Rightarrow> logs_state option" where
  "logs_step core_rows = page_step (logs_view core_rows) logs_act logs_edit logs_resume logs_tick"

subsection \<open>What the view offers\<close>

lemma logs_filters_view [view_simps]:
  "clicks (logs_filters s) = [OSearch]" "submits (logs_filters s) = []"
  by (simp_all add: logs_filters_def view_simps attr_defs)

lemma logs_row_view [view_simps]:
  "clicks (logs_row e) = []" "submits (logs_row e) = []" "input_fields (logs_row e) = []"
  by (simp_all add: logs_row_def columns_def action_cell_def Let_def attr_defs split: prod.split)

lemma logs_table_view [view_simps]: "clicks (logs_table f s) = []" "submits (logs_table f s) = []"
  by (simp_all add: logs_table_def view_simps attr_defs o_def set_concat_map_empty)

lemma logs_pagination_view [view_simps]:
  "clicks (logs_pagination s) =
     (if lo_offset s = 0 then [] else [OPrev]) @
     (if lo_total s \<le> lo_offset s + limit then [] else [ONext])"
  "submits (logs_pagination s) = []"
  by (simp_all add: logs_pagination_def attr_defs)

lemma logs_view_offers [view_simps]:
  "view_clicks (logs_view f s) =
     OSearch # (if lo_offset s = 0 then [] else [OPrev]) @
     (if lo_total s \<le> lo_offset s + limit then [] else [ONext])"
  "view_submits (logs_view f s) = []"
  by (simp_all add: logs_view_def view_simps attr_defs)

subsection \<open>Invariant\<close>

text \<open>Offsets are pages: the page shown and every page asked for start at a multiple of the limit.\<close>

definition page_start :: "int \<Rightarrow> bool" where
  "page_start n \<longleftrightarrow> 0 \<le> n \<and> n mod limit = 0"

definition logs_call :: "request \<times> logs_cont \<Rightarrow> bool" where
  "logs_call c \<longleftrightarrow> (\<exists>d. c = (logs_get d, KLogs d) \<and> page_start (fst d))"

definition logs_inv :: "logs_state \<Rightarrow> bool" where
  "logs_inv s \<longleftrightarrow> page_start (lo_offset s) \<and> (\<forall>c \<in> set (inflight s). logs_call c)"

lemma page_start_zero [simp]: "page_start 0"
  by (simp add: page_start_def)

lemma page_start_next: "page_start n \<Longrightarrow> page_start (n + limit)"
  by (simp add: page_start_def limit_def mod_add_right_eq)

lemma page_start_prev: "page_start n \<Longrightarrow> page_start (max 0 (n - limit))"
  by (auto simp: page_start_def limit_def max_def mod_diff_right_eq)

lemma page_start_ge: "page_start n \<Longrightarrow> n \<noteq> 0 \<Longrightarrow> limit \<le> n"
  using zmod_trivial_iff [of n limit] by (auto simp: page_start_def limit_def)

lemma logs_inv_fetch: "logs_inv s \<Longrightarrow> logs_inv (fetchLogs s)"
  by (auto simp: logs_inv_def fetchLogs_def issue_def logs_call_def logs_deps_def)

lemma logs_inv_effect: "logs_inv new \<Longrightarrow> logs_inv (logs_effect old new)"
  by (simp add: logs_effect_def logs_inv_fetch)

lemma logs_set_field_sel [simp]:
  "inflight (logs_set_field f v s) = inflight s" "timers (logs_set_field f v s) = timers s"
  "lo_data (logs_set_field f v s) = lo_data s" "lo_total (logs_set_field f v s) = lo_total s"
  by (cases f; simp)+

lemma logs_inv_init: "logs_inv logs_init"
  unfolding logs_init_def by (rule logs_inv_fetch) (simp add: logs_inv_def)

lemma logs_inv_act: "logs_inv s \<Longrightarrow> logs_inv (logs_act a ok s)"
  by (cases a)
     (auto simp: logs_inv_fetch intro!: logs_inv_effect, auto simp: logs_inv_def page_start_next page_start_prev)

lemma logs_inv_edit: "logs_inv s \<Longrightarrow> logs_inv (logs_edit f v s)"
  unfolding logs_edit_def by (rule logs_inv_effect) (simp add: logs_inv_def)

lemma logs_resume_frame:
  assumes "logs_resume k r s = Some t"
  shows "inflight t = inflight s" "logs_deps t = logs_deps s" "lo_offset t = lo_offset s"
  using assms by (cases k; cases r; auto simp: logs_deps_def)+

lemma logs_inv_resume:
  assumes "logs_inv s" and "logs_resume k r (take_reply i s) = Some t"
  shows "logs_inv t"
proof -
  have "\<forall>c \<in> set (inflight (take_reply i s)). logs_call c"
    by (rule ball_take_reply) (use assms(1) in \<open>simp add: logs_inv_def\<close>)
  moreover have "lo_offset (take_reply i s) = lo_offset s" by (simp add: take_reply_def)
  ultimately show ?thesis
    using assms(1) logs_resume_frame [OF assms(2)] by (simp add: logs_inv_def)
qed

lemma logs_inv_tick: "logs_inv s \<Longrightarrow> logs_inv (logs_tick (fire_timer s))"
  by (simp add: logs_inv_def logs_tick_def fire_timer_def)

interpretation logs: page "logs_view core_rows" logs_act logs_edit logs_resume logs_tick logs_init
  logs_inv for core_rows
  by unfold_locales
     (rule logs_inv_init, erule logs_inv_act, erule logs_inv_edit, erule logs_inv_resume, assumption,
      erule logs_inv_tick)

subsection \<open>Replies in the order of the requests\<close>

text \<open>
  \<open>srv\<close> is what the server answers to a query, an error or rows. In these runs every reply is that of the
  oldest request, and the last request made is always for the values the page shows.
\<close>

inductive in_order ::
  "(log_deps \<Rightarrow> logs_reply) \<Rightarrow> (log_entry list \<Rightarrow> log_entry list) \<Rightarrow> logs_state \<Rightarrow> bool"
  for srv core_rows where
  order_start: "in_order srv core_rows logs_init"
| order_user: "in_order srv core_rows s \<Longrightarrow> \<forall>i r. e \<noteq> Reply i r \<Longrightarrow> logs_step core_rows e s = Some t \<Longrightarrow>
    in_order srv core_rows t"
| order_reply: "in_order srv core_rows s \<Longrightarrow> inflight s = (q, KLogs d) # cs \<Longrightarrow>
    logs_step core_rows (Reply 0 (srv d)) s = Some t \<Longrightarrow> in_order srv core_rows t"

fun shows_reply :: "logs_reply \<Rightarrow> log_entry list \<Rightarrow> int \<Rightarrow> bool" where
  "shows_reply (ORLogs es n) rows m \<longleftrightarrow>
     rows = (case es of None \<Rightarrow> [] | Some x \<Rightarrow> x) \<and> m = (case n of None \<Rightarrow> 0 | Some x \<Rightarrow> x)"
| "shows_reply ORError rows m \<longleftrightarrow> True"

definition up_to_date :: "(log_deps \<Rightarrow> logs_reply) \<Rightarrow> logs_state \<Rightarrow> bool" where
  "up_to_date srv s \<longleftrightarrow>
     (if inflight s = [] then shows_reply (srv (logs_deps s)) (lo_data s) (lo_total s)
      else snd (last (inflight s)) = KLogs (logs_deps s))"

lemma up_to_date_fetch: "up_to_date srv (fetchLogs s)"
  by (simp add: up_to_date_def fetchLogs_def issue_def logs_deps_def)

lemma up_to_date_effect:
  assumes "up_to_date srv s" and "inflight new = inflight s" and "lo_data new = lo_data s"
    and "lo_total new = lo_total s"
  shows "up_to_date srv (logs_effect s new)"
  using assms by (auto simp: logs_effect_def up_to_date_fetch) (simp add: up_to_date_def)

lemma up_to_date_user:
  assumes "up_to_date srv s" and "\<forall>i r. e \<noteq> Reply i r" and "logs_step core_rows e s = Some t"
  shows "up_to_date srv t"
  using assms(3) unfolding logs_step_def
proof (cases rule: page_step_cases)
  case (click a ok)
  with assms(1) show ?thesis by (cases a) (auto simp: up_to_date_fetch intro: up_to_date_effect)
next
  case (submit a)
  then show ?thesis by (simp add: view_simps)
next
  case (edit f v)
  with assms(1) show ?thesis by (auto simp: logs_edit_def intro!: up_to_date_effect)
next
  case (tick)
  with assms(1) show ?thesis
    by (auto simp: up_to_date_def logs_tick_def fire_timer_def logs_deps_def split: if_splits)
qed (use assms(2) in blast)

lemma up_to_date_reply:
  assumes "up_to_date srv s" and "inflight s = (q, KLogs d) # cs"
    and "logs_step core_rows (Reply 0 (srv d)) s = Some t"
  shows "up_to_date srv t"
  using assms
  by (cases "srv d")
     (auto simp: up_to_date_def logs_step_def page_step_def take_reply_def remove_nth_def logs_deps_def
        split: if_splits)

lemma in_order_up_to_date: "in_order srv core_rows s \<Longrightarrow> up_to_date srv s"
proof (induction rule: in_order.induct)
  case order_start
  show ?case unfolding logs_init_def by (rule up_to_date_fetch)
qed (auto intro: up_to_date_user up_to_date_reply)

subsection \<open>Properties\<close>

text \<open>Pagination: in every reachable state the offset is a page boundary, one can go back exactly when
  not on the first page, and one can go on exactly when there are rows after the page.\<close>

theorem logs_pagination_bounds:
  assumes "reachable (logs_step core_rows) logs_init s"
  shows "0 \<le> lo_offset s \<and> lo_offset s mod 20 = 0 \<and>
    (OPrev \<in> set (view_clicks (logs_view core_rows s)) \<longleftrightarrow> 0 < lo_offset s) \<and>
    (ONext \<in> set (view_clicks (logs_view core_rows s)) \<longleftrightarrow> lo_offset s + 20 < lo_total s)"
proof -
  have "logs_inv s" using assms unfolding logs_step_def by (rule logs.reachable_inv)
  then have "page_start (lo_offset s)" by (simp add: logs_inv_def)
  then show ?thesis by (auto simp: view_simps page_start_def limit_def)
qed

definition logs_demo :: "(logs_action, logs_field, logs_reply) page_event list" where
  "logs_demo = [Reply 0 (ORLogs (Some []) (Some 45)), Click ONext True]"

lemmas logs_eval = logs_step_def page_step_def logs_init_def fetchLogs_def issue_def logs_effect_def
  logs_deps_def take_reply_def remove_nth_def view_simps limit_def logs_edit_def

lemma logs_demo_run:
  "\<exists>s. run (logs_step id) logs_demo logs_init = Some s \<and> lo_offset s = 20 \<and> lo_total s = 45"
  by (simp add: logs_demo_def logs_eval)

theorem logs_pagination_bounds_witness:
  "\<exists>s. run (logs_step id) logs_demo logs_init = Some s \<and>
     OPrev \<in> set (view_clicks (logs_view id s)) \<and> ONext \<in> set (view_clicks (logs_view id s))"
proof -
  obtain s where s: "run (logs_step id) logs_demo logs_init = Some s" "lo_offset s = 20" "lo_total s = 45"
    using logs_demo_run by blast
  from logs_pagination_bounds [OF run_reachable [OF s(1)]] s show ?thesis by auto
qed

text \<open>The page counter is exact below \<open>2 ^ 53\<close> although it is computed with doubles: the current
  page is \<open>offset / 20 + 1\<close>, the number of pages is the total over twenty rounded up, the current page
  never exceeds the last one when the offset is below the total, and it is the last one exactly when
  no rows follow.\<close>

theorem page_counter_exact:
  assumes "page_start offset" and "offset < 2 ^ 53" and "0 \<le> n" and "n < 2 ^ 53"
    and "offset < n"
  shows "currentPage offset = offset div 20 + 1 \<and> totalPages n = (n + 19) div 20 \<and>
    1 \<le> currentPage offset \<and> currentPage offset \<le> totalPages n \<and>
    (currentPage offset = totalPages n \<longleftrightarrow> n \<le> offset + 20)"
proof -
  have "currentPage offset = offset div 20 + 1"
    using js_div_floor [of offset 20] assms(1,2) by (simp add: currentPage_def limit_def page_start_def)
  moreover have "totalPages n = (n + 19) div 20"
    using js_div_ceil [of n 20] assms(3,4) by (simp add: totalPages_def limit_def)
  moreover have "0 \<le> offset" "offset mod 20 = 0" using assms(1) by (simp_all add: page_start_def limit_def)
  then obtain k where "offset = 20 * k" "0 \<le> k" by auto
  ultimately show ?thesis using assms(5) by auto
qed

theorem page_counter_exact_witness: "currentPage 40 = 3 \<and> totalPages 45 = 3"
  using page_counter_exact [of 40 45] by (simp add: page_start_def limit_def)

text \<open>The values that the server gets for the parameters of a request.\<close>

lemma query_values:
  "let q = query_string (logs_params (offset, domain, action, clientIP, dateFrom, dateTo))
   in query_get (utf8 (js ''limit'')) q = utf8 (num_str 20) \<and>
      query_get (utf8 (js ''offset'')) q = utf8 (num_str offset) \<and>
      query_get (utf8 (js ''domain'')) q = utf8 domain \<and>
      query_get (utf8 (js ''action'')) q = utf8 action \<and>
      query_get (utf8 (js ''client_ip'')) q = utf8 clientIP \<and>
      query_get (utf8 (js ''date_from'')) q = utf8 dateFrom \<and>
      query_get (utf8 (js ''date_to'')) q = utf8 dateTo"
proof -
  have keys: "utf8 (js ''limit'') = [108, 105, 109, 105, 116]"
    "utf8 (js ''offset'') = [111, 102, 102, 115, 101, 116]"
    "utf8 (js ''domain'') = [100, 111, 109, 97, 105, 110]"
    "utf8 (js ''action'') = [97, 99, 116, 105, 111, 110]"
    "utf8 (js ''client_ip'') = [99, 108, 105, 101, 110, 116, 95, 105, 112]"
    "utf8 (js ''date_from'') = [100, 97, 116, 101, 95, 102, 114, 111, 109]"
    "utf8 (js ''date_to'') = [100, 97, 116, 101, 95, 116, 111]"
    by (simp_all add: utf8_ascii js.simps)
  have "utf8 [] = []" by (simp add: utf8.simps)
  then show ?thesis
    by (auto simp: Let_def parse_query_string query_get_def param_if_def keys limit_def)
qed

text \<open>The server sees the filters as typed: parsing the query string of a request gives back the limit,
  the offset and every filter byte for byte in UTF-8, with \<open>&\<close>, \<open>=\<close>, spaces and accents in the text, and
  an empty filter reads as no filter.\<close>

theorem logs_query_roundtrip:
  "let d = (offset, domain, action, clientIP, dateFrom, dateTo);
       q = query_string (logs_params d)
   in req_url (logs_get d) = logs_url_path @ q \<and>
      parse_query q = map (\<lambda>(k, v). (utf8 k, utf8 v)) (logs_params d) \<and>
      query_get (utf8 (js ''limit'')) q = utf8 (num_str 20) \<and>
      query_get (utf8 (js ''offset'')) q = utf8 (num_str offset) \<and>
      query_get (utf8 (js ''domain'')) q = utf8 domain \<and>
      query_get (utf8 (js ''action'')) q = utf8 action \<and>
      query_get (utf8 (js ''client_ip'')) q = utf8 clientIP \<and>
      query_get (utf8 (js ''date_from'')) q = utf8 dateFrom \<and>
      query_get (utf8 (js ''date_to'')) q = utf8 dateTo"
  using query_values [of offset domain action clientIP dateFrom dateTo]
  by (simp add: Let_def logs_get_def parse_query_string)

text \<open>With replies in the order of the requests the page is right whenever nothing is in flight: it shows
  what the server answers to the filters and the page on the screen, whatever was typed and
  clicked in between.\<close>

theorem logs_in_order:
  assumes "in_order srv core_rows s" and "inflight s = []" and "srv (logs_deps s) = ORLogs (Some es) (Some n)"
  shows "lo_data s = es \<and> lo_total s = n"
  using in_order_up_to_date [OF assms(1)] assms(2,3) by (simp add: up_to_date_def)

theorem logs_in_order_witness:
  "\<exists>s. in_order (\<lambda>d. ORLogs (Some []) (Some 45)) id s \<and> inflight s = [] \<and> lo_data s = [] \<and> lo_total s = 45"
proof -
  let ?srv = "\<lambda>d :: log_deps. ORLogs (Some []) (Some 45)"
  obtain t where t: "logs_step id (Reply 0 (ORLogs (Some []) (Some 45))) logs_init = Some t" "inflight t = []"
    by (simp add: logs_eval)
  have "in_order ?srv id t"
    by (rule order_reply [OF order_start, where q = "logs_get (logs_deps logs_init)" and cs = "[]"
          and d = "logs_deps logs_init"])
       (use t(1) in \<open>simp_all add: logs_init_def fetchLogs_def issue_def logs_deps_def\<close>)
  with logs_in_order [OF this t(2) refl] t(2) show ?thesis by blast
qed

text \<open>Without that order the page can stay wrong: when the reply for an older filter arrives last, its
  rows remain on the screen under the newer filter with no request in flight.\<close>

theorem logs_stale_reply:
  "\<exists>t. run (logs_step core_rows)
       [Edit ODomain (js ''a''), Edit ODomain (js ''ab''),
        Reply 0 (ORLogs (Some old) (Some 1)), Reply 1 (ORLogs (Some new) (Some n)),
        Reply 0 (ORLogs (Some stale) (Some m))] logs_init = Some t \<and>
     inflight t = [] \<and> lo_domain t = js ''ab'' \<and> lo_data t = stale \<and> lo_total t = m"
  by (simp add: logs_eval logs_view_def logs_filters_def logs_table_def logs_pagination_def attr_defs
        can_type_iff js.simps)

text \<open>The client column: an address stored with the suffix of a single host is shown without it, any
  other address as it is, and a missing or empty one as a dash.\<close>

theorem client_ip_shown:
  assumes "0x2F \<notin> set ip" and "ip \<noteq> []"
  shows "client_ip_cell (Some (ip @ js ''/32'')) = ip \<and> client_ip_cell (Some ip) = ip \<and>
    client_ip_cell None = js ''-'' \<and> client_ip_cell (Some []) = js ''-''"
proof -
  have slash: "js ''/32'' = [0x2F, 0x33, 0x32]" by (simp add: js.simps)
  have "\<not> prefix (js ''/32'') (drop i (ip @ js ''/32''))" if il: "i < length ip" for i
  proof -
    obtain u us where u: "drop i ip = u # us" using Cons_nth_drop_Suc [OF il] by metis
    then have "u \<in> set ip" by (metis in_set_dropD list.set_intros(1))
    then have "u \<noteq> 0x2F" using assms(1) by blast
    then show ?thesis using il u by (simp add: slash)
  qed
  then have "js_replace (js ''/32'') [] (ip @ js ''/32'') = ip" by (simp add: js_replace_suffix)
  moreover have "\<not> js_includes (js ''/32'') ip"
    unfolding js_includes_sublist using assms(1) by (auto simp: slash sublist_def)
  then have "js_replace (js ''/32'') [] ip = ip" by (rule js_replace_absent)
  moreover have "js_replace (js ''/32'') [] [] = []" by (subst js_replace.simps) (simp add: slash)
  ultimately show ?thesis using assms(2) by (simp add: client_ip_cell_def)
qed

theorem client_ip_shown_witness:
  "client_ip_cell (Some (js ''10.0.0.7/32'')) = js ''10.0.0.7''"
  using client_ip_shown [of "js ''10.0.0.7''"] by (simp add: js.simps)

end
