(* ===== verification/DashboardPage.thy ===== *)
theory DashboardPage
  imports Shared JsNumber
begin

text \<open>
  The overview page, \<open>web/src/pages/Dashboard.tsx\<close>. Every poll asks for the metrics and the
  statistics at once and waits for both with \<open>Promise.all\<close>: a poll that fails shows the error at its
  first failure and ignores the other reply, and a poll that succeeds stores both replies together. A
  timer starts a poll every five seconds; \<open>setInterval\<close> is a timer that starts itself again. The polls
  made so far are part of the state, each with the replies that have arrived.

  Numbers are doubles: the counters are integers, the averages rationals or missing. A body is an
  object or \<open>null\<close>.
\<close>

record metrics =
  uptime_seconds :: int
  cache_hits :: int
  cache_misses :: int
  cache_entries :: int
  blacklist_domains :: int
  whitelist_domains :: int
  active_sessions :: int
  log_pending :: int
  total_queries :: int
  queries_per_second :: "rat option"
  avg_latency_ms :: "rat option"

record top_item =
  item_name :: jsstr
  item_count :: int

record dashboard_stats =
  total_today :: int
  total_week :: int
  total_month :: int
  blocked_percent :: "rat option"
  top_domains :: "top_item list option"
  top_blocked :: "top_item list option"
  top_clients :: "top_item list option"

subsection \<open>Formatting\<close>

definition formatUptime :: "int \<Rightarrow> jsstr" where
  "formatUptime seconds =
     (let h = \<lfloor>js_div (of_int seconds) (of_int 3600)\<rfloor>;
          m = \<lfloor>js_div (of_int (seconds mod 3600)) (of_int 60)\<rfloor>
      in num_str h @ js ''h '' @ num_str m @ js ''m'')"

definition cacheTotal :: "metrics \<Rightarrow> rat" where
  "cacheTotal m = fl (of_int (cache_hits m + cache_misses m))"

definition hitRate :: "metrics \<Rightarrow> jsstr" where
  "hitRate m =
     (if 0 < cacheTotal m then toFixed 1 (js_mul (js_div (of_int (cache_hits m)) (cacheTotal m)) 100)
      else js ''0.0'')"

text \<open>\<open>x?.toFixed(n) || '0'\<close>\<close>

definition fixed_or_zero :: "nat \<Rightarrow> rat option \<Rightarrow> jsstr" where
  "fixed_or_zero n x = (case x of None \<Rightarrow> js ''0'' | Some v \<Rightarrow> toFixed n v)"

subsection \<open>State and handlers\<close>

datatype dashboard_cont = DKMetrics nat | DKStats nat

record poll =
  pl_metrics :: "metrics option option"
  pl_stats :: "dashboard_stats option option"
  pl_failed :: bool

record dashboard_state = "dashboard_cont async" +
  d_metrics :: "metrics option"
  d_stats :: "dashboard_stats option"
  d_error :: jsstr
  d_polls :: "poll list"

definition metrics_get :: request where
  "metrics_get = mk_request GET (js ''/metrics'') None"

definition stats_get :: request where
  "stats_get = mk_request GET (js ''/dashboard'') None"

definition fetchData :: "dashboard_state \<Rightarrow> dashboard_state" where
  "fetchData s =
     (let b = length (d_polls s)
      in issue stats_get (DKStats b) (issue metrics_get (DKMetrics b)
           (s\<lparr>d_polls := d_polls s @ [\<lparr>pl_metrics = None, pl_stats = None, pl_failed = False\<rparr>]\<rparr>)))"

definition dashboard_init :: dashboard_state where
  "dashboard_init = set_timeout (fetchData
     \<lparr>inflight = [], timers = 0, d_metrics = None, d_stats = None, d_error = [], d_polls = []\<rparr>)"

definition dashboard_tick :: "dashboard_state \<Rightarrow> dashboard_state" where
  "dashboard_tick s = set_timeout (fetchData s)"

text \<open>After a reply: once both are there, and neither has failed, the code behind \<open>await\<close> runs.\<close>

definition poll_done :: "nat \<Rightarrow> dashboard_state \<Rightarrow> dashboard_state" where
  "poll_done b s =
     (let p = d_polls s ! b
      in if pl_failed p then s
         else case (pl_metrics p, pl_stats p) of
                (Some m, Some st) \<Rightarrow> s\<lparr>d_metrics := m, d_stats := st\<rparr>
              | _ \<Rightarrow> s)"

definition poll_failed :: "nat \<Rightarrow> dashboard_state \<Rightarrow> dashboard_state" where
  "poll_failed b s =
     (let p = d_polls s ! b
      in if pl_failed p then s
         else s\<lparr>d_polls := (d_polls s)[b := p\<lparr>pl_failed := True\<rparr>],
                d_error := js ''Erro ao carregar dados''\<rparr>)"

datatype dashboard_reply =
    DRMetrics "metrics option"
  | DRStats "dashboard_stats option"
  | DRError

fun dashboard_resume ::
  "dashboard_cont \<Rightarrow> dashboard_reply \<Rightarrow> dashboard_state \<Rightarrow> dashboard_state option" where
  "dashboard_resume (DKMetrics b) (DRMetrics m) s =
     Some (poll_done b (s\<lparr>d_polls := (d_polls s)[b := (d_polls s ! b)\<lparr>pl_metrics := Some m\<rparr>]\<rparr>))"
| "dashboard_resume (DKStats b) (DRStats st) s =
     Some (poll_done b (s\<lparr>d_polls := (d_polls s)[b := (d_polls s ! b)\<lparr>pl_stats := Some st\<rparr>]\<rparr>))"
| "dashboard_resume (DKMetrics b) DRError s = Some (poll_failed b s)"
| "dashboard_resume (DKStats b) DRError s = Some (poll_failed b s)"
| "dashboard_resume _ _ s = None"

text \<open>The page has no controls.\<close>

definition dashboard_act :: "unit \<Rightarrow> bool \<Rightarrow> dashboard_state \<Rightarrow> dashboard_state" where
  "dashboard_act a ok s = s"

definition dashboard_edit :: "unit \<Rightarrow> jsstr \<Rightarrow> dashboard_state \<Rightarrow> dashboard_state" where
  "dashboard_edit f v s = s"

subsection \<open>View\<close>

definition StatCard :: "jsstr \<Rightarrow> jsstr \<Rightarrow> jsstr \<Rightarrow> (unit, unit) node" where
  "StatCard label value color =
     Elem TDiv []
       [Elem TDiv [ClassName (js ''p-3 rounded-lg '' @ color)] [Elem TIcon [] []],
        Elem TDiv [] [Elem TP [] [Text label], Elem TP [] [Text value]]]"

definition TopList :: "jsstr \<Rightarrow> top_item list option \<Rightarrow> (unit, unit) node" where
  "TopList title items =
     Elem TDiv []
       [Elem TDiv [] [Elem TIcon [] [], Elem TH3 [] [Text title]],
        (if items = None \<or> items = Some [] then Elem TP [] [Text (js ''Sem dados ainda'')]
         else Elem TDiv []
           (map (\<lambda>item. Elem TDiv []
                   [Elem TSpan [] [Text (item_name item)], Elem TSpan [] [Text (num_str (item_count item))]])
              (the items)))]"

definition stat_cards :: "metrics \<Rightarrow> dashboard_stats option \<Rightarrow> (unit, unit) node list" where
  "stat_cards m st =
     [Elem TDiv []
        [StatCard (js ''Uptime'') (formatUptime (uptime_seconds m)) (js ''bg-blue-500''),
         StatCard (js ''Queries/s'') (fixed_or_zero 1 (queries_per_second m)) (js ''bg-indigo-500''),
         StatCard (js ''Cache Hit Rate'') (hitRate m @ js ''%25'') (js ''bg-green-500''),
         StatCard (js ''Lat%EAncia M%E9dia'') (fixed_or_zero 2 (avg_latency_ms m) @ js ''ms'') (js ''bg-purple-500'')],
      Elem TDiv []
        [StatCard (js ''Queries Hoje'') (num_str (case st of None \<Rightarrow> 0 | Some x \<Rightarrow> total_today x)) (js ''bg-cyan-500''),
         StatCard (js ''%25 Bloqueado'')
           (fixed_or_zero 1 (case st of None \<Rightarrow> None | Some x \<Rightarrow> blocked_percent x) @ js ''%25'') (js ''bg-red-500''),
         StatCard (js ''Dom%EDnios Bloqueados'') (num_str (blacklist_domains m)) (js ''bg-orange-500''),
         StatCard (js ''Sess%F5es Ativas'') (num_str (active_sessions m)) (js ''bg-amber-500'')]]"

definition dashboard_view :: "dashboard_state \<Rightarrow> (unit, unit) node option" where
  "dashboard_view s =
     Some (if d_error s \<noteq> [] then Elem TDiv [ClassName (js ''text-red-600'')] [Text (d_error s)]
       else case d_metrics s of
              None \<Rightarrow> Elem TDiv [ClassName (js ''text-gray-500'')] [Text (js ''Carregando...'')]
            | Some m \<Rightarrow>
                Elem TDiv []
                  ([Elem TH2 [] [Text (js ''Vis%E3o Geral'')]] @ stat_cards m (d_stats s) @
                   [Elem TDiv []
                      [TopList (js ''Top Dom%EDnios Consultados'') (Option.bind (d_stats s) top_domains),
                       TopList (js ''Top Dom%EDnios Bloqueados'') (Option.bind (d_stats s) top_blocked),
                       TopList (js ''Top Clientes por Volume'') (Option.bind (d_stats s) top_clients)]]))"

definition dashboard_step ::
  "(unit, unit, dashboard_reply) page_event \<Rightarrow> dashboard_state \<Rightarrow> dashboard_state option" where
  "dashboard_step =
     page_step dashboard_view dashboard_act dashboard_edit dashboard_resume dashboard_tick"

lemma stat_views [view_simps]:
  "clicks (StatCard l v c) = []" "submits (StatCard l v c) = []" "input_fields (StatCard l v c) = []"
  "clicks (TopList t xs) = []" "submits (TopList t xs) = []" "input_fields (TopList t xs) = []"
  by (auto simp: StatCard_def TopList_def attr_defs o_def set_concat_map_empty)

lemma dashboard_view_offers [view_simps]:
  "view_clicks (dashboard_view s) = []" "view_submits (dashboard_view s) = []"
  "\<not> view_can_type (dashboard_view s) f v"
  by (auto simp: dashboard_view_def stat_cards_def view_simps attr_defs can_type_iff split: option.splits)

subsection \<open>Invariant\<close>

text \<open>
  A request in flight belongs to a poll that has not got that reply; the data shown is that of one
  poll, and the error is shown exactly after a poll has failed.
\<close>

fun dashboard_call :: "poll list \<Rightarrow> request \<times> dashboard_cont \<Rightarrow> bool" where
  "dashboard_call ps (q, DKMetrics b) = (q = metrics_get \<and> b < length ps \<and> pl_metrics (ps ! b) = None)"
| "dashboard_call ps (q, DKStats b) = (q = stats_get \<and> b < length ps \<and> pl_stats (ps ! b) = None)"

definition shown_poll :: "poll list \<Rightarrow> metrics option \<Rightarrow> dashboard_stats option \<Rightarrow> bool" where
  "shown_poll ps m st \<longleftrightarrow>
     m = None \<and> st = None \<or>
     (\<exists>p \<in> set ps. \<not> pl_failed p \<and> pl_metrics p = Some m \<and> pl_stats p = Some st)"

definition error_shown :: "poll list \<Rightarrow> jsstr \<Rightarrow> bool" where
  "error_shown ps e \<longleftrightarrow> (e \<noteq> []) = (\<exists>p \<in> set ps. pl_failed p)"

definition dashboard_inv :: "dashboard_state \<Rightarrow> bool" where
  "dashboard_inv s \<longleftrightarrow>
     list_all (dashboard_call (d_polls s)) (inflight s) \<and> distinct (map snd (inflight s)) \<and>
     shown_poll (d_polls s) (d_metrics s) (d_stats s) \<and> error_shown (d_polls s) (d_error s)"

lemma dashboard_call_append: "dashboard_call ps c \<Longrightarrow> dashboard_call (ps @ [p]) c"
  by (cases "(ps, c)" rule: dashboard_call.cases) (auto simp: nth_append)

lemma shown_poll_append: "shown_poll ps m st \<Longrightarrow> shown_poll (ps @ [p]) m st"
  by (auto simp: shown_poll_def)

lemma dashboard_inv_fetch:
  assumes "dashboard_inv s"
  shows "dashboard_inv (fetchData s)"
proof -
  let ?b = "length (d_polls s)"
  have "c \<noteq> DKMetrics ?b \<and> c \<noteq> DKStats ?b" if "c \<in> snd ` set (inflight s)" for c
    using assms that by (auto simp: dashboard_inv_def list_all_iff)
  then have "distinct (map snd (inflight s @ [(metrics_get, DKMetrics ?b), (stats_get, DKStats ?b)]))"
    using assms by (auto simp: dashboard_inv_def)
  moreover have "list_all (dashboard_call (d_polls s @ [p])) (inflight s)" for p
    using assms by (auto simp: dashboard_inv_def list_all_iff dashboard_call_append)
  ultimately show ?thesis
    using assms
    by (auto simp: dashboard_inv_def fetchData_def issue_def Let_def shown_poll_append error_shown_def)
qed

lemma dashboard_inv_timeout: "dashboard_inv s \<Longrightarrow> dashboard_inv (set_timeout s)"
  by (simp add: dashboard_inv_def set_timeout_def)

lemma dashboard_inv_init: "dashboard_inv dashboard_init"
  unfolding dashboard_init_def
  by (intro dashboard_inv_timeout dashboard_inv_fetch)
     (simp add: dashboard_inv_def shown_poll_def error_shown_def)

lemma dashboard_inv_tick: "dashboard_inv s \<Longrightarrow> dashboard_inv (dashboard_tick (fire_timer s))"
  unfolding dashboard_tick_def
  by (intro dashboard_inv_timeout dashboard_inv_fetch) (simp add: dashboard_inv_def fire_timer_def)

lemma reply_context:
  assumes "dashboard_inv s" and "i < length (inflight s)" and "inflight s ! i = (q, k)"
  shows "dashboard_call (d_polls s) (q, k)"
    and "c \<in> set (inflight (take_reply i s)) \<Longrightarrow> dashboard_call (d_polls s) c \<and> snd c \<noteq> k"
    and "distinct (map snd (inflight (take_reply i s)))"
proof -
  have d: "distinct (map snd (inflight s))" and l: "i < length (map snd (inflight s))"
    and calls: "\<forall>c \<in> set (inflight s). dashboard_call (d_polls s) c"
    using assms(1,2) by (simp_all add: dashboard_inv_def list_all_iff)
  show "dashboard_call (d_polls s) (q, k)" using calls assms(2,3) by (metis nth_mem)
  show "distinct (map snd (inflight (take_reply i s)))"
    using distinct_remove_nth(1) [OF d l] by (simp add: take_reply_sel map_remove_nth)
  assume c: "c \<in> set (inflight (take_reply i s))"
  then have "c \<in> set (inflight s)" using set_remove_nth by (auto simp: take_reply_sel)
  moreover have "snd c \<noteq> k"
    using distinct_remove_nth(2) [OF d l] assms(2,3) c
    by (auto simp: take_reply_sel map_remove_nth [symmetric])
  ultimately show "dashboard_call (d_polls s) c \<and> snd c \<noteq> k" using calls by blast
qed

text \<open>An update of a poll in one reply, against the requests that wait for other replies.\<close>

lemma dashboard_call_update:
  "dashboard_call ps c \<Longrightarrow> pl_metrics p = pl_metrics (ps ! b) \<or> snd c \<noteq> DKMetrics b \<Longrightarrow>
   pl_stats p = pl_stats (ps ! b) \<or> snd c \<noteq> DKStats b \<Longrightarrow> dashboard_call (ps[b := p]) c"
  by (cases "(ps, c)" rule: dashboard_call.cases; cases "\<exists>q. c = (q, DKMetrics b) \<or> c = (q, DKStats b)")
     (auto simp: nth_list_update)

lemma in_set_update: "x \<in> set xs \<Longrightarrow> x \<noteq> xs ! b \<Longrightarrow> x \<in> set (xs[b := y])"
  by (metis in_set_conv_nth length_list_update nth_list_update_neq)

lemma shown_poll_update:
  "shown_poll ps m st \<Longrightarrow> pl_metrics (ps ! b) = None \<or> pl_stats (ps ! b) = None \<Longrightarrow>
   shown_poll (ps[b := p]) m st"
  unfolding shown_poll_def using in_set_update [of _ ps b p] by force

lemma error_shown_update:
  assumes "error_shown ps e" and "b < length ps" and "pl_failed p = pl_failed (ps ! b)"
  shows "error_shown (ps[b := p]) e"
proof -
  have "(\<exists>q \<in> set (ps[b := p]). pl_failed q) = (\<exists>q \<in> set ps. pl_failed q)"
    unfolding Bex_def in_set_conv_nth using assms(2,3)
    by (metis length_list_update nth_list_update)
  with assms(1) show ?thesis by (simp add: error_shown_def)
qed

lemma poll_done_inv:
  assumes "list_all (dashboard_call (d_polls s)) (inflight s)" and "distinct (map snd (inflight s))"
    and "shown_poll (d_polls s) (d_metrics s) (d_stats s)" and "error_shown (d_polls s) (d_error s)"
    and "b < length (d_polls s)"
  shows "dashboard_inv (poll_done b s)"
proof -
  have "d_polls s ! b \<in> set (d_polls s)" using assms(5) by simp
  then have "shown_poll (d_polls s) m st"
    if "\<not> pl_failed (d_polls s ! b)" "pl_metrics (d_polls s ! b) = Some m" "pl_stats (d_polls s ! b) = Some st"
    for m st using that by (auto simp: shown_poll_def)
  with assms show ?thesis
    by (auto simp: dashboard_inv_def poll_done_def Let_def split: option.splits)
qed

lemma dashboard_inv_resume:
  assumes inv: "dashboard_inv s" and i: "i < length (inflight s)" "inflight s ! i = (q, k)"
    and res: "dashboard_resume k r (take_reply i s) = Some t"
  shows "dashboard_inv t"
proof -
  let ?u = "take_reply i s" and ?ps = "d_polls s"
  note ctx = reply_context [OF inv i]
  have sel: "d_polls ?u = ?ps" "d_metrics ?u = d_metrics s" "d_stats ?u = d_stats s" "d_error ?u = d_error s"
    by (simp_all add: take_reply_def)
  obtain b where b: "k = DKMetrics b \<or> k = DKStats b" by (cases k) auto
  with ctx(1) have len: "b < length ?ps" and free: "pl_metrics (?ps ! b) = None \<or> pl_stats (?ps ! b) = None"
    by auto
  have calls: "list_all (dashboard_call (?ps[b := p])) (inflight ?u)"
    if "pl_metrics p = pl_metrics (?ps ! b) \<or> k = DKMetrics b"
      "pl_stats p = pl_stats (?ps ! b) \<or> k = DKStats b" for p
    unfolding list_all_iff using ctx(2) that by (blast intro: dashboard_call_update)
  have shown: "shown_poll (?ps[b := p]) (d_metrics s) (d_stats s)" for p
    using inv free by (intro shown_poll_update) (simp_all add: dashboard_inv_def)
  have err: "error_shown (?ps[b := p]) (d_error s)" if "pl_failed p = pl_failed (?ps ! b)" for p
    using inv len that by (intro error_shown_update) (simp_all add: dashboard_inv_def)
  have failed: "error_shown (?ps[b := p]) (js ''Erro ao carregar dados'')" if "pl_failed p" for p
    using len that by (auto simp: error_shown_def js.simps intro!: bexI [of _ p] set_update_memI)
  have fail: "dashboard_inv (poll_failed b ?u)"
    using calls [of "(?ps ! b)\<lparr>pl_failed := True\<rparr>"] calls [of "?ps ! b"] shown [of "?ps ! b"]
      shown [of "(?ps ! b)\<lparr>pl_failed := True\<rparr>"] err [of "?ps ! b"]
      failed [of "(?ps ! b)\<lparr>pl_failed := True\<rparr>"] ctx(3)
    by (simp add: dashboard_inv_def poll_failed_def sel Let_def)
  have done1: "dashboard_inv (poll_done b (?u\<lparr>d_polls := ?ps[b := p]\<rparr>))"
    if "pl_failed p = pl_failed (?ps ! b)" "pl_metrics p = pl_metrics (?ps ! b) \<or> k = DKMetrics b"
      "pl_stats p = pl_stats (?ps ! b) \<or> k = DKStats b" for p
    using calls [OF that(2,3)] shown [of p] err [OF that(1)] ctx(3) len
    by (intro poll_done_inv) (simp_all add: sel)
  show ?thesis
    using b res fail done1 [of "(?ps ! b)\<lparr>pl_metrics := x\<rparr>" for x]
      done1 [of "(?ps ! b)\<lparr>pl_stats := x\<rparr>" for x]
    by (cases r) (auto simp: sel)
qed

interpretation dashboard: page dashboard_view dashboard_act dashboard_edit dashboard_resume
  dashboard_tick dashboard_init dashboard_inv
  by unfold_locales
     (rule dashboard_inv_init, simp add: dashboard_act_def, simp add: dashboard_edit_def,
      erule dashboard_inv_resume, assumption+, erule dashboard_inv_tick)

subsection \<open>Properties\<close>

text \<open>C27: The overview never mixes two polls: whatever the order of the replies and of the timer, the metrics
  and the statistics on the screen are the two replies of one poll that did not fail, and the error
  is shown exactly when some poll has failed.\<close>

theorem dashboard_consistent:
  assumes "reachable dashboard_step dashboard_init s"
  shows "(d_metrics s = None \<and> d_stats s = None \<or>
      (\<exists>p \<in> set (d_polls s). \<not> pl_failed p \<and> pl_metrics p = Some (d_metrics s) \<and>
         pl_stats p = Some (d_stats s))) \<and>
    (d_error s \<noteq> [] \<longleftrightarrow> (\<exists>p \<in> set (d_polls s). pl_failed p))"
  using dashboard.reachable_inv [OF assms [unfolded dashboard_step_def]]
  by (simp add: dashboard_inv_def shown_poll_def error_shown_def)

definition demo_metrics :: metrics where
  "demo_metrics =
     \<lparr>uptime_seconds = 7384, cache_hits = 3, cache_misses = 1, cache_entries = 2, blacklist_domains = 5,
      whitelist_domains = 0, active_sessions = 1, log_pending = 0, total_queries = 4,
      queries_per_second = Some 2, avg_latency_ms = None\<rparr>"

definition demo_stats :: dashboard_stats where
  "demo_stats =
     \<lparr>total_today = 4, total_week = 4, total_month = 4, blocked_percent = Some 25, top_domains = None,
      top_blocked = None, top_clients = None\<rparr>"

definition dashboard_demo :: "(unit, unit, dashboard_reply) page_event list" where
  "dashboard_demo = [Tick, Reply 2 (DRMetrics (Some demo_metrics)), Reply 2 (DRStats (Some demo_stats))]"

lemmas dashboard_eval = dashboard_step_def page_step_def dashboard_init_def dashboard_tick_def
  fetchData_def issue_def set_timeout_def fire_timer_def take_reply_def remove_nth_def poll_done_def
  poll_failed_def Let_def

lemma dashboard_demo_run:
  "\<exists>s. run dashboard_step dashboard_demo dashboard_init = Some s \<and> d_metrics s = Some demo_metrics \<and>
     d_stats s = Some demo_stats"
  by (simp add: dashboard_demo_def dashboard_eval)

theorem dashboard_consistent_witness:
  "\<exists>s. run dashboard_step dashboard_demo dashboard_init = Some s \<and> d_metrics s = Some demo_metrics \<and>
     (\<exists>p \<in> set (d_polls s). pl_stats p = Some (d_stats s))"
proof -
  obtain s where s: "run dashboard_step dashboard_demo dashboard_init = Some s"
    "d_metrics s = Some demo_metrics"
    using dashboard_demo_run by blast
  from dashboard_consistent [OF run_reachable [OF s(1)]] s show ?thesis by auto
qed

lemma dashboard_error_step:
  assumes "d_error s = js ''Erro ao carregar dados''" and "dashboard_step e s = Some t"
  shows "d_error t = js ''Erro ao carregar dados''"
proof -
  have keep: "d_error (poll_done b s) = d_error s" for b s
    by (simp add: poll_done_def Let_def split: option.splits)
  have fail: "d_error (poll_failed b u) = js ''Erro ao carregar dados''"
    if "d_error u = js ''Erro ao carregar dados''" for b u
    using that by (simp add: poll_failed_def Let_def)
  show ?thesis
    using assms(2) unfolding dashboard_step_def
  proof (cases rule: page_step_cases)
    case (reply i r q k)
    with assms(1) show ?thesis by (cases k; cases r) (auto simp: keep fail take_reply_def)
  qed (use assms(1) in \<open>auto simp: dashboard_act_def dashboard_edit_def dashboard_tick_def fetchData_def
        issue_def set_timeout_def fire_timer_def Let_def\<close>)
qed

lemma dashboard_error_run:
  "d_error s = js ''Erro ao carregar dados'' \<Longrightarrow> run dashboard_step es s = Some t \<Longrightarrow>
   d_error t = js ''Erro ao carregar dados''"
  by (induction es arbitrary: s) (auto split: option.splits dest: dashboard_error_step)

lemma error_text_nonempty: "js ''Erro ao carregar dados'' \<noteq> []"
  by (simp add: js.simps)

text \<open>An error is final: once a poll has failed the page shows only the error, whatever later polls
  return, although polling goes on every five seconds.\<close>

theorem dashboard_error_final:
  assumes "d_error s = js ''Erro ao carregar dados''" and "run dashboard_step es s = Some t"
  shows "dashboard_view t =
      Some (Elem TDiv [ClassName (js ''text-red-600'')] [Text (js ''Erro ao carregar dados'')]) \<and>
    (0 < timers t \<longrightarrow>
      (\<exists>u. dashboard_step Tick t = Some u \<and> length (d_polls u) = Suc (length (d_polls t))))"
  using dashboard_error_run [OF assms] error_text_nonempty
  by (auto simp: dashboard_view_def dashboard_step_def page_step_def dashboard_tick_def fetchData_def
        issue_def set_timeout_def fire_timer_def Let_def)

theorem dashboard_error_final_witness:
  "\<exists>s t. run dashboard_step [Reply 0 DRError] dashboard_init = Some s \<and>
     run dashboard_step [Tick, Reply 1 (DRMetrics (Some demo_metrics)), Reply 1 (DRStats (Some demo_stats))] s
       = Some t \<and> d_metrics t = Some demo_metrics \<and>
     dashboard_view t =
       Some (Elem TDiv [ClassName (js ''text-red-600'')] [Text (js ''Erro ao carregar dados'')])"
proof -
  have "\<exists>s t. run dashboard_step [Reply 0 DRError] dashboard_init = Some s \<and>
     run dashboard_step [Tick, Reply 1 (DRMetrics (Some demo_metrics)), Reply 1 (DRStats (Some demo_stats))] s
       = Some t \<and>
     d_error s = js ''Erro ao carregar dados'' \<and> d_metrics t = Some demo_metrics"
    by (simp add: dashboard_eval)
  then obtain s t where s: "run dashboard_step [Reply 0 DRError] dashboard_init = Some s"
    "run dashboard_step [Tick, Reply 1 (DRMetrics (Some demo_metrics)), Reply 1 (DRStats (Some demo_stats))] s
       = Some t"
    "d_error s = js ''Erro ao carregar dados''" "d_metrics t = Some demo_metrics"
    by blast
  from dashboard_error_final [OF s(3,2)] s show ?thesis by blast
qed

text \<open>The uptime is exact for every count of seconds below \<open>2 ^ 53\<close>: the divisions are rounded to
  doubles, but the hours and minutes shown are those of integer division, with fewer than sixty
  minutes and less than a minute lost.\<close>

theorem uptime_exact:
  assumes "0 \<le> n" and "n < 2 ^ 53"
  shows "\<exists>h m. formatUptime n = num_str h @ js ''h '' @ num_str m @ js ''m'' \<and>
    0 \<le> m \<and> m < 60 \<and> 3600 * h + 60 * m \<le> n \<and> n < 3600 * h + 60 * m + 60"
proof -
  have r: "0 \<le> n mod 3600" "n mod 3600 < 3600" by simp_all
  have "formatUptime n = num_str (n div 3600) @ js ''h '' @ num_str (n mod 3600 div 60) @ js ''m''"
    using js_div_floor [of n 3600] js_div_floor [of "n mod 3600" 60] assms r
    by (simp add: formatUptime_def Let_def)
  moreover have "n = 3600 * (n div 3600) + n mod 3600" by simp
  moreover have "n mod 3600 = 60 * (n mod 3600 div 60) + n mod 3600 mod 60" by simp
  moreover have "0 \<le> n mod 3600 mod 60" "n mod 3600 mod 60 < 60" by simp_all
  moreover have "0 \<le> n mod 3600 div 60" "n mod 3600 div 60 < 60" using r by auto
  ultimately show ?thesis
    by (intro exI [of _ "n div 3600"] exI [of _ "n mod 3600 div 60"]) linarith
qed

theorem uptime_exact_witness:
  "\<exists>h m. formatUptime 7384 = num_str h @ js ''h '' @ num_str m @ js ''m'' \<and> m < 60"
  using uptime_exact [of 7384] by auto

lemma hit_rate_bounds:
  assumes "0 \<le> h" and "0 \<le> m" and "0 < h + m" and "h + m < 2 ^ 53"
  shows "0 \<le> js_mul (js_div (of_int h) (fl (of_int (h + m)))) 100"
    and "js_mul (js_div (of_int h) (fl (of_int (h + m)))) 100 \<le> 100"
proof -
  have total: "fl (of_int (h + m)) = of_int (h + m)" using assms by (intro fl_int) simp_all
  have q: "0 \<le> (of_int h / of_int (h + m) :: rat)" "(of_int h / of_int (h + m) :: rat) \<le> of_int 1"
    using assms by (simp_all add: divide_le_eq_1)
  let ?d = "js_div (of_int h) (of_int (h + m))"
  have d: "0 \<le> ?d" "?d \<le> of_int 1"
    unfolding js_div_def by (rule fl_nonneg [OF q(1)], rule fl_le_int [OF q]) simp
  then have "0 \<le> ?d * 100" "?d * 100 \<le> of_int 100" by simp_all
  then have "0 \<le> fl (?d * 100)" "fl (?d * 100) \<le> of_int 100"
    by (simp add: fl_nonneg, intro fl_le_int) simp_all
  then show "0 \<le> js_mul (js_div (of_int h) (fl (of_int (h + m)))) 100"
    and "js_mul (js_div (of_int h) (fl (of_int (h + m)))) 100 \<le> 100"
    by (simp_all only: js_mul_def total)
qed

text \<open>The hit rate is a percentage: with no lookups it is \<open>0.0\<close>, and otherwise the text is a
  number with one digit after the point between 0.0 and 100.0, and 100.0 when nothing missed.\<close>

theorem hit_rate_percentage:
  assumes "0 \<le> cache_hits x" and "0 \<le> cache_misses x" and "cache_hits x + cache_misses x < 2 ^ 53"
  shows "(cache_hits x + cache_misses x = 0 \<longrightarrow> hitRate x = js ''0.0'') \<and>
    (\<exists>n \<le> 1000. hitRate x = fixed_str 1 n) \<and>
    (cache_misses x = 0 \<and> cache_hits x \<noteq> 0 \<longrightarrow> hitRate x = fixed_str 1 1000)"
proof (cases "cache_hits x + cache_misses x = 0")
  case True
  have "fixed_str 1 0 = js ''0.0''"
    by (simp add: fixed_str_def pad_zeros_def nat_str.simps js.simps)
  with True assms show ?thesis by (auto simp: hitRate_def cacheTotal_def fl_def intro!: exI [of _ 0])
next
  case False
  with assms have pos: "0 < cache_hits x + cache_misses x" by simp
  have total: "cacheTotal x = of_int (cache_hits x + cache_misses x)"
    using assms by (simp add: cacheTotal_def fl_int del: of_int_add)
  have "0 < cacheTotal x" using pos by (simp only: total of_int_0_less_iff)
  then have rate: "hitRate x = toFixed 1 (js_mul (js_div (of_int (cache_hits x))
      (fl (of_int (cache_hits x + cache_misses x)))) 100)"
    by (simp add: hitRate_def cacheTotal_def)
  note b = hit_rate_bounds [OF assms(1,2) pos assms(3)]
  have "\<exists>n \<le> 100 * 10 ^ 1. hitRate x = fixed_str 1 n"
    unfolding rate using b by (intro toFixed_bounds) simp_all
  moreover have "hitRate x = fixed_str 1 1000" if "cache_misses x = 0"
  proof -
    have "js_div (of_int (cache_hits x)) (of_int (cache_hits x)) = (1 :: rat)"
      using pos that fl_int [of 1] by (simp add: js_div_def)
    moreover have "fl (of_int (cache_hits x)) = (of_int (cache_hits x) :: rat)"
      using assms that by (intro fl_int) simp_all
    moreover have "\<lfloor>2001 / 2 :: rat\<rfloor> = 1000" by (rule floor_unique) simp_all
    ultimately show ?thesis
      using that fl_int [of 100] by (simp add: rate js_mul_def toFixed_def)
  qed
  ultimately show ?thesis using False by auto
qed

theorem hit_rate_percentage_witness: "\<exists>n \<le> 1000. hitRate demo_metrics = fixed_str 1 n"
  using hit_rate_percentage [of demo_metrics] by (simp add: demo_metrics_def)

end
