(* ===== verification/Backend.thy ===== *)
theory Backend
  imports ApiClient GroupsPage ListsPage UsersPage RangesPage LogsPage DashboardPage
begin

text \<open>
  The side of the API that answers the dashboard, as far as the dashboard depends on it: the route
  table of \<open>internal/api/router.go\<close> with the middleware in front of each route, \<open>AuthMiddleware\<close>,
  \<open>AdminOnly\<close> and the types of the request bodies of \<open>internal/api/handlers.go\<close>. Parsing a JWT
  belongs to golang-jwt, so \<open>parse\<close> is a parameter: the user in the claims of a token at a time, or
  \<^const>\<open>None\<close> for a token that is not valid. What a handler does behind its guards (the
  store, the filter engine) is not part of this theory.

  A pattern is a list of segments, where \<open>Param\<close> stands for \<open>{id}\<close> or \<open>{domain}\<close>;
  \<open>instance_of\<close> says that a path is a pattern with its parameters filled in.
\<close>

datatype seg = Lit jsstr | Param

datatype access = Public | Authenticated | Admin

datatype endpoint =
    HealthCheck | LoginEndpoint | RefreshToken | GetDashboardStats | GetMetrics | GetLogs
  | InvalidateCache | ListUsers | CreateUser | UpdateUser | DeleteUser | ListGroups | CreateGroup
  | UpdateGroup | DeleteGroup | ListCategories | GetGroupPolicy | SetGroupPolicy | ListBlocklists
  | CreateBlocklist | UpdateBlocklist | DeleteBlocklist | AddEntries | ReloadLists | DownloadLists
  | GetBlocklistCategories | SetBlocklistCategories | ListRanges | CreateRange | UpdateRange
  | DeleteRange

record route =
  rt_method :: http_method
  rt_pattern :: "seg list"
  rt_access :: access
  rt_endpoint :: endpoint

definition mk_route :: "http_method \<Rightarrow> seg list \<Rightarrow> access \<Rightarrow> endpoint \<Rightarrow> route" where
  "mk_route m p a e = \<lparr>rt_method = m, rt_pattern = p, rt_access = a, rt_endpoint = e\<rparr>"

text \<open>The routes in the order of \<open>NewRouter\<close>, with \<open>/api\<close> written out.\<close>

definition api_route :: "http_method \<Rightarrow> seg list \<Rightarrow> access \<Rightarrow> endpoint \<Rightarrow> route" where
  "api_route m p = mk_route m (Lit (js ''api'') # p)"

definition public_table :: "route list" where
  "public_table =
     [mk_route GET [Lit (js ''health'')] Public HealthCheck,
      mk_route POST [Lit (js ''api''), Lit (js ''auth''), Lit (js ''login'')] Public LoginEndpoint]"

definition authenticated_table :: "route list" where
  "authenticated_table =
     [api_route POST [Lit (js ''auth''), Lit (js ''refresh'')] Authenticated RefreshToken,
      api_route GET [Lit (js ''dashboard'')] Authenticated GetDashboardStats,
      api_route GET [Lit (js ''metrics'')] Authenticated GetMetrics,
      api_route GET [Lit (js ''logs'')] Authenticated GetLogs,
      api_route DELETE [Lit (js ''cache''), Param] Authenticated InvalidateCache]"

definition admin_table :: "route list" where
  "admin_table =
     [api_route GET [Lit (js ''users'')] Admin ListUsers,
      api_route POST [Lit (js ''users'')] Admin CreateUser,
      api_route PUT [Lit (js ''users''), Param] Admin UpdateUser,
      api_route DELETE [Lit (js ''users''), Param] Admin DeleteUser,
      api_route GET [Lit (js ''groups'')] Admin ListGroups,
      api_route POST [Lit (js ''groups'')] Admin CreateGroup,
      api_route PUT [Lit (js ''groups''), Param] Admin UpdateGroup,
      api_route DELETE [Lit (js ''groups''), Param] Admin DeleteGroup,
      api_route GET [Lit (js ''categories'')] Admin ListCategories,
      api_route GET [Lit (js ''groups''), Param, Lit (js ''policy'')] Admin GetGroupPolicy,
      api_route PUT [Lit (js ''groups''), Param, Lit (js ''policy'')] Admin SetGroupPolicy,
      api_route GET [Lit (js ''lists'')] Admin ListBlocklists,
      api_route POST [Lit (js ''lists'')] Admin CreateBlocklist,
      api_route PUT [Lit (js ''lists''), Param] Admin UpdateBlocklist,
      api_route DELETE [Lit (js ''lists''), Param] Admin DeleteBlocklist,
      api_route POST [Lit (js ''lists''), Param, Lit (js ''entries'')] Admin AddEntries,
      api_route POST [Lit (js ''lists''), Lit (js ''reload'')] Admin ReloadLists,
      api_route POST [Lit (js ''lists''), Lit (js ''download'')] Admin DownloadLists,
      api_route GET [Lit (js ''lists''), Param, Lit (js ''categories'')] Admin GetBlocklistCategories,
      api_route PUT [Lit (js ''lists''), Param, Lit (js ''categories'')] Admin SetBlocklistCategories,
      api_route GET [Lit (js ''ranges'')] Admin ListRanges,
      api_route POST [Lit (js ''ranges'')] Admin CreateRange,
      api_route PUT [Lit (js ''ranges''), Param] Admin UpdateRange,
      api_route DELETE [Lit (js ''ranges''), Param] Admin DeleteRange]"

definition NewRouter :: "route list" where
  "NewRouter = public_table @ authenticated_table @ admin_table"

fun seg_matches :: "seg \<Rightarrow> jsstr \<Rightarrow> bool" where
  "seg_matches (Lit l) s = (s = l)"
| "seg_matches Param s = (s \<noteq> [])"

text \<open>The segments of a path; the query starts at the first question mark.\<close>

definition path_segments :: "jsstr \<Rightarrow> jsstr list" where
  "path_segments url = tl (js_split 0x2F (takeWhile (\<lambda>u. u \<noteq> 0x3F) url))"

definition instance_of :: "seg list \<Rightarrow> jsstr \<Rightarrow> bool" where
  "instance_of p url = list_all2 seg_matches p (path_segments url)"

subsection \<open>Authentication\<close>

record auth_user =
  au_id :: int
  au_username :: jsstr
  au_role :: int

text \<open>\<open>Inl\<close> is the status of an error reply. A missing header reads as the empty string.\<close>

definition AuthMiddleware :: "(jsstr \<Rightarrow> auth_user option) \<Rightarrow> jsstr option \<Rightarrow> nat + auth_user" where
  "AuthMiddleware parse header =
     (let tokenStr = (case header of None \<Rightarrow> [] | Some h \<Rightarrow> h)
      in if 7 < length tokenStr \<and> take 7 tokenStr = js ''Bearer ''
         then (case parse (drop 7 tokenStr) of None \<Rightarrow> Inl 401 | Some user \<Rightarrow> Inr user)
         else Inl 401)"

definition AdminOnly :: "auth_user \<Rightarrow> nat + auth_user" where
  "AdminOnly user = (if au_role user \<noteq> 0 then Inl 403 else Inr user)"

definition access_check ::
  "(jsstr \<Rightarrow> auth_user option) \<Rightarrow> access \<Rightarrow> jsstr option \<Rightarrow> nat + auth_user option" where
  "access_check parse a header =
     (case a of
        Public \<Rightarrow> Inr None
      | Authenticated \<Rightarrow> map_sum id Some (AuthMiddleware parse header)
      | Admin \<Rightarrow>
          (case AuthMiddleware parse header of
             Inl e \<Rightarrow> Inl e
           | Inr user \<Rightarrow> map_sum id Some (AdminOnly user)))"

text \<open>What \<open>jwt.Parse\<close> documents on expiry: a token that is not valid does not become valid later.\<close>

definition stays_invalid :: "(nat \<Rightarrow> jsstr \<Rightarrow> auth_user option) \<Rightarrow> bool" where
  "stays_invalid parse \<longleftrightarrow> (\<forall>t t' tok. t \<le> t' \<longrightarrow> parse t tok = None \<longrightarrow> parse t' tok = None)"

subsection \<open>Request bodies\<close>

datatype gotype = GoString | GoInt | GoStrings | GoInts

text \<open>
  \<open>json.Decode\<close> on the request structs: strings into strings, whole numbers into ints, arrays
  of these into slices. A \<open>null\<close> would leave the zero value, so it is not counted as conforming.
\<close>

fun go_accepts :: "gotype \<Rightarrow> json \<Rightarrow> bool" where
  "go_accepts GoString j = (case j of JStr s \<Rightarrow> True | _ \<Rightarrow> False)"
| "go_accepts GoInt j = (case j of JNum n \<Rightarrow> True | _ \<Rightarrow> False)"
| "go_accepts GoStrings j =
     (case j of JArr xs \<Rightarrow> list_all (\<lambda>x. case x of JStr s \<Rightarrow> True | _ \<Rightarrow> False) xs | _ \<Rightarrow> False)"
| "go_accepts GoInts j =
     (case j of JArr xs \<Rightarrow> list_all (\<lambda>x. case x of JNum n \<Rightarrow> True | _ \<Rightarrow> False) xs | _ \<Rightarrow> False)"

text \<open>The fields of the request struct of an endpoint that the dashboard calls with a body.\<close>

definition body_fields :: "endpoint \<Rightarrow> (jsstr \<times> gotype) list option" where
  "body_fields e =
     (case e of
        CreateUser \<Rightarrow>
          Some [(js ''username'', GoString), (js ''password'', GoString), (js ''role'', GoInt)]
      | CreateGroup \<Rightarrow> Some [(js ''name'', GoString), (js ''description'', GoString)]
      | CreateBlocklist \<Rightarrow>
          Some [(js ''name'', GoString), (js ''source_url'', GoString), (js ''list_type'', GoInt)]
      | AddEntries \<Rightarrow> Some [(js ''domains'', GoStrings)]
      | CreateRange \<Rightarrow>
          Some [(js ''cidr'', GoString), (js ''group_id'', GoInt), (js ''auth_mode'', GoInt),
            (js ''description'', GoString)]
      | SetGroupPolicy \<Rightarrow> Some [(js ''categories'', GoInts)]
      | SetBlocklistCategories \<Rightarrow> Some [(js ''categories'', GoInts)]
      | _ \<Rightarrow> None)"

fun body_conforms :: "(jsstr \<times> gotype) list option \<Rightarrow> json option \<Rightarrow> bool" where
  "body_conforms None b = (b = None)"
| "body_conforms (Some fs) (Some (JObj kvs)) =
     list_all2 (\<lambda>f kv. fst kv = fst f \<and> go_accepts (snd f) (snd kv)) fs kvs"
| "body_conforms (Some fs) b = False"

text \<open>A request of the API client, whose base URL is \<open>/api\<close>, is one that a route serves.\<close>

definition serves :: "route \<Rightarrow> request \<Rightarrow> bool" where
  "serves rt q \<longleftrightarrow>
     rt_method rt = req_method q \<and> instance_of (rt_pattern rt) (js ''/api'' @ req_url q) \<and>
     body_conforms (body_fields (rt_endpoint rt)) (req_body q)"

definition served_with :: "access \<Rightarrow> request \<Rightarrow> bool" where
  "served_with a q \<longleftrightarrow> (\<exists>rt \<in> set NewRouter. rt_access rt = a \<and> serves rt q)"

subsection \<open>Paths of the requests\<close>

lemma digits_no_delim:
  assumes "u \<in> set (num_str n)"
  shows "u \<noteq> 0x2F" "u \<noteq> 0x3F"
proof -
  have "u = 45 \<or> is_digit u"
    using assms nat_str_digits [of "nat n"] nat_str_digits [of "nat (- n)"]
    by (auto simp: num_str_def list_all_iff split: if_splits)
  then show "u \<noteq> 0x2F" "u \<noteq> 0x3F" by (auto simp: is_digit_def)
qed

lemma num_str_nonempty [simp]: "num_str n \<noteq> []"
  by (simp add: num_str_def)

lemma takeWhile_static:
  assumes "0x3F \<notin> set xs"
  shows "takeWhile (\<lambda>u. u \<noteq> 0x3F) (xs @ ys) = xs @ takeWhile (\<lambda>u. u \<noteq> 0x3F) ys"
  using assms by (induction xs) auto

lemma takeWhile_all: "0x3F \<notin> set xs \<Longrightarrow> takeWhile (\<lambda>u. u \<noteq> 0x3F) xs = xs"
  using takeWhile_static [of xs "[]"] by simp

lemma segments_static: "0x3F \<notin> set url \<Longrightarrow> path_segments url = tl (js_split 0x2F url)"
  by (simp add: path_segments_def takeWhile_all)

lemma segments_id:
  assumes "0x3F \<notin> set pre" and "0x3F \<notin> set post" and "js_split 0x2F pre = ps"
    and "js_split 0x2F post = ss"
  shows "path_segments (pre @ [0x2F] @ num_str n) = tl ps @ [num_str n]"
    and "path_segments (pre @ [0x2F] @ num_str n @ [0x2F] @ post) = tl ps @ [num_str n] @ ss"
proof -
  have split: "js_split 0x2F (pre @ 0x2F # rest) = js_split 0x2F pre @ js_split 0x2F rest" for rest
  proof (induction pre)
    case (Cons u us)
    then show ?case by (cases "js_split 0x2F us") (auto split: list.splits)
  qed simp
  have num: "0x2F \<notin> set (num_str n)" "0x3F \<notin> set (num_str n)"
    using digits_no_delim [of _ n] by blast+
  show "path_segments (pre @ [0x2F] @ num_str n) = tl ps @ [num_str n]"
    using assms num js_split_nonempty [of "0x2F" pre]
    by (simp add: segments_static split js_split_no_occurrence)
  show "path_segments (pre @ [0x2F] @ num_str n @ [0x2F] @ post) = tl ps @ [num_str n] @ ss"
    using assms num js_split_nonempty [of "0x2F" pre]
    by (simp add: segments_static split js_split_append_sep)
qed

text \<open>The requests of the pages, each against its route.\<close>

lemma served_withI:
  "rt \<in> set NewRouter \<Longrightarrow> rt_access rt = a \<Longrightarrow> serves rt q \<Longrightarrow> served_with a q"
  by (auto simp: served_with_def)

lemmas route_defs = mk_route_def api_route_def
lemmas table_defs = NewRouter_def public_table_def authenticated_table_def admin_table_def

lemma serves_static:
  assumes "0x3F \<notin> set (js ''/api'' @ u)" and "list_all2 seg_matches (Lit (js ''api'') # p) (tl (js_split 0x2F (js ''/api'' @ u)))"
    and "body_conforms (body_fields e) b"
  shows "serves (api_route m p a e) (mk_request m u b)"
  using assms by (simp add: serves_def route_defs instance_of_def segments_static)

lemma serves_id:
  assumes "0x3F \<notin> set (js ''/api'' @ pre)" and "js_split 0x2F (js ''/api'' @ pre) = [] # js ''api'' # ss"
    and "list_all2 seg_matches p (ss @ [num_str n])" and "body_conforms (body_fields e) b"
  shows "serves (api_route m p a e) (mk_request m (pre @ [0x2F] @ num_str n) b)"
  using assms segments_id(1) [OF assms(1) _ assms(2) refl, of "[]" n]
  by (simp add: serves_def route_defs instance_of_def)

lemma serves_id_sub:
  assumes "0x3F \<notin> set (js ''/api'' @ pre)" and "0x3F \<notin> set post"
    and "js_split 0x2F (js ''/api'' @ pre) = [] # js ''api'' # ss" and "js_split 0x2F post = ps"
    and "list_all2 seg_matches p (ss @ [num_str n] @ ps)" and "body_conforms (body_fields e) b"
  shows "serves (api_route m p a e) (mk_request m (pre @ [0x2F] @ num_str n @ [0x2F] @ post) b)"
  using assms segments_id(2) [OF assms(1-4), of n]
  by (simp add: serves_def route_defs instance_of_def)

lemma groups_requests_served:
  "serves (api_route GET [Lit (js ''groups'')] Admin ListGroups) groups_get"
  "serves (api_route GET [Lit (js ''categories'')] Admin ListCategories) categories_get"
  "serves (api_route POST [Lit (js ''groups'')] Admin CreateGroup) (groups_post name description)"
  unfolding groups_get_def categories_get_def groups_post_def
  by (rule serves_static; simp add: js.simps body_fields_def)+

lemma group_id_requests_served:
  "serves (api_route DELETE [Lit (js ''groups''), Param] Admin DeleteGroup) (groups_delete gid)"
  "serves (api_route GET [Lit (js ''groups''), Param, Lit (js ''policy'')] Admin GetGroupPolicy)
     (policy_get gid)"
  "serves (api_route PUT [Lit (js ''groups''), Param, Lit (js ''policy'')] Admin SetGroupPolicy)
     (policy_put gid cats)"
  using serves_id [of "js ''/groups''" "[js ''groups'']" "[Lit (js ''groups''), Param]" gid DeleteGroup None
      DELETE Admin]
    serves_id_sub [of "js ''/groups''" "js ''policy''" "[js ''groups'']" "[js ''policy'']"
      "[Lit (js ''groups''), Param, Lit (js ''policy'')]" gid GetGroupPolicy None GET Admin]
    serves_id_sub [of "js ''/groups''" "js ''policy''" "[js ''groups'']" "[js ''policy'']"
      "[Lit (js ''groups''), Param, Lit (js ''policy'')]" gid SetGroupPolicy
      "Some (JObj [(js ''categories'', JArr (map JNum cats))])" PUT Admin]
  by (simp_all add: groups_delete_def policy_get_def policy_put_def js.simps body_fields_def list_all_iff)


lemma lists_requests_served:
  "serves (api_route GET [Lit (js ''lists'')] Admin ListBlocklists) lists_get"
  "serves (api_route GET [Lit (js ''categories'')] Admin ListCategories) lists_categories_get"
  "serves (api_route POST [Lit (js ''lists'')] Admin CreateBlocklist) (lists_post name url (Some t))"
  "serves (api_route POST [Lit (js ''lists''), Lit (js ''download'')] Admin DownloadLists) download_post"
  "serves (api_route POST [Lit (js ''lists''), Lit (js ''reload'')] Admin ReloadLists) reload_post"
  unfolding lists_get_def lists_categories_get_def lists_post_def download_post_def reload_post_def
  by (rule serves_static; simp add: js.simps body_fields_def)+

lemma list_id_requests_served:
  "serves (api_route DELETE [Lit (js ''lists''), Param] Admin DeleteBlocklist) (lists_delete lid)"
  "serves (api_route GET [Lit (js ''lists''), Param, Lit (js ''categories'')] Admin GetBlocklistCategories)
     (list_cats_get lid)"
  "serves (api_route PUT [Lit (js ''lists''), Param, Lit (js ''categories'')] Admin SetBlocklistCategories)
     (list_cats_put lid cats)"
  "serves (api_route POST [Lit (js ''lists''), Param, Lit (js ''entries'')] Admin AddEntries)
     (entries_post lid ds)"
  using serves_id [of "js ''/lists''" "[js ''lists'']" "[Lit (js ''lists''), Param]" lid DeleteBlocklist
      None DELETE Admin]
    serves_id_sub [of "js ''/lists''" "js ''categories''" "[js ''lists'']" "[js ''categories'']"
      "[Lit (js ''lists''), Param, Lit (js ''categories'')]" lid GetBlocklistCategories None GET Admin]
    serves_id_sub [of "js ''/lists''" "js ''categories''" "[js ''lists'']" "[js ''categories'']"
      "[Lit (js ''lists''), Param, Lit (js ''categories'')]" lid SetBlocklistCategories
      "Some (JObj [(js ''categories'', JArr (map JNum cats))])" PUT Admin]
    serves_id_sub [of "js ''/lists''" "js ''entries''" "[js ''lists'']" "[js ''entries'']"
      "[Lit (js ''lists''), Param, Lit (js ''entries'')]" lid AddEntries
      "Some (JObj [(js ''domains'', JArr (map JStr ds))])" POST Admin]
  by (simp_all add: lists_delete_def list_cats_get_def list_cats_put_def entries_post_def js.simps
        body_fields_def list_all_iff)

lemma users_requests_served:
  "serves (api_route GET [Lit (js ''users'')] Admin ListUsers) users_get"
  "serves (api_route POST [Lit (js ''users'')] Admin CreateUser) (users_post u p (Some r))"
  unfolding users_get_def users_post_def
  by (rule serves_static; simp add: js.simps body_fields_def)+

lemma ranges_requests_served:
  "serves (api_route GET [Lit (js ''ranges'')] Admin ListRanges) ranges_get"
  "serves (api_route GET [Lit (js ''groups'')] Admin ListGroups) ranges_groups_get"
  "serves (api_route POST [Lit (js ''ranges'')] Admin CreateRange) (ranges_post c (Some g) (Some m) d)"
  unfolding ranges_get_def ranges_groups_get_def ranges_post_def
  by (rule serves_static; simp add: js.simps body_fields_def)+

lemma dashboard_requests_served:
  "serves (api_route GET [Lit (js ''metrics'')] Authenticated GetMetrics) metrics_get"
  "serves (api_route GET [Lit (js ''dashboard'')] Authenticated GetDashboardStats) stats_get"
  unfolding metrics_get_def stats_get_def
  by (rule serves_static; simp add: js.simps body_fields_def)+

lemma logs_requests_served:
  "serves (api_route GET [Lit (js ''logs'')] Authenticated GetLogs) (logs_get d)"
proof -
  have url: "js ''/api'' @ logs_url_path = js ''/api/logs'' @ [0x3F]"
    by (simp add: logs_url_path_def js.simps)
  have "takeWhile (\<lambda>u. u \<noteq> 0x3F) (js ''/api'' @ logs_url_path @ q) = js ''/api/logs''" for q
    using takeWhile_static [of "js ''/api/logs''" "[0x3F] @ q"] url [symmetric]
    by (simp add: js.simps logs_url_path_def)
  then have "path_segments (js ''/api'' @ logs_url_path @ q) = [js ''api'', js ''logs'']" for q
    by (simp add: path_segments_def js.simps)
  then show ?thesis
    by (simp add: serves_def route_defs logs_get_def instance_of_def body_fields_def)
qed

text \<open>The same for every request in flight of a page.\<close>

lemma in_table: "rt \<in> set authenticated_table \<or> rt \<in> set admin_table \<Longrightarrow> rt \<in> set NewRouter"
  by (auto simp: NewRouter_def)

lemma served_admin: "api_route m p Admin e \<in> set admin_table \<Longrightarrow> serves (api_route m p Admin e) q \<Longrightarrow>
  served_with Admin q"
  by (rule served_withI [of "api_route m p Admin e"]) (auto simp: in_table route_defs)

lemma served_authenticated:
  "api_route m p Authenticated e \<in> set authenticated_table \<Longrightarrow>
   serves (api_route m p Authenticated e) q \<Longrightarrow> served_with Authenticated q"
  by (rule served_withI [of "api_route m p Authenticated e"]) (auto simp: in_table route_defs)

lemma groups_call_served: "groups_call k q \<Longrightarrow> served_with Admin q"
  by (cases "(k, q)" rule: groups_call.cases)
     (auto simp: admin_table_def intro: served_admin [OF _ groups_requests_served(1)]
        served_admin [OF _ groups_requests_served(2)] served_admin [OF _ groups_requests_served(3)]
        served_admin [OF _ group_id_requests_served(1)] served_admin [OF _ group_id_requests_served(2)]
        served_admin [OF _ group_id_requests_served(3)])

lemma lists_call_served: "lists_call k q \<Longrightarrow> served_with Admin q"
  by (cases "(k, q)" rule: lists_call.cases)
     (auto simp: admin_table_def intro: served_admin [OF _ lists_requests_served(1)]
        served_admin [OF _ lists_requests_served(2)] served_admin [OF _ lists_requests_served(3)]
        served_admin [OF _ lists_requests_served(4)] served_admin [OF _ lists_requests_served(5)]
        served_admin [OF _ list_id_requests_served(1)] served_admin [OF _ list_id_requests_served(2)]
        served_admin [OF _ list_id_requests_served(3)] served_admin [OF _ list_id_requests_served(4)])

lemma users_call_served: "users_call k q \<Longrightarrow> served_with Admin q"
  by (cases "(k, q)" rule: users_call.cases)
     (auto simp: admin_table_def intro: served_admin [OF _ users_requests_served(1)]
        served_admin [OF _ users_requests_served(2)])

lemma ranges_call_served: "ranges_call k q \<Longrightarrow> served_with Admin q"
  by (cases "(k, q)" rule: ranges_call.cases)
     (auto simp: admin_table_def intro: served_admin [OF _ ranges_requests_served(1)]
        served_admin [OF _ ranges_requests_served(2)] served_admin [OF _ ranges_requests_served(3)])

lemma dashboard_call_served: "dashboard_call ps c \<Longrightarrow> served_with Authenticated (fst c)"
  by (cases "(ps, c)" rule: dashboard_call.cases)
     (auto simp: authenticated_table_def intro: served_authenticated [OF _ dashboard_requests_served(1)]
        served_authenticated [OF _ dashboard_requests_served(2)])

lemma logs_call_served:
  assumes "logs_call c"
  shows "served_with Authenticated (fst c)"
proof -
  have "served_with Authenticated (logs_get d)" for d
    by (rule served_authenticated [OF _ logs_requests_served]) (simp add: authenticated_table_def)
  with assms show ?thesis by (auto simp: logs_call_def)
qed

lemma AuthMiddleware_bearer:
  "tok \<noteq> [] \<Longrightarrow> AuthMiddleware parse (Some (bearer tok)) =
     (case parse tok of None \<Rightarrow> Inl 401 | Some user \<Rightarrow> Inr user)"
  by (simp add: AuthMiddleware_def bearer_def js.simps)

subsection \<open>Properties\<close>

text \<open>C9: The pages for groups, lists, users and ranges only send requests that the API serves: every
  request in flight in any reachable state has a registered route, with a body of the type its
  handler decodes, and all of these routes are for administrators.\<close>

theorem admin_pages_served:
  assumes "reachable groups_step groups_init g" and "reachable lists_step lists_init l"
    and "reachable users_step users_init u" and "reachable ranges_step ranges_init r"
  shows "(\<forall>c \<in> set (inflight g). served_with Admin (fst c)) \<and>
    (\<forall>c \<in> set (inflight l). served_with Admin (fst c)) \<and>
    (\<forall>c \<in> set (inflight u). served_with Admin (fst c)) \<and>
    (\<forall>c \<in> set (inflight r). served_with Admin (fst c))"
proof -
  have "groups_inv g" using assms(1) unfolding groups_step_def by (rule groups.reachable_inv)
  then have "\<forall>c \<in> set (inflight g). served_with Admin (fst c)"
    using groups_call_served by (auto simp: groups_inv_def)
  moreover have "lists_inv l" using assms(2) unfolding lists_step_def by (rule lists_download.reachable_inv)
  then have "\<forall>c \<in> set (inflight l). served_with Admin (fst c)"
    using lists_call_served by (auto simp: lists_inv_def)
  moreover have "users_inv u" using assms(3) unfolding users_step_def by (rule users.reachable_inv)
  then have "\<forall>c \<in> set (inflight u). served_with Admin (fst c)"
    using users_call_served by (auto simp: users_inv_def)
  moreover have "ranges_inv r" using assms(4) unfolding ranges_step_def by (rule ranges.reachable_inv)
  then have "\<forall>c \<in> set (inflight r). served_with Admin (fst c)"
    using ranges_call_served by (auto simp: ranges_inv_def)
  ultimately show ?thesis by blast
qed

theorem admin_pages_served_witness:
  "list_all (\<lambda>c. served_with Admin (fst c)) (inflight groups_init) \<and>
   list_all (\<lambda>c. served_with Admin (fst c)) (inflight lists_init) \<and>
   list_all (\<lambda>c. served_with Admin (fst c)) (inflight users_init) \<and>
   list_all (\<lambda>c. served_with Admin (fst c)) (inflight ranges_init)"
  using admin_pages_served [OF reach_start reach_start reach_start reach_start]
  by (simp add: list_all_iff)

text \<open>The overview and the logs only send requests that the API serves to any authenticated user: a
  viewer can use both pages.\<close>

theorem viewer_pages_served:
  assumes "reachable dashboard_step dashboard_init d" and "reachable (logs_step core_rows) logs_init l"
  shows "(\<forall>c \<in> set (inflight d). served_with Authenticated (fst c)) \<and>
    (\<forall>c \<in> set (inflight l). served_with Authenticated (fst c))"
proof -
  have "dashboard_inv d" using assms(1) unfolding dashboard_step_def by (rule dashboard.reachable_inv)
  moreover have "logs_inv l" using assms(2) unfolding logs_step_def by (rule logs.reachable_inv)
  ultimately show ?thesis
    using dashboard_call_served logs_call_served
    unfolding dashboard_inv_def logs_inv_def list_all_iff by blast
qed

theorem viewer_pages_served_witness:
  "list_all (\<lambda>c. served_with Authenticated (fst c)) (inflight dashboard_init) \<and>
   list_all (\<lambda>c. served_with Authenticated (fst c)) (inflight logs_init)"
  using viewer_pages_served [OF reach_start reach_start] by (simp add: list_all_iff)

text \<open>The automatic refresh cannot save an expired session: the route for it is behind the same check,
  so a token that has been answered with 401 is answered with 401 again when it asks for its
  successor. Whatever the time of the second check, the call ends in the login page.\<close>

theorem refresh_of_rejected_token:
  assumes "stays_invalid parse" and "now \<le> later"
    and "i < length (c_calls s)" and "c_calls s ! i = Sent c" and "\<not> cf_retry c"
    and "\<not> c_isRefreshing s" and "c_token s = Some tok" and "tok \<noteq> []"
    and "cf_auth c = Some (bearer tok)"
    and "access_check (parse now) a (cf_auth c) = Inl 401"
  shows "\<exists>t u h. client_step merge (Respond i (Failure (HttpError 401))) s = Some t \<and>
     c_refreshes t = c_refreshes s @ [(i, h)] \<and>
     api_route POST [Lit (js ''auth''), Lit (js ''refresh'')] Authenticated RefreshToken \<in> set NewRouter \<and>
     access_check (parse later) Authenticated (Some h) = Inl 401 \<and>
     client_step merge (RefreshReply i RefreshFailed) t = Some u \<and>
     c_token u = None \<and> c_location u = login_path \<and> c_calls u ! i = Rejected (HttpError 401)"
proof -
  have "parse now tok = None"
    using assms(8-10)
    by (cases a; cases "parse now tok") (auto simp: access_check_def AuthMiddleware_bearer AdminOnly_def
          split: if_splits)
  then have "parse later tok = None" using assms(1,2) by (auto simp: stays_invalid_def)
  then have reject: "access_check (parse later) Authenticated (Some (bearer tok)) = Inl 401"
    using assms(8) by (simp add: access_check_def AuthMiddleware_bearer)
  have route: "api_route POST [Lit (js ''auth''), Lit (js ''refresh'')] Authenticated RefreshToken
      \<in> set NewRouter"
    by (simp add: NewRouter_def authenticated_table_def)
  have tok: "getItem token_key (c_storage s) = Some tok" using assms(7) by (simp add: c_token_def)
  show ?thesis
    using assms(3-6,8) reject route
    by (auto simp: response_error_def refresh_resume_def refresh_catch_def settle_def end_session_def
          c_token_def Let_def tok)
qed

definition demo_parse :: "nat \<Rightarrow> jsstr \<Rightarrow> auth_user option" where
  "demo_parse now tok =
     (if now < 3600 then Some \<lparr>au_id = 1, au_username = js ''ana'', au_role = 1\<rparr> else None)"

theorem refresh_of_rejected_token_witness:
  "\<exists>s t u h. run (client_step id) [Request demo_request] (client_start demo_store (js ''/'')) = Some s \<and>
     client_step id (Respond 0 (Failure (HttpError 401))) s = Some t \<and>
     c_refreshes t = c_refreshes s @ [(0, h)] \<and>
     access_check (demo_parse 4001) Authenticated (Some h) = Inl 401 \<and>
     client_step id (RefreshReply 0 RefreshFailed) t = Some u \<and> c_token u = None"
proof -
  define s where "s = api_request id demo_request (client_start demo_store (js ''/''))"
  define c where "c = request_interceptor (Some (js ''t1''))
    \<lparr>cf_request = demo_request, cf_auth = None, cf_retry = False\<rparr>"
  have s: "run (client_step id) [Request demo_request] (client_start demo_store (js ''/'')) = Some s"
    by (simp add: s_def)
  have t1: "js ''t1'' \<noteq> []" by (simp add: js.simps)
  have sel: "c_calls s = [Sent c]" "\<not> c_isRefreshing s" "c_token s = Some (js ''t1'')"
    "cf_auth c = Some (bearer (js ''t1''))" "\<not> cf_retry c"
    using t1 by (simp_all add: s_def c_def client_defs c_token_def request_interceptor_def Let_def)
  have "access_check (demo_parse 4000) Authenticated (cf_auth c) = Inl 401"
    using t1 by (simp add: sel(4) access_check_def AuthMiddleware_bearer demo_parse_def)
  moreover have "stays_invalid demo_parse" by (auto simp: stays_invalid_def demo_parse_def split: if_splits)
  ultimately show ?thesis
    using refresh_of_rejected_token [of demo_parse 4000 4001 0 s c "js ''t1''" Authenticated id] sel t1 s
    by auto
qed

text \<open>Roles. With a valid token of a user that is not an administrator, every administrator route answers
  403 and every authenticated route passes the user on; without a valid token both answer 401.\<close>

theorem access_by_role:
  assumes "tok \<noteq> []"
  shows "access_check parse Admin (Some (bearer tok)) =
      (case parse tok of None \<Rightarrow> Inl 401
       | Some user \<Rightarrow> if au_role user = 0 then Inr (Some user) else Inl 403) \<and>
    access_check parse Authenticated (Some (bearer tok)) =
      (case parse tok of None \<Rightarrow> Inl 401 | Some user \<Rightarrow> Inr (Some user)) \<and>
    access_check parse Admin None = Inl 401 \<and> access_check parse Authenticated None = Inl 401"
  using AuthMiddleware_bearer [OF assms, of parse]
  by (auto simp: access_check_def AdminOnly_def AuthMiddleware_def split: option.splits)

theorem access_by_role_witness:
  "access_check (demo_parse 0) Admin (Some (bearer (js ''t1''))) = Inl 403"
  using access_by_role [of "js ''t1''" "demo_parse 0"] by (simp add: demo_parse_def js.simps)

end
