(* ===== verification/LoginPage.thy ===== *)
theory LoginPage
  imports Shared Storage
begin

text \<open>
  The login page, \<open>web/src/pages/Login.tsx\<close>: one request with the two fields, without the API
  client's interceptors; the token of the reply goes to the storage and the user to the dashboard.
  The component is gone once the address has changed, so it renders nothing from then on.
\<close>

datatype login_cont = NKLogin

record login_state = "login_cont async" +
  n_username :: jsstr
  n_password :: jsstr
  n_error :: jsstr
  n_loading :: bool
  n_storage :: storage
  n_path :: jsstr

definition login_post :: "jsstr \<Rightarrow> jsstr \<Rightarrow> request" where
  "login_post username password =
     mk_request POST (js ''/api/auth/login'')
       (Some (JObj [(js ''username'', JStr username), (js ''password'', JStr password)]))"

lemma login_post_inject [simp]: "login_post u p = login_post u' p' \<longleftrightarrow> u = u' \<and> p = p'"
  by (auto simp: login_post_def)

definition login_init :: "storage \<Rightarrow> login_state" where
  "login_init st =
     \<lparr>inflight = [], timers = 0, n_username = [], n_password = [], n_error = [], n_loading = False,
      n_storage = st, n_path = js ''/login''\<rparr>"

definition login_handleSubmit :: "login_state \<Rightarrow> login_state" where
  "login_handleSubmit s =
     issue (login_post (n_username s) (n_password s)) NKLogin (s\<lparr>n_error := [], n_loading := True\<rparr>)"

datatype login_action = NSubmit
datatype login_field = NUsername | NPassword

fun login_act :: "login_action \<Rightarrow> bool \<Rightarrow> login_state \<Rightarrow> login_state" where
  "login_act NSubmit ok s = login_handleSubmit s"

fun login_edit :: "login_field \<Rightarrow> jsstr \<Rightarrow> login_state \<Rightarrow> login_state" where
  "login_edit NUsername v s = s\<lparr>n_username := v\<rparr>"
| "login_edit NPassword v s = s\<lparr>n_password := v\<rparr>"

text \<open>
  The reply: a body whose \<open>token\<close> is a string or missing (stored as the word \<open>undefined\<close>), a null
  body, on which reading \<open>token\<close> throws, or an error of any kind.
\<close>

datatype login_reply = NRBody "jsstr option" | NRNull | NRError

definition login_catch :: "login_state \<Rightarrow> login_state" where
  "login_catch s = s\<lparr>n_error := js ''Usu%E1rio ou senha inv%E1lidos''\<rparr>"

definition login_finally :: "login_state \<Rightarrow> login_state" where
  "login_finally s = s\<lparr>n_loading := False\<rparr>"

fun login_resume :: "login_cont \<Rightarrow> login_reply \<Rightarrow> login_state \<Rightarrow> login_state option" where
  "login_resume NKLogin (NRBody tok) s =
     Some (login_finally
       (s\<lparr>n_storage := setItem token_key (case tok of None \<Rightarrow> js ''undefined'' | Some t \<Rightarrow> t) (n_storage s),
          n_path := js ''/''\<rparr>))"
| "login_resume NKLogin NRNull s = Some (login_finally (login_catch s))"
| "login_resume NKLogin NRError s = Some (login_finally (login_catch s))"

definition login_tick :: "login_state \<Rightarrow> login_state" where
  "login_tick s = s"

subsection \<open>View\<close>

definition login_form :: "login_state \<Rightarrow> (login_field, login_action) node" where
  "login_form s =
     Elem TForm [OnSubmit NSubmit]
       [Elem TLabel [] [Text (js ''Usu%E1rio'')],
        text_input (js ''text'') (n_username s) NUsername True,
        Elem TLabel [] [Text (js ''Senha'')],
        text_input (js ''password'') (n_password s) NPassword True,
        submit_button (if n_loading s then js ''Entrando...'' else js ''Entrar'') (n_loading s)]"

definition login_view :: "login_state \<Rightarrow> (login_field, login_action) node option" where
  "login_view s =
     (if n_path s \<noteq> js ''/login'' then None
      else Some (Elem TDiv []
        [Elem TDiv []
          ([Elem TH1 [] [Text (js ''DNS Filter'')],
            Elem TP [] [Text (js ''Fa%E7a login para acessar o painel.'')]] @
           (if n_error s = [] then [] else [Elem TDiv [] [Text (n_error s)]]) @
           [login_form s])]))"

definition login_step ::
  "(login_action, login_field, login_reply) page_event \<Rightarrow> login_state \<Rightarrow> login_state option" where
  "login_step = page_step login_view login_act login_edit login_resume login_tick"

lemma login_form_view [view_simps]:
  "clicks (login_form s) = []"
  "submits (login_form s) =
     (if n_username s \<noteq> [] \<and> n_password s \<noteq> [] \<and> \<not> n_loading s then [NSubmit] else [])"
  by (simp_all add: login_form_def view_simps attr_defs form_ready_def)

lemma login_view_offers:
  "view_clicks (login_view s) = []"
  "view_submits (login_view s) =
     (if n_path s = js ''/login'' \<and> n_username s \<noteq> [] \<and> n_password s \<noteq> [] \<and> \<not> n_loading s
      then [NSubmit] else [])"
  by (simp_all add: login_view_def view_simps attr_defs)

subsection \<open>Invariant\<close>

fun is_login :: "login_cont \<Rightarrow> bool" where
  "is_login NKLogin = True"

definition login_call :: "request \<Rightarrow> bool" where
  "login_call q \<longleftrightarrow> (\<exists>u p. q = login_post u p \<and> u \<noteq> [] \<and> p \<noteq> [])"

lemma login_call_post [simp]: "login_call (login_post u p) \<longleftrightarrow> u \<noteq> [] \<and> p \<noteq> []"
  by (auto simp: login_call_def)

definition login_inv :: "login_state \<Rightarrow> bool" where
  "login_inv s \<longleftrightarrow>
     busy_ok is_login (n_loading s) (inflight s) \<and>
     (\<forall>c \<in> set (inflight s). login_call (fst c)) \<and>
     (n_path s = js ''/login'' \<or>
      n_path s = js ''/'' \<and> \<not> n_loading s \<and> getItem token_key (n_storage s) \<noteq> None)"

lemma login_inv_init: "login_inv (login_init st)"
  by (simp add: login_inv_def login_init_def)

lemma login_inv_act:
  assumes "login_inv s" and "a \<in> set (view_clicks (login_view s)) \<union> set (view_submits (login_view s))"
  shows "login_inv (login_act a ok s)"
  using assms
  by (cases a) (auto simp: login_inv_def login_view_offers login_handleSubmit_def issue_def split: if_splits)

lemma login_inv_edit: "login_inv s \<Longrightarrow> login_inv (login_edit f v s)"
  by (cases f) (simp_all add: login_inv_def)

lemma login_inv_resume:
  assumes inv: "login_inv s" and i: "i < length (inflight s)" "inflight s ! i = (q, k)"
    and res: "login_resume k r (take_reply i s) = Some t"
  shows "login_inv t"
proof -
  let ?u = "take_reply i s"
  have k: "is_login k" by (cases k) simp
  have busy: "busy_ok is_login False (inflight ?u)"
    using busy_ok_reply [OF _ i, of is_login "n_loading s"] inv k by (simp add: login_inv_def)
  have calls: "\<forall>c \<in> set (inflight ?u). login_call (fst c)"
    by (rule ball_take_reply) (use inv in \<open>simp add: login_inv_def\<close>)
  have "n_path s = js ''/login'' \<or> n_path s = js ''/'' \<and> getItem token_key (n_storage s) \<noteq> None"
    using inv by (auto simp: login_inv_def)
  with busy calls res show ?thesis
    by (cases k; cases r) (auto simp: login_inv_def login_finally_def login_catch_def take_reply_def)
qed

lemma login_inv_tick: "login_inv s \<Longrightarrow> login_inv (login_tick (fire_timer s))"
  by (simp add: login_inv_def login_tick_def fire_timer_def)

lemma login_inv_busy: "login_inv s \<Longrightarrow> pending is_login s = (if n_loading s then 1 else 0)"
  by (simp add: login_inv_def busy_ok_pending)

interpretation login: exclusive_page login_view login_act login_edit login_resume login_tick
  "login_init st" login_inv n_loading is_login
  for st
  by unfold_locales
    (erule login_inv_resume login_inv_act login_inv_edit login_inv_tick login_inv_busy
     | rule login_inv_init | assumption)+

subsection \<open>Properties\<close>

text \<open>At most one login is in flight, exactly while the button says that it is loading, and it carries a
  user name and a password that are not empty.\<close>

theorem single_login:
  assumes "reachable login_step (login_init st) s"
  shows "length (inflight s) \<le> 1 \<and> (n_loading s \<longleftrightarrow> inflight s \<noteq> []) \<and>
    (\<forall>c \<in> set (inflight s). login_call (fst c))"
proof -
  have inv: "login_inv s" using assms unfolding login_step_def by (rule login.reachable_inv)
  have "is_login k" for k by (cases k) simp
  then have "length (inflight s) = (if n_loading s then 1 else 0)"
    using inv by (simp add: login_inv_def busy_ok_def count_calls_def)
  then show ?thesis using inv by (auto simp: login_inv_def)
qed

definition login_demo :: "(login_action, login_field, login_reply) page_event list" where
  "login_demo = [Edit NUsername (js ''ana''), Edit NPassword (js ''x''), Submit NSubmit]"

lemmas login_eval = login_step_def page_step_def login_init_def login_handleSubmit_def issue_def
  take_reply_def remove_nth_def login_view_def view_simps attr_defs can_type_iff login_form_def
  form_ready_def login_finally_def login_catch_def

lemma login_demo_run:
  "\<exists>s. run login_step login_demo (login_init Map.empty) = Some s \<and>
     inflight s = [(login_post (js ''ana'') (js ''x''), NKLogin)]"
  by (simp add: login_demo_def login_eval js.simps)

theorem single_login_witness:
  "\<exists>s. run login_step login_demo (login_init Map.empty) = Some s \<and> n_loading s"
proof -
  obtain s where s: "run login_step login_demo (login_init Map.empty) = Some s"
    "inflight s = [(login_post (js ''ana'') (js ''x''), NKLogin)]"
    using login_demo_run by blast
  from single_login [OF run_reachable [OF s(1)]] s show ?thesis by auto
qed

text \<open>The outcomes of a login. A reply with a token stores it and goes to the overview; any failure,
  whatever its status, keeps the storage, the address and both fields and shows the message for wrong
  credentials; either way the form is enabled again.\<close>

theorem login_outcome:
  assumes "login_resume NKLogin r s = Some t"
  shows "\<not> n_loading t \<and> n_username t = n_username s \<and> n_password t = n_password s \<and>
    (case r of
       NRBody tok \<Rightarrow>
         getItem token_key (n_storage t) = Some (case tok of None \<Rightarrow> js ''undefined'' | Some x \<Rightarrow> x) \<and>
         n_path t = js ''/''
     | _ \<Rightarrow> n_storage t = n_storage s \<and> n_path t = n_path s \<and>
         n_error t = js ''Usu%E1rio ou senha inv%E1lidos'')"
  using assms by (cases r) (auto simp: login_finally_def login_catch_def)

theorem login_outcome_witness:
  "\<exists>t. login_resume NKLogin (NRBody (Some (js ''t1''))) (login_init Map.empty) = Some t \<and>
     getItem token_key (n_storage t) = Some (js ''t1'') \<and> n_path t = js ''/''"
  using login_outcome [of "NRBody (Some (js ''t1''))" "login_init Map.empty"] by auto

end
