(* ===== verification/Session.thy ===== *)
theory Session
  imports ApiClient
begin

text \<open>
  The application shell: the routes and the guard of \<open>web/src/App.tsx\<close> and the layout of
  \<open>web/src/layouts/MainLayout.tsx\<close>, with what becomes of the session when the user follows a
  link, logs in, logs out or is logged out by the API client. How the router compares a path pattern
  with the address belongs to react-router, so it is a parameter \<open>match\<close>; \<open>router_match\<close> states
  the documented behaviour that the application relies on: a static pattern matches its own path, and no
  address matches two of the patterns.

  The guard reads the storage only when it renders. React renders it when the address comes from
  outside the guarded routes; between two guarded routes it may keep the guard as it is, so a
  navigation event says whether it rendered (\<open>guard\<close>).
\<close>

datatype screen = Login | Dashboard | Logs | Users | Groups | Lists | Ranges

datatype rendered =
    Page screen
  | Framed screen
  | Redirect jsstr
  | NoMatch

subsection \<open>Routes\<close>

definition public_routes :: "(jsstr \<times> screen) list" where
  "public_routes = [(js ''/login'', Login)]"

definition protected_routes :: "(jsstr \<times> screen) list" where
  "protected_routes =
     [(js ''/'', Dashboard), (js ''/logs'', Logs), (js ''/users'', Users), (js ''/groups'', Groups),
      (js ''/lists'', Lists), (js ''/ranges'', Ranges)]"

definition ProtectedRoute :: "jsstr option \<Rightarrow> rendered \<Rightarrow> rendered" where
  "ProtectedRoute token children = (if \<not> truthy token then Redirect (js ''/login'') else children)"

definition find_route ::
  "(jsstr \<Rightarrow> jsstr \<Rightarrow> bool) \<Rightarrow> (jsstr \<times> screen) list \<Rightarrow> jsstr \<Rightarrow> screen option" where
  "find_route match rs path = map_option snd (find (\<lambda>(p, _). match p path) rs)"

definition App :: "(jsstr \<Rightarrow> jsstr \<Rightarrow> bool) \<Rightarrow> jsstr option \<Rightarrow> jsstr \<Rightarrow> rendered" where
  "App match token path =
     (case find_route match public_routes path of
        Some sc \<Rightarrow> Page sc
      | None \<Rightarrow>
          (case find_route match protected_routes path of
             Some sc \<Rightarrow> ProtectedRoute token (Framed sc)
           | None \<Rightarrow> NoMatch))"

definition router_match :: "(jsstr \<Rightarrow> jsstr \<Rightarrow> bool) \<Rightarrow> bool" where
  "router_match match \<longleftrightarrow>
     (\<forall>p \<in> fst ` set (public_routes @ protected_routes). match p p) \<and>
     (\<forall>p \<in> fst ` set (public_routes @ protected_routes).
        \<forall>q \<in> fst ` set (public_routes @ protected_routes). \<forall>path. match p path \<and> match q path \<longrightarrow> p = q)"

subsection \<open>The layout\<close>

definition navItems :: "(jsstr \<times> jsstr) list" where
  "navItems =
     [(js ''/'', js ''Dashboard''), (js ''/logs'', js ''Logs''), (js ''/users'', js ''Usu%E1rios''),
      (js ''/groups'', js ''Grupos''), (js ''/lists'', js ''Listas''), (js ''/ranges'', js ''IP Ranges'')]"

definition nav_active :: jsstr where
  "nav_active = js ''bg-blue-600 text-white''"

definition nav_inactive :: jsstr where
  "nav_inactive = js ''text-gray-300 hover:bg-gray-800 hover:text-white''"

definition nav_link :: "jsstr \<Rightarrow> jsstr \<times> jsstr \<Rightarrow> ('f, 'a) node" where
  "nav_link pathname item =
     Elem TLink
       [Key (fst item), LinkTo (fst item),
        ClassName (js ''flex items-center gap-3 px-4 py-3 rounded-lg text-sm transition-colors '' @
          (if pathname = fst item then nav_active else nav_inactive))]
       [Elem TIcon [] [], Text (snd item)]"

definition MainLayout :: "jsstr \<Rightarrow> 'a \<Rightarrow> ('f, 'a) node \<Rightarrow> ('f, 'a) node" where
  "MainLayout pathname logout outlet =
     Elem TDiv []
       [Elem TAside []
          [Elem TDiv [] [Elem TH1 [] [Text (js ''DNS Filter'')], Elem TP [] [Text (js ''Painel Administrativo'')]],
           Elem TNav [] (map (nav_link pathname) navItems),
           Elem TDiv [] [Elem TButton [OnClick logout] [Elem TIcon [] [], Text (js ''Sair'')]]],
        Elem TMain [] [outlet]]"

lemma nav_link_view [view_simps]:
  "clicks (nav_link p i) = []" "links (nav_link p i) = [fst i]"
  by (simp_all add: nav_link_def attr_defs)

lemma MainLayout_view [view_simps]:
  "clicks (MainLayout p a n) = a # clicks n"
  "links (MainLayout p a n) = map fst navItems @ links n"
  by (simp_all add: MainLayout_def view_simps attr_defs o_def set_concat_map_empty)

subsection \<open>The session of a browser tab\<close>

record session =
  ss_storage :: storage
  ss_path :: jsstr
  ss_shown :: rendered
  ss_leaving :: bool

definition ss_token :: "session \<Rightarrow> jsstr option" where
  "ss_token s = getItem token_key (ss_storage s)"

fun framed :: "rendered \<Rightarrow> bool" where
  "framed (Framed sc) = True"
| "framed _ = False"

text \<open>
  Showing an address. A rendered \<open><Navigate>\<close> changes the address and renders again. With the guard
  kept from a guarded route, a guarded route is shown without a look at the storage.
\<close>

definition show_path :: "(jsstr \<Rightarrow> jsstr \<Rightarrow> bool) \<Rightarrow> bool \<Rightarrow> jsstr \<Rightarrow> session \<Rightarrow> session" where
  "show_path match guard path s =
     (let token = (if \<not> guard \<and> framed (ss_shown s) then Some (js ''kept'') else ss_token s)
      in case App match token path of
           Redirect p \<Rightarrow> s\<lparr>ss_path := p, ss_shown := App match (ss_token s) p\<rparr>
         | r \<Rightarrow> s\<lparr>ss_path := path, ss_shown := r\<rparr>)"

definition load_page :: "(jsstr \<Rightarrow> jsstr \<Rightarrow> bool) \<Rightarrow> jsstr \<Rightarrow> session \<Rightarrow> session" where
  "load_page match path s = (show_path match True path s)\<lparr>ss_leaving := False\<rparr>"

definition session_start :: "(jsstr \<Rightarrow> jsstr \<Rightarrow> bool) \<Rightarrow> storage \<Rightarrow> jsstr \<Rightarrow> session" where
  "session_start match st path =
     load_page match path \<lparr>ss_storage = st, ss_path = path, ss_shown = NoMatch, ss_leaving = False\<rparr>"

text \<open>\<open>localStorage.removeItem('token'); navigate('/login')\<close>\<close>

definition handleLogout :: "(jsstr \<Rightarrow> jsstr \<Rightarrow> bool) \<Rightarrow> bool \<Rightarrow> session \<Rightarrow> session" where
  "handleLogout match guard s =
     show_path match guard (js ''/login'') (s\<lparr>ss_storage := removeItem token_key (ss_storage s)\<rparr>)"

text \<open>\<open>localStorage.setItem('token', res.data.token); navigate('/')\<close> in \<open>Login.tsx\<close>\<close>

definition login_stored :: "(jsstr \<Rightarrow> jsstr \<Rightarrow> bool) \<Rightarrow> jsstr \<Rightarrow> session \<Rightarrow> session" where
  "login_stored match tok s =
     show_path match True (js ''/'') (s\<lparr>ss_storage := setItem token_key tok (ss_storage s)\<rparr>)"

text \<open>The API client ends the session: the page stays until the browser has loaded the login page.\<close>

definition client_ends :: "session \<Rightarrow> session" where
  "client_ends s =
     s\<lparr>ss_storage := removeItem token_key (ss_storage s), ss_path := login_path, ss_leaving := True\<rparr>"

datatype session_event =
    OpenUrl jsstr
  | Reload
  | FollowLink jsstr bool
  | Logout bool
  | LoggedIn jsstr
  | ClientEnds
  | TokenRefreshed jsstr

fun session_step ::
  "(jsstr \<Rightarrow> jsstr \<Rightarrow> bool) \<Rightarrow> session_event \<Rightarrow> session \<Rightarrow> session option" where
  "session_step match (OpenUrl p) s = Some (load_page match p s)"
| "session_step match Reload s = Some (load_page match (ss_path s) s)"
| "session_step match (FollowLink p guard) s =
     (if framed (ss_shown s) \<and> p \<in> fst ` set navItems then Some (show_path match guard p s) else None)"
| "session_step match (Logout guard) s =
     (if framed (ss_shown s) then Some (handleLogout match guard s) else None)"
| "session_step match (LoggedIn tok) s =
     (if ss_shown s = Page Login then Some (login_stored match tok s) else None)"
| "session_step match ClientEnds s = (if framed (ss_shown s) then Some (client_ends s) else None)"
| "session_step match (TokenRefreshed tok) s =
     (if framed (ss_shown s) \<and> tok \<noteq> [] then Some (s\<lparr>ss_storage := setItem token_key tok (ss_storage s)\<rparr>)
      else None)"

lemma router_self:
  "router_match match \<Longrightarrow> p \<in> fst ` set (public_routes @ protected_routes) \<Longrightarrow> match p p"
  unfolding router_match_def by blast

lemma router_unique:
  "router_match match \<Longrightarrow> match p path \<Longrightarrow> match q path \<Longrightarrow>
   p \<in> fst ` set (public_routes @ protected_routes) \<Longrightarrow>
   q \<in> fst ` set (public_routes @ protected_routes) \<Longrightarrow> p = q"
  unfolding router_match_def by blast

lemma App_login: "router_match match \<Longrightarrow> App match tok (js ''/login'') = Page Login"
  using router_self [of match "js ''/login''"]
  by (simp add: App_def find_route_def public_routes_def)

lemma App_framed: "framed (App match tok path) \<Longrightarrow> truthy tok"
  by (auto simp: App_def ProtectedRoute_def split: option.splits if_splits)

lemma App_redirect: "App match tok path = Redirect p \<Longrightarrow> p = js ''/login'' \<and> \<not> truthy tok"
  by (auto simp: App_def ProtectedRoute_def split: option.splits if_splits)

definition session_inv :: "session \<Rightarrow> bool" where
  "session_inv s \<longleftrightarrow> (framed (ss_shown s) \<longrightarrow> truthy (ss_token s) \<or> ss_leaving s)"

lemma show_path_frame:
  "ss_storage (show_path match g p s) = ss_storage s" "ss_token (show_path match g p s) = ss_token s"
  "ss_leaving (show_path match g p s) = ss_leaving s"
  by (simp_all add: show_path_def ss_token_def Let_def split: rendered.splits)

lemma show_path_framed:
  assumes "framed (ss_shown (show_path match g p s))"
  shows "truthy (ss_token s) \<or> \<not> g \<and> framed (ss_shown s)"
proof (cases "\<not> g \<and> framed (ss_shown s)")
  case False
  then have "App match (if \<not> g \<and> framed (ss_shown s) then Some (js ''kept'') else ss_token s) q
      = App match (ss_token s) q" for q by auto
  with assms show ?thesis
    using App_framed [of match "ss_token s"]
    by (auto simp: show_path_def split: rendered.splits) (metis framed.simps(1))+
qed simp

lemma session_inv_show: "session_inv s \<Longrightarrow> session_inv (show_path match g p s)"
  using show_path_framed [of match g p s] by (auto simp: session_inv_def show_path_frame)

lemma session_inv_load: "session_inv (load_page match p s)"
  using show_path_framed [of match True p s]
  by (auto simp: session_inv_def load_page_def ss_token_def show_path_frame)

lemma show_login:
  assumes "router_match match"
  shows "ss_shown (show_path match g (js ''/login'') s) = Page Login"
    "ss_path (show_path match g (js ''/login'') s) = js ''/login''"
  by (simp_all add: show_path_def App_login [OF assms])

lemma session_inv_step:
  assumes "router_match match" and "session_inv s" and "session_step match ev s = Some t"
  shows "session_inv t"
proof (cases ev)
  case (LoggedIn tok)
  let ?s = "s\<lparr>ss_storage := setItem token_key tok (ss_storage s)\<rparr>"
  from LoggedIn assms(3) have "ss_shown s = Page Login" "t = show_path match True (js ''/'') ?s"
    by (auto simp: login_stored_def split: if_splits)
  then show ?thesis using session_inv_show [of ?s] by (simp add: session_inv_def)
next
  case (Logout g)
  with assms show ?thesis
    by (auto simp: handleLogout_def session_inv_def show_login split: if_splits)
qed (use assms in \<open>auto simp: session_inv_show session_inv_load client_ends_def split: if_splits\<close>;
     simp add: session_inv_def ss_token_def)+

lemma session_machine:
  "router_match match \<Longrightarrow> machine_invariant (session_step match) (session_start match st path) session_inv"
  by (rule machine_invariant.intro)
     (simp add: session_start_def session_inv_load, rule session_inv_step)

lemma find_key: "distinct (map fst xs) \<Longrightarrow> (k, v) \<in> set xs \<Longrightarrow> find (\<lambda>(q, _). q = k) xs = Some (k, v)"
  by (induction xs) force+

lemma protected_paths_distinct: "distinct (map fst protected_routes)"
  by (simp add: protected_routes_def js.simps)

lemma App_protected:
  assumes "router_match match" and "(p, sc) \<in> set protected_routes"
  shows "App match tok p = (if truthy tok then Framed sc else Redirect (js ''/login''))"
proof -
  have mem: "p \<in> fst ` set (public_routes @ protected_routes)"
    using image_eqI [of p fst "(p, sc)" "set (public_routes @ protected_routes)"] assms(2) by simp
  have self: "match p p" by (rule router_self [OF assms(1) mem])
  have uniq: "q = p" if "q \<in> fst ` set (public_routes @ protected_routes)" "match q p" for q
    by (rule router_unique [OF assms(1) that(2) self that(1) mem])
  have "\<not> match (js ''/login'') p"
    using uniq [of "js ''/login''"] assms(2) by (auto simp: public_routes_def protected_routes_def js.simps)
  then have "find_route match public_routes p = None"
    by (simp add: find_route_def public_routes_def)
  moreover have "find_route match protected_routes p = Some sc"
  proof -
    have "find (\<lambda>(q, _). match q p) protected_routes = Some (p, sc)"
    proof -
      have "match (fst r) p \<longleftrightarrow> fst r = p" if "r \<in> set protected_routes" for r
        using uniq [of "fst r"] that self by auto
      then have "find (\<lambda>(q, _). match q p) protected_routes = find (\<lambda>(q, _). q = p) protected_routes"
        by (intro find_cong) (auto simp: split_beta)
      also have "\<dots> = Some (p, sc)"
        by (rule find_key [OF protected_paths_distinct assms(2)])
      finally show ?thesis .
    qed
    then show ?thesis by (simp add: find_route_def)
  qed
  ultimately show ?thesis
    by (simp add: App_def ProtectedRoute_def)
qed

subsection \<open>Properties\<close>

definition router_exact :: "jsstr \<Rightarrow> jsstr \<Rightarrow> bool" where
  "router_exact p path \<longleftrightarrow> toLowerCase path = p"

lemma route_paths_lower:
  "toLowerCase (js ''/login'') = js ''/login''" "toLowerCase (js ''/'') = js ''/''"
  "toLowerCase (js ''/logs'') = js ''/logs''" "toLowerCase (js ''/users'') = js ''/users''"
  "toLowerCase (js ''/groups'') = js ''/groups''" "toLowerCase (js ''/lists'') = js ''/lists''"
  "toLowerCase (js ''/ranges'') = js ''/ranges''"
  by (simp_all add: toLowerCase_def lower_unit_def js.simps)

lemma router_exact_ok: "router_match router_exact"
proof -
  have "router_exact p p" if "p \<in> fst ` set (public_routes @ protected_routes)" for p
    using that by (auto simp: public_routes_def protected_routes_def router_exact_def route_paths_lower)
  then show ?thesis by (auto simp: router_match_def router_exact_def)
qed

text \<open>No protected page without a session: in every reachable state of a tab in which a page is shown
  inside the layout, a token is stored or the browser is already leaving for the login page.\<close>

theorem protected_needs_session:
  assumes "router_match match" and "reachable (session_step match) (session_start match st path) s"
    and "framed (ss_shown s)"
  shows "truthy (ss_token s) \<or> ss_leaving s"
  using machine_invariant.reachable_inv [OF session_machine [OF assms(1)] assms(2)] assms(3)
  by (simp add: session_inv_def)

theorem protected_needs_session_witness:
  "\<exists>s. run (session_step router_exact) [LoggedIn (js ''t1'')]
       (session_start router_exact Map.empty (js ''/logs'')) = Some s \<and>
     ss_shown s = Framed Dashboard \<and> (truthy (ss_token s) \<or> ss_leaving s)"
proof -
  have "App router_exact None (js ''/logs'') = Redirect (js ''/login'')"
    using App_protected [OF router_exact_ok, of "js ''/logs''" Logs None]
    by (simp add: protected_routes_def)
  moreover have "App router_exact (Some (js ''t1'')) (js ''/'') = Framed Dashboard"
    using App_protected [OF router_exact_ok, of "js ''/''" Dashboard "Some (js ''t1'')"]
    by (simp add: protected_routes_def js.simps)
  ultimately obtain s where s: "run (session_step router_exact) [LoggedIn (js ''t1'')]
       (session_start router_exact Map.empty (js ''/logs'')) = Some s" "ss_shown s = Framed Dashboard"
    using App_login [OF router_exact_ok]
    by (simp add: session_start_def load_page_def show_path_def ss_token_def login_stored_def getItem_def
          setItem_def)
  from protected_needs_session [OF router_exact_ok run_reachable [OF s(1)]] s show ?thesis by auto
qed

text \<open>The guard: an address of a protected page shows that page in the layout with a token stored and
  redirects to the login page without one, and the login page is shown either way, so a redirect is
  followed by no other.\<close>

theorem route_guard:
  assumes "router_match match" and "(p, sc) \<in> set protected_routes"
  shows "App match tok p = (if truthy tok then Framed sc else Redirect login_path) \<and>
    App match tok login_path = Page Login"
  using App_protected [OF assms] App_login [OF assms(1)] by (simp add: login_path_def)

theorem route_guard_witness:
  "App router_exact None (js ''/users'') = Redirect login_path"
  using route_guard [OF router_exact_ok, of "js ''/users''" Users None]
  by (simp add: protected_routes_def)

text \<open>The menu and the routes agree: the links of the layout are exactly the protected addresses, in the
  same order and none twice, whatever page is open and whoever is logged in; and exactly the link
  of the open page is marked as active.\<close>

theorem menu_complete:
  assumes "links outlet = []"
  shows "links (MainLayout pathname logout outlet) = map fst protected_routes \<and>
    distinct (map fst protected_routes) \<and> distinct (map snd protected_routes) \<and>
    (pathname \<in> set (map fst protected_routes) \<longrightarrow>
       length (filter (\<lambda>i. nav_link pathname i =
         (Elem TLink [Key (fst i), LinkTo (fst i),
            ClassName (js ''flex items-center gap-3 px-4 py-3 rounded-lg text-sm transition-colors '' @ nav_active)]
            [Elem TIcon [] [], Text (snd i)] :: ('f, 'a) node)) navItems) = 1)"
  using assms
  by (auto simp: view_simps navItems_def protected_routes_def nav_link_def nav_active_def
        nav_inactive_def js.simps)

theorem menu_complete_witness:
  "links (MainLayout (js ''/'') () (Text [] :: (unit, unit) node)) = map fst protected_routes"
  by (rule menu_complete [THEN conjunct1]) simp

end
