(* ===== verification/GoText.thy ===== *)
theory GoText
  imports JsText
begin

text \<open>
  The string values of the Go side. A Go string is a sequence of bytes, so it is HOL's \<open>string\<close>, a
  list of 8-bit characters. The operations of the package \<open>strings\<close> that the code calls follow:
  \<open>TrimSpace\<close>, \<open>ToLower\<close>, \<open>HasPrefix\<close>, \<open>HasSuffix\<close>, \<open>Index\<close>, \<open>Split\<close>, \<open>Join\<close>, \<open>Fields\<close>, and the line
  splitting of \<open>bufio.Scanner\<close>. They are exact on ASCII text, which names in DNS messages are (the
  DNS library escapes all other bytes); other bytes are never white space here and have no case.
\<close>

subsection \<open>White space and case\<close>

definition go_space :: "char \<Rightarrow> bool" where
  "go_space c \<longleftrightarrow> (of_char c :: nat) \<in> set [9, 10, 11, 12, 13, 32]"

abbreviation TrimSpace :: "string \<Rightarrow> string" where
  "TrimSpace \<equiv> trim_by go_space"

definition lower_char :: "char \<Rightarrow> char" where
  "lower_char c =
     (let n = (of_char c :: nat) in if 65 \<le> n \<and> n \<le> 90 then char_of (n + 32) else c)"

definition ToLower :: "string \<Rightarrow> string" where
  "ToLower = map lower_char"

lemma of_char_lower:
  "(of_char (lower_char c) :: nat) =
     (if 65 \<le> (of_char c :: nat) \<and> (of_char c :: nat) \<le> 90 then of_char c + 32 else of_char c)"
  by (simp add: lower_char_def Let_def)

lemma char_eq_iff: "c = d \<longleftrightarrow> (of_char c :: nat) = of_char d"
  by simp

lemma lower_char_idem [simp]: "lower_char (lower_char c) = lower_char c"
  unfolding char_eq_iff of_char_lower by simp

lemma lower_char_below: "(of_char d :: nat) < 65 \<Longrightarrow> lower_char c = d \<longleftrightarrow> c = d"
  unfolding char_eq_iff of_char_lower by auto

lemma lower_char_dot [simp]: "lower_char c = CHR ''.'' \<longleftrightarrow> c = CHR ''.''"
  by (rule lower_char_below) simp

lemma go_space_lower [simp]: "go_space (lower_char c) \<longleftrightarrow> go_space c"
  unfolding go_space_def of_char_lower by auto

lemma dot_not_go_space [simp]: "\<not> go_space (CHR ''.'')"
  by (simp add: go_space_def)

lemma ToLower_idem [simp]: "ToLower (ToLower s) = ToLower s"
  by (simp add: ToLower_def)

lemma ToLower_append [simp]: "ToLower (s @ t) = ToLower s @ ToLower t"
  by (simp add: ToLower_def)

lemma ToLower_dot [simp]: "ToLower ''.'' = ''.''"
  by (simp add: ToLower_def)

lemma ToLower_Nil [simp]: "ToLower s = [] \<longleftrightarrow> s = []"
  by (simp add: ToLower_def)

lemma trim_ToLower: "TrimSpace (ToLower s) = ToLower (TrimSpace s)"
  by (simp add: ToLower_def trim_by_map o_def)

lemma trim_snoc: "trimmed P s \<Longrightarrow> \<not> P c \<Longrightarrow> trim_by P (s @ [c]) = s @ [c]"
  by (rule trim_trimmed) (cases s; simp add: trimmed_def)

lemma ToLower_suffix_dot [simp]: "suffix ''.'' (ToLower s) \<longleftrightarrow> suffix ''.'' s"
proof (cases s rule: rev_cases)
  case (snoc t c)
  then show ?thesis by (simp add: ToLower_def eq_commute [of "CHR ''.''"])
qed (simp add: ToLower_def)

subsection \<open>Index, Split, Join, Fields\<close>

abbreviation HasPrefix :: "string \<Rightarrow> string \<Rightarrow> bool" where
  "HasPrefix s p \<equiv> prefix p s"

abbreviation HasSuffix :: "string \<Rightarrow> string \<Rightarrow> bool" where
  "HasSuffix s p \<equiv> suffix p s"

text \<open>The text before the first occurrence of a character, or all of it: \<open>s[:idx]\<close>.\<close>

definition before :: "char \<Rightarrow> string \<Rightarrow> string" where
  "before c s = takeWhile (\<lambda>x. x \<noteq> c) s"

abbreviation Split :: "string \<Rightarrow> char \<Rightarrow> string list" where
  "Split s c \<equiv> js_split c s"

abbreviation Join :: "string list \<Rightarrow> string \<Rightarrow> string" where
  "Join ps sep \<equiv> js_join sep ps"

definition Fields :: "string \<Rightarrow> string list" where
  "Fields s = filter (\<lambda>f. f \<noteq> []) (Split (map (\<lambda>c. if go_space c then CHR '' '' else c) s) (CHR '' ''))"

lemma Fields_word:
  assumes "w \<noteq> []" and "\<forall>c \<in> set w. \<not> go_space c"
  shows "Fields w = [w]" and "Fields (w @ CHR '' '' # s) = w # Fields s"
proof -
  have w: "map (\<lambda>c. if go_space c then CHR '' '' else c) w = w"
    using assms(2) by (simp add: map_idI)
  have sp: "CHR '' '' \<notin> set w" using assms(2) by (auto simp: go_space_def)
  show "Fields w = [w]" using assms(1) sp w by (simp add: Fields_def js_split_no_occurrence)
  show "Fields (w @ CHR '' '' # s) = w # Fields s"
    using assms(1) sp w by (simp add: Fields_def js_split_append_sep)
qed

lemma before_absent [simp]: "c \<notin> set s \<Longrightarrow> before c s = s"
  by (auto simp: before_def takeWhile_eq_all_conv)

lemma before_append_sep [simp]: "c \<notin> set s \<Longrightarrow> before c (s @ c # t) = s"
  by (auto simp: before_def takeWhile_append)

subsection \<open>Splitting a name at its dots\<close>

text \<open>Joining what is left of a split after some parts gives the suffixes that start behind a
  separator, and these only.\<close>

lemma split_parts_sep:
  assumes "Suc i < length (js_split c s)"
  shows "\<exists>p. s = p @ c # js_join [c] (drop (Suc i) (js_split c s))"
proof -
  let ?ps = "js_split c s"
  have join: "js_join [c] (xs @ ys) = js_join [c] xs @ c # js_join [c] ys"
    if "xs \<noteq> []" "ys \<noteq> []" for xs ys :: "'a list list"
    using that
  proof (induction xs)
    case (Cons x xs)
    then show ?case by (cases "xs = []") (simp_all add: js_join_cons_ne)
  qed simp
  have "s = js_join [c] (take (Suc i) ?ps @ drop (Suc i) ?ps)" by (simp add: js_join_split)
  then show ?thesis using join [of "take (Suc i) ?ps" "drop (Suc i) ?ps"] assms by auto
qed

lemma split_sep_parts:
  "s = p @ c # t \<Longrightarrow>
     \<exists>i. Suc i < length (js_split c s) \<and> js_join [c] (drop (Suc i) (js_split c s)) = t \<and>
         length (js_split c s) = Suc i + length (js_split c t)"
proof (induction p arbitrary: s)
  case Nil
  then show ?case by (intro exI [of _ 0]) (simp add: js_join_split)
next
  case (Cons a p)
  then obtain i where i: "Suc i < length (js_split c (p @ c # t))"
    "js_join [c] (drop (Suc i) (js_split c (p @ c # t))) = t"
    "length (js_split c (p @ c # t)) = Suc i + length (js_split c t)" by blast
  show ?case
  proof (cases "a = c")
    case True
    with i Cons.prems show ?thesis by (intro exI [of _ "Suc i"]) simp
  next
    case False
    with i Cons.prems show ?thesis
      by (intro exI [of _ i]) (cases "js_split c (p @ c # t)"; simp)
  qed
qed

lemma length_js_split: "length (js_split c s) = Suc (length (filter (\<lambda>x. x = c) s))"
  by (induction s) (auto split: list.splits)

subsection \<open>Lines\<close>

text \<open>
  \<open>bufio.Scanner\<close> with \<open>ScanLines\<close>: the lines of a text without their ends, the last one
  only if it is not empty. A line that does not fit the scanner's buffer of 64 KiB stops the scan, with
  an error.
\<close>

definition max_token :: nat where
  "max_token = 65536"

definition dropCR :: "string \<Rightarrow> string" where
  "dropCR l = (if l \<noteq> [] \<and> last l = CHR 0x0D then butlast l else l)"

definition text_lines :: "string \<Rightarrow> string list" where
  "text_lines s = (let ls = Split s (CHR 0x0A) in if last ls = [] then butlast ls else ls)"

definition scan_lines :: "string \<Rightarrow> string list \<times> bool" where
  "scan_lines s =
     (map dropCR (takeWhile (\<lambda>l. length l < max_token) (text_lines s)),
      list_all (\<lambda>l. length l < max_token) (text_lines s))"

lemma text_lines_lines:
  "\<forall>l \<in> set ls. CHR 0x0A \<notin> set l \<Longrightarrow> text_lines (concat (map (\<lambda>l. l @ [CHR 0x0A]) ls)) = ls"
  by (induction ls)
     (simp_all add: text_lines_def Let_def js_split_append_sep split: if_splits)

lemma scan_lines_lines:
  assumes "\<forall>l \<in> set ls. CHR 0x0A \<notin> set l \<and> CHR 0x0D \<notin> set l \<and> length l < max_token"
  shows "scan_lines (concat (map (\<lambda>l. l @ [CHR 0x0A]) ls)) = (ls, True)"
proof -
  have *: "text_lines (concat (map (\<lambda>l. l @ [CHR 0x0A]) ls)) = ls"
    by (rule text_lines_lines) (use assms in blast)
  have "takeWhile (\<lambda>l. length l < max_token) ls = ls"
    using assms by (simp add: takeWhile_eq_all_conv)
  moreover have "map dropCR ls = ls"
    using assms by (intro map_idI) (auto simp: dropCR_def dest: last_in_set)
  ultimately have "map dropCR (takeWhile (\<lambda>l. length l < max_token) ls) = ls" by argo
  with * assms show ?thesis by (simp add: scan_lines_def list_all_iff)
qed

end
