(* ===== verification/DomainList.thy ===== *)
theory DomainList
  imports GoText
begin

text \<open>
  Domain lists of the filter engine, \<open>internal/filter\<close>: \<open>blacklist.go\<close> (a set of domains that also answers for all
  their subdomains, and its file format) and the parsing half of \<open>downloader.go\<close>. A Go map is a HOL map; the
  mutexes are not part of the state, since every operation runs under one. The locale \<open>subtree_filter\<close> is what the
  engine (\<open>PolicyEngine\<close>) relies on: the set of names in a list, and that the list answers for exactly the names
  below one of them.
\<close>

subsection \<open>Names\<close>

definition normalize_domain :: "string \<Rightarrow> string" where
  "normalize_domain domain =
     (let domain = ToLower (TrimSpace domain)
      in if \<not> HasSuffix domain ''.'' then domain @ ''.'' else domain)"

text \<open>The abstract order: a name is below another if it is that name or ends with a dot and that name.\<close>

definition is_below :: "string \<Rightarrow> string \<Rightarrow> bool" where
  "is_below d k \<longleftrightarrow> d = k \<or> suffix (CHR ''.'' # k) d"

definition fqdn :: "string \<Rightarrow> bool" where
  "fqdn k \<longleftrightarrow> suffix ''.'' k"

lemma normalize_fqdn [simp, intro]: "fqdn (normalize_domain d)"
  by (simp add: normalize_domain_def fqdn_def Let_def)

lemma normalize_idem [simp]: "normalize_domain (normalize_domain d) = normalize_domain d"
proof -
  let ?t = "ToLower (TrimSpace d)"
  have t: "trimmed go_space ?t"
    using trimmed_trim [of go_space "ToLower d"] by (simp add: trim_ToLower)
  have "TrimSpace (normalize_domain d) = normalize_domain d"
  proof (cases "suffix ''.'' ?t")
    case True
    then show ?thesis using t by (simp add: normalize_domain_def Let_def trim_trimmed)
  next
    case False
    have "TrimSpace (?t @ ''.'') = ?t @ ''.''" using t by (rule trim_snoc) simp
    with False show ?thesis by (simp add: normalize_domain_def Let_def)
  qed
  moreover have "ToLower (normalize_domain d) = normalize_domain d" by (simp add: normalize_domain_def Let_def)
  ultimately show ?thesis
    using normalize_fqdn [of d] by (simp add: normalize_domain_def [of "normalize_domain d"] Let_def fqdn_def)
qed

lemma normalize_case [simp]: "normalize_domain (ToLower d) = normalize_domain d"
  by (simp add: normalize_domain_def trim_ToLower)

lemma is_below_refl [simp]: "is_below d d"
  by (simp add: is_below_def)

lemma is_below_trans: "is_below a b \<Longrightarrow> is_below b c \<Longrightarrow> is_below a c"
  unfolding is_below_def
  by (metis suffix_Cons suffix_order.trans suffix_order.eq_iff)

lemma is_below_length: "is_below d k \<Longrightarrow> d = k \<or> length k < length d"
  by (auto simp: is_below_def dest: suffix_length_le)

lemma is_below_same_length: "is_below d k \<Longrightarrow> is_below d k' \<Longrightarrow> length k = length k' \<Longrightarrow> k = k'"
  by (metis is_below_def is_below_length less_irrefl suffix_same_cases suffix_length_suffix
      suffix_ConsD suffix_order.antisym
      order_refl)

subsection \<open>Blacklist\<close>

record blacklist =
  b_domains :: "string \<rightharpoonup> bool"

text \<open>Reading a map of type \<open>map[string]bool\<close>: a missing key reads as false.\<close>

definition map_bool :: "('k \<rightharpoonup> bool) \<Rightarrow> 'k \<Rightarrow> bool" where
  "map_bool m k = (case m k of None \<Rightarrow> False | Some b \<Rightarrow> b)"

definition NewBlacklist :: blacklist where
  "NewBlacklist = \<lparr>b_domains = Map.empty\<rparr>"

definition Add :: "string \<Rightarrow> blacklist \<Rightarrow> blacklist" where
  "Add domain b = b\<lparr>b_domains := (b_domains b)(normalize_domain domain \<mapsto> True)\<rparr>"

definition Remove :: "string \<Rightarrow> blacklist \<Rightarrow> blacklist" where
  "Remove domain b = b\<lparr>b_domains := (b_domains b)(normalize_domain domain := None)\<rparr>"

definition Clear :: "blacklist \<Rightarrow> blacklist" where
  "Clear b = b\<lparr>b_domains := Map.empty\<rparr>"

definition Contains :: "blacklist \<Rightarrow> string \<Rightarrow> bool" where
  "Contains b domain =
     (let domain = normalize_domain domain;
          parts = Split domain (CHR ''.'')
      in map_bool (b_domains b) domain \<or>
         list_ex (\<lambda>i. map_bool (b_domains b) (Join (drop i parts) ''.'')) [1..<length parts - 1])"

definition Size :: "blacklist \<Rightarrow> nat" where
  "Size b = card (dom (b_domains b))"

definition listed :: "blacklist \<Rightarrow> string set" where
  "listed b = {k. map_bool (b_domains b) k}"

lemma listed_ops [simp]:
  "listed NewBlacklist = {}" "listed (Clear b) = {}"
  "listed (Add d b) = insert (normalize_domain d) (listed b)"
  "listed (Remove d b) = listed b - {normalize_domain d}"
  by (auto simp: listed_def NewBlacklist_def Clear_def Add_def Remove_def map_bool_def)

lemma parent_names:
  assumes "fqdn k"
  shows "(\<exists>i \<in> set [1..<length (Split d (CHR ''.'')) - 1].
            Join (drop i (Split d (CHR ''.''))) ''.'' = k) \<longleftrightarrow> suffix (CHR ''.'' # k) d"
    (is "?walk \<longleftrightarrow> _")
proof
  assume ?walk
  then obtain i where "1 \<le> i" "i < length (Split d (CHR ''.''))"
    and k: "Join (drop i (Split d (CHR ''.''))) ''.'' = k" by auto
  then obtain j where "Suc j < length (Split d (CHR ''.''))"
    and "Join (drop (Suc j) (Split d (CHR ''.''))) ''.'' = k" by (cases i) auto
  with split_parts_sep [of j "CHR ''.''" d] show "suffix (CHR ''.'' # k) d" by (auto simp: suffix_def)
next
  assume "suffix (CHR ''.'' # k) d"
  then obtain p where "d = p @ CHR ''.'' # k" by (auto simp: suffix_def)
  from split_sep_parts [OF this] obtain i where i: "Join (drop (Suc i) (Split d (CHR ''.''))) ''.'' = k"
    "length (Split d (CHR ''.'')) = Suc i + length (Split k (CHR ''.''))" by blast
  from assms obtain t where "k = t @ ''.''" by (auto simp: fqdn_def suffix_def)
  then have "2 \<le> length (Split k (CHR ''.''))" by (simp add: length_js_split)
  with i show ?walk by (intro bexI [of _ "Suc i"]) auto
qed

lemma Contains_listed:
  assumes "\<forall>k \<in> listed b. fqdn k"
  shows "Contains b d \<longleftrightarrow> (\<exists>k \<in> listed b. is_below (normalize_domain d) k)"
proof -
  have "list_ex (\<lambda>i. map_bool (b_domains b) (Join (drop i (Split n (CHR ''.''))) ''.''))
      [1..<length (Split n (CHR ''.'')) - 1] \<longleftrightarrow> (\<exists>k \<in> listed b. suffix (CHR ''.'' # k) n)" for n
    unfolding list_ex_iff listed_def
    using parent_names [of _ n] assms unfolding listed_def by blast
  then show ?thesis by (auto simp: Contains_def Let_def is_below_def listed_def)
qed

subsection \<open>The interface the engine uses\<close>

locale subtree_filter =
  fixes empty :: 's and add :: "string \<Rightarrow> 's \<Rightarrow> 's" and remove :: "string \<Rightarrow> 's \<Rightarrow> 's"
    and contains :: "'s \<Rightarrow> string \<Rightarrow> bool" and keys :: "'s \<Rightarrow> string set"
  assumes keys_empty: "keys empty = {}"
    and keys_add: "keys (add d s) = insert (normalize_domain d) (keys s)"
    and keys_remove: "keys (remove d s) = keys s - {normalize_domain d}"
    and contains_keys: "\<forall>k \<in> keys s. fqdn k \<Longrightarrow>
      contains s d \<longleftrightarrow> (\<exists>k \<in> keys s. is_below (normalize_domain d) k)"
begin

lemma keys_adds: "keys (fold add ds s) = normalize_domain ` set ds \<union> keys s"
  by (induction ds arbitrary: s) (auto simp: keys_add)

lemma contains_adds:
  "contains (fold add ds empty) d \<longleftrightarrow> (\<exists>k \<in> set ds. is_below (normalize_domain d) (normalize_domain k))"
  by (subst contains_keys) (auto simp: keys_adds keys_empty)

lemma contains_subdomain:
  assumes "\<forall>k \<in> keys s. fqdn k" and "contains s d" and "is_below (normalize_domain d') (normalize_domain d)"
  shows "contains s d'"
  using assms contains_keys [OF assms(1)] is_below_trans by blast

lemma contains_normalize: "\<forall>k \<in> keys s. fqdn k \<Longrightarrow> contains s (normalize_domain d) = contains s d"
  by (simp add: contains_keys)

lemma add_order: "\<forall>k \<in> keys s. fqdn k \<Longrightarrow> set ds = set ds' \<Longrightarrow>
  contains (fold add ds s) = contains (fold add ds' s)"
  by (rule ext) (subst contains_keys, force simp: keys_adds, subst contains_keys,
      force simp: keys_adds, simp add: keys_adds)

end

interpretation blacklist: subtree_filter NewBlacklist Add Remove Contains listed
  by unfold_locales (simp_all add: Contains_listed)

subsection \<open>List files\<close>

definition parseLine :: "string \<Rightarrow> string" where
  "parseLine line =
     (let line = (if CHR ''#'' \<in> set line then TrimSpace (before (CHR ''#'') line) else line)
      in if line = [] then []
         else let fields = Fields line
              in if 2 \<le> length fields \<and> fields ! 0 \<in> set [''127.0.0.1'', ''0.0.0.0'', ''::1'']
                 then fields ! 1
                 else if length fields = 1 then fields ! 0
                 else [])"

text \<open>
  The loop over the lines that \<open>LoadFromFile\<close> and \<open>FetchDomains\<close> share: the domains of the lines read, in
  order, and whether the scanner got to the end.
\<close>

definition entry :: "string \<Rightarrow> string" where
  "entry raw =
     (let line = TrimSpace raw
      in if line = [] \<or> HasPrefix line ''#'' then [] else parseLine line)"

definition scan_entries :: "string \<Rightarrow> string list \<times> bool" where
  "scan_entries body =
     (case scan_lines body of (ls, complete) \<Rightarrow> (filter (\<lambda>d. d \<noteq> []) (map entry ls), complete))"

datatype load_error = OpenFailed | ReadFailed

text \<open>A missing file is \<^const>\<open>None\<close>. On an error the count and the entries so far remain.\<close>

definition LoadFromFile :: "string option \<Rightarrow> blacklist \<Rightarrow> (nat \<times> load_error option) \<times> blacklist" where
  "LoadFromFile file b =
     (case file of
        None \<Rightarrow> ((0, Some OpenFailed), b)
      | Some body \<Rightarrow>
          (case scan_entries body of
             (domains, complete) \<Rightarrow>
               ((length domains, if complete then None else Some ReadFailed), fold Add domains b)))"

text \<open>\<open>FetchDomains\<close> from the response on: \<^const>\<open>None\<close> is a request that failed.\<close>

datatype fetch_error = FetchFailed | BadStatus nat | BodyFailed

definition body_limit :: nat where
  "body_limit = 50 * 1024 * 1024"

definition FetchDomains :: "(nat \<times> string) option \<Rightarrow> string list \<times> fetch_error option" where
  "FetchDomains resp =
     (case resp of
        None \<Rightarrow> ([], Some FetchFailed)
      | Some (status, body) \<Rightarrow>
          if status \<noteq> 200 then ([], Some (BadStatus status))
          else (case scan_entries (take body_limit body) of
                  (domains, complete) \<Rightarrow> (domains, if complete then None else Some BodyFailed)))"

subsubsection \<open>What a list file contains\<close>

text \<open>The lines of a list file in either of its two formats, and the text of one.\<close>

datatype list_line =
    DomainLine string
  | HostsLine string string
  | CommentLine string
  | BlankLine

definition plain_name :: "string \<Rightarrow> bool" where
  "plain_name d \<longleftrightarrow> d \<noteq> [] \<and> (\<forall>c \<in> set d. \<not> go_space c \<and> c \<noteq> CHR ''#'')"

fun line_text :: "list_line \<Rightarrow> string" where
  "line_text (DomainLine d) = d"
| "line_text (HostsLine ip d) = ip @ '' '' @ d"
| "line_text (CommentLine c) = ''#'' @ c"
| "line_text BlankLine = []"

fun line_domain :: "list_line \<Rightarrow> string list" where
  "line_domain (DomainLine d) = [d]"
| "line_domain (HostsLine ip d) = [d]"
| "line_domain _ = []"

fun line_ok :: "list_line \<Rightarrow> bool" where
  "line_ok (DomainLine d) \<longleftrightarrow> plain_name d"
| "line_ok (HostsLine ip d) \<longleftrightarrow> ip \<in> set [''127.0.0.1'', ''0.0.0.0'', ''::1''] \<and> plain_name d"
| "line_ok (CommentLine c) \<longleftrightarrow> CHR 0x0A \<notin> set c \<and> CHR 0x0D \<notin> set c"
| "line_ok BlankLine \<longleftrightarrow> True"

definition file_text :: "list_line list \<Rightarrow> string" where
  "file_text ls = concat (map (\<lambda>l. line_text l @ [CHR 0x0A]) ls)"

lemma plain_name_facts:
  assumes "plain_name d"
  shows "d \<noteq> []" "CHR ''#'' \<notin> set d" "\<forall>c \<in> set d. \<not> go_space c" "TrimSpace d = d" "\<not> prefix ''#'' d"
    "CHR 0x0A \<notin> set d" "CHR 0x0D \<notin> set d"
proof -
  show ne: "d \<noteq> []" and hash: "CHR ''#'' \<notin> set d" and sp: "\<forall>c \<in> set d. \<not> go_space c"
    using assms by (auto simp: plain_name_def)
  show "TrimSpace d = d" using sp by (rule trim_none)
  show "\<not> prefix ''#'' d" using hash ne by (cases d) auto
  show "CHR 0x0A \<notin> set d" and "CHR 0x0D \<notin> set d" using sp by (auto simp: go_space_def)
qed

lemma parseLine_plain: "plain_name d \<Longrightarrow> parseLine d = d"
  using plain_name_facts [of d] Fields_word(1) [of d] by (simp add: parseLine_def Let_def)

lemma parseLine_hosts:
  assumes "ip \<in> set [''127.0.0.1'', ''0.0.0.0'', ''::1'']" and "plain_name d"
  shows "parseLine (ip @ '' '' @ d) = d" and "TrimSpace (ip @ '' '' @ d) = ip @ '' '' @ d"
proof -
  have ip: "ip \<noteq> []" "\<forall>c \<in> set ip. \<not> go_space c" "CHR ''#'' \<notin> set ip"
    using assms(1) by (auto simp: go_space_def)
  note d = plain_name_facts [OF assms(2)]
  have "Fields (ip @ '' '' @ d) = [ip, d]"
    using Fields_word(2) [OF ip(1,2), of d] Fields_word(1) [OF d(1,3)] by simp
  with assms(1) ip d show "parseLine (ip @ '' '' @ d) = d" by (auto simp: parseLine_def Let_def)
  show "TrimSpace (ip @ '' '' @ d) = ip @ '' '' @ d"
    using ip d by (intro trim_trimmed) (auto simp: trimmed_def)
qed

lemma entry_line: "line_ok l \<Longrightarrow> (if entry (line_text l) = [] then [] else [entry (line_text l)]) = line_domain l"
proof (cases l)
  case (CommentLine c)
  have "\<not> go_space (CHR ''#'')" by (simp add: go_space_def)
  from trim_Cons [of go_space, OF this, of c]
  show ?thesis by (simp add: CommentLine entry_def Let_def)
next
  case (HostsLine ip d)
  assume "line_ok l"
  with HostsLine have ok: "ip \<in> set [''127.0.0.1'', ''0.0.0.0'', ''::1'']" "plain_name d" by simp_all
  from ok(1) have "\<not> prefix ''#'' (ip @ '' '' @ d)" by auto
  moreover have "ip @ '' '' @ d \<noteq> []" by simp
  ultimately have "entry (ip @ '' '' @ d) = d"
    unfolding entry_def parseLine_hosts(2) [OF ok] Let_def by (simp only: parseLine_hosts(1) [OF ok] if_False simp_thms)
  with HostsLine plain_name_facts(1) [OF ok(2)] show ?thesis by simp
qed (use plain_name_facts parseLine_plain in \<open>simp_all add: entry_def Let_def\<close>)

lemma line_text_one_line: "line_ok l \<Longrightarrow> CHR 0x0A \<notin> set (line_text l) \<and> CHR 0x0D \<notin> set (line_text l)"
  by (cases l) (auto dest: plain_name_facts)

lemma scan_entries_file:
  assumes "\<forall>l \<in> set ls. line_ok l \<and> length (line_text l) < max_token"
  shows "scan_entries (file_text ls) = (concat (map line_domain ls), True)"
proof -
  have "scan_lines (file_text ls) = (map line_text ls, True)"
    using scan_lines_lines [of "map line_text ls"] line_text_one_line assms by (simp add: file_text_def o_def)
  moreover have "filter (\<lambda>d. d \<noteq> []) (map entry (map line_text ls)) = concat (map line_domain ls)"
    using assms
  proof (induction ls)
    case (Cons l ls)
    then show ?case using entry_line [of l] by (auto split: if_splits)
  qed simp
  ultimately show ?thesis by (simp add: scan_entries_def)
qed

lemma scan_entries_long:
  assumes "\<forall>l \<in> set ls. line_ok l \<and> length (line_text l) < max_token"
    and "max_token \<le> length big" and "CHR 0x0A \<notin> set big"
  shows "scan_entries (file_text ls @ big @ CHR 0x0A # rest) = (concat (map line_domain ls), False)"
proof -
  have nl: "CHR 0x0A \<notin> set (line_text l)" if "l \<in> set ls" for l
    using that assms(1) line_text_one_line by blast
  have ls: "\<forall>l \<in> set (map line_text ls). length l < max_token" using assms(1) by simp
  have split: "Split (file_text ls @ s) (CHR 0x0A) = map line_text ls @ Split s (CHR 0x0A)" for s
    using nl by (induction ls) (simp_all add: file_text_def js_split_append_sep)
  have "text_lines (file_text ls @ big @ CHR 0x0A # rest) =
      map line_text ls @ big # (if last (Split rest (CHR 0x0A)) = [] then butlast (Split rest (CHR 0x0A))
                                else Split rest (CHR 0x0A))"
    using assms(3) by (simp add: text_lines_def Let_def split js_split_append_sep butlast_append)
  then obtain tl where "text_lines (file_text ls @ big @ CHR 0x0A # rest) = map line_text ls @ big # tl"
    by blast
  moreover have "scan_entries (file_text ls) = (concat (map line_domain ls), True)"
    by (rule scan_entries_file [OF assms(1)])
  moreover have "text_lines (file_text ls) = map line_text ls"
    using text_lines_lines [of "map line_text ls"] nl by (simp add: file_text_def o_def)
  moreover have "takeWhile (\<lambda>l. length l < max_token) (map line_text ls @ big # tl) = map line_text ls"
    using ls assms(2) by (subst takeWhile_append2) auto
  moreover have "takeWhile (\<lambda>l. length l < max_token) (map line_text ls) = map line_text ls"
    using ls by (simp add: takeWhile_eq_all_conv del: set_map)
  ultimately show ?thesis using assms(2) by (auto simp: scan_entries_def scan_lines_def)
qed

subsection \<open>Properties\<close>

text \<open>The abstract list: the set of its names.\<close>

datatype list_op = OpAdd string | OpRemove string | OpClear

fun list_apply :: "list_op \<Rightarrow> blacklist \<Rightarrow> blacklist" where
  "list_apply (OpAdd d) b = Add d b"
| "list_apply (OpRemove d) b = Remove d b"
| "list_apply OpClear b = Clear b"

fun names_apply :: "list_op \<Rightarrow> string set \<Rightarrow> string set" where
  "names_apply (OpAdd d) ns = insert (normalize_domain d) ns"
| "names_apply (OpRemove d) ns = ns - {normalize_domain d}"
| "names_apply OpClear ns = {}"

lemma listed_list_apply: "listed (fold list_apply ops b) = fold names_apply ops (listed b)"
proof (induction ops arbitrary: b)
  case (Cons op ops)
  have "listed (list_apply op b) = names_apply op (listed b)" by (cases op) simp_all
  with Cons show ?case by simp
qed simp

lemma names_apply_fqdn: "\<forall>k \<in> ns. fqdn k \<Longrightarrow> \<forall>k \<in> fold names_apply ops ns. fqdn k"
proof (induction ops arbitrary: ns)
  case (Cons op ops)
  have "\<forall>k \<in> names_apply op ns. fqdn k" using Cons.prems by (cases op) auto
  from Cons.IH [OF this] show ?case by simp
qed simp

lemma Size_listed: "Size (fold list_apply ops NewBlacklist) = card (listed (fold list_apply ops NewBlacklist))"
proof -
  have "\<forall>k v. b_domains b k = Some v \<longrightarrow> v \<Longrightarrow>
      \<forall>k v. b_domains (fold list_apply ops b) k = Some v \<longrightarrow> v" for b
  proof (induction ops arbitrary: b)
    case (Cons op ops)
    have "\<forall>k v. b_domains (list_apply op b) k = Some v \<longrightarrow> v"
      using Cons.prems by (cases op) (auto simp: Add_def Remove_def Clear_def split: if_splits)
    from Cons.IH [OF this] show ?case by simp
  qed simp
  from this [of NewBlacklist]
  have "\<forall>k v. b_domains (fold list_apply ops NewBlacklist) k = Some v \<longrightarrow> v"
    by (simp add: NewBlacklist_def)
  then have "dom (b_domains (fold list_apply ops NewBlacklist)) = listed (fold list_apply ops NewBlacklist)"
    by (auto simp: listed_def map_bool_def dom_def split: option.splits)
  then show ?thesis by (simp add: Size_def)
qed

text \<open>C22: The list refines a set of names: after any sequence of additions, removals and clearings it contains
  exactly the domains that are one of the names left or lie below one, written in any case and with
  or without the final dot, and its size is the number of these names. The walk over the labels in
  \<open>Contains\<close> therefore misses no parent, up to the top-level domain, and never stops inside a label.\<close>

theorem blacklist_refines:
  "(Contains (fold list_apply ops NewBlacklist) d \<longleftrightarrow>
      (\<exists>k \<in> fold names_apply ops {}. is_below (normalize_domain d) k)) \<and>
   Size (fold list_apply ops NewBlacklist) = card (fold names_apply ops {})"
proof -
  have "listed (fold list_apply ops NewBlacklist) = fold names_apply ops {}"
    by (simp add: listed_list_apply)
  with names_apply_fqdn [of "{}" ops] Size_listed [of ops] Contains_listed show ?thesis by simp
qed

text \<open>C39: A list file in the formats of RF04.4 is read back exactly: hosts lines, plain lines, comments and
  blank lines, in any order, give the domains of the file in its order; loading counts them and adds them
  to the list, and a download of the same text yields them.\<close>

theorem list_file_roundtrip:
  assumes "list_all (\<lambda>l. line_ok l \<and> length (line_text l) < max_token) ls"
    and "length (file_text ls) \<le> body_limit"
  shows "LoadFromFile (Some (file_text ls)) b =
      ((length (concat (map line_domain ls)), None), fold Add (concat (map line_domain ls)) b) \<and>
    FetchDomains (Some (200, file_text ls)) = (concat (map line_domain ls), None)"
  using assms scan_entries_file [of ls]
  by (simp add: LoadFromFile_def FetchDomains_def list_all_iff)

theorem list_file_roundtrip_witness:
  "LoadFromFile (Some (file_text
       [CommentLine '' ads'', HostsLine ''127.0.0.1'' ''ads.example.com'', BlankLine, DomainLine ''Pure-Domain.com'']))
     NewBlacklist =
   ((2, None), fold Add [''ads.example.com'', ''Pure-Domain.com''] NewBlacklist)"
  using list_file_roundtrip [of "[CommentLine '' ads'', HostsLine ''127.0.0.1'' ''ads.example.com'',
    BlankLine, DomainLine ''Pure-Domain.com'']" NewBlacklist]
  by (simp add: plain_name_def go_space_def max_token_def file_text_def body_limit_def)

text \<open>A line that does not fit the scanner's buffer ends the load with an error: the domains before it are in
  the list, everything after it is missing from the list.\<close>

theorem long_line_ends_load:
  assumes "list_all (\<lambda>l. line_ok l \<and> length (line_text l) < max_token) ls"
    and "max_token \<le> length big" and "CHR 0x0A \<notin> set big"
  shows "LoadFromFile (Some (file_text ls @ big @ CHR 0x0A # rest)) b =
     ((length (concat (map line_domain ls)), Some ReadFailed), fold Add (concat (map line_domain ls)) b)"
  using scan_entries_long [of ls big rest] assms by (simp add: LoadFromFile_def list_all_iff)

theorem long_line_ends_load_witness:
  "LoadFromFile (Some (file_text [DomainLine ''a.com''] @ replicate 65536 (CHR ''x'') @
      CHR 0x0A # ''b.com'')) NewBlacklist = ((1, Some ReadFailed), Add ''a.com'' NewBlacklist)"
  using long_line_ends_load [of "[DomainLine ''a.com'']" "replicate 65536 (CHR ''x'')" "''b.com''" NewBlacklist]
  by (simp add: plain_name_def go_space_def max_token_def)

end
