(* ===== verification/PolicyEngine.thy ===== *)
theory PolicyEngine
  imports DomainList
begin

text \<open>
  The policy engine, \<open>internal/filter/engine.go\<close>: the decision for one query from the white list, the
  black list and the categories that the client's group has blocked. A list that is \<open>nil\<close> is
  \<^const>\<open>None\<close>. Go iterates over a map in any order, so \<open>LoadCategories\<close> takes the entries of its map as a
  list, in the order of one iteration. The field for the group policies is a map of maps; a missing
  group reads as the nil map.
\<close>

subsection \<open>The engine\<close>

datatype filter_action = ActionAllow | ActionBlock

record filter_result =
  fr_action :: filter_action
  fr_reason :: string
  fr_category :: int

record engine =
  e_blacklist :: "blacklist option"
  e_whitelist :: "blacklist option"
  e_categories :: "string \<rightharpoonup> int"
  e_policies :: "int \<rightharpoonup> (int \<rightharpoonup> bool)"

definition NewEngine :: "blacklist option \<Rightarrow> blacklist option \<Rightarrow> engine" where
  "NewEngine black white =
     \<lparr>e_blacklist = black, e_whitelist = white, e_categories = Map.empty, e_policies = Map.empty\<rparr>"

definition put_category :: "int \<Rightarrow> string \<Rightarrow> (string \<rightharpoonup> int) \<Rightarrow> (string \<rightharpoonup> int)" where
  "put_category catID domain m = m(normalize_domain domain \<mapsto> catID)"

definition LoadCategories :: "(int \<times> string list) list \<Rightarrow> engine \<Rightarrow> engine" where
  "LoadCategories catDomains e =
     e\<lparr>e_categories :=
        fold (\<lambda>(catID, domains). fold (put_category catID) domains) catDomains Map.empty\<rparr>"

definition LoadPolicies :: "(int \<rightharpoonup> (int \<rightharpoonup> bool)) \<Rightarrow> engine \<Rightarrow> engine" where
  "LoadPolicies policies e = e\<lparr>e_policies := policies\<rparr>"

fun splitDomain_loop :: "string \<Rightarrow> string list \<Rightarrow> string \<Rightarrow> string list" where
  "splitDomain_loop [] result current = (if current \<noteq> [] then result @ [current] else result)"
| "splitDomain_loop (c # cs) result current =
     (if c = CHR ''.'' then splitDomain_loop cs (if current \<noteq> [] then result @ [current] else result) []
      else splitDomain_loop cs result (current @ [c]))"

definition splitDomain :: "string \<Rightarrow> string list" where
  "splitDomain domain = splitDomain_loop domain [] []"

fun joinDomain_loop :: "nat \<Rightarrow> string list \<Rightarrow> string \<Rightarrow> string" where
  "joinDomain_loop i [] result = result"
| "joinDomain_loop i (p # ps) result =
     joinDomain_loop (Suc i) ps ((if 0 < i then result @ ''.'' else result) @ p)"

definition joinDomain :: "string list \<Rightarrow> string" where
  "joinDomain parts = joinDomain_loop 0 parts [] @ ''.''"

definition findParentCategory :: "engine \<Rightarrow> string \<Rightarrow> int option" where
  "findParentCategory e domain =
     (let parts = splitDomain domain
      in first_some (\<lambda>i. e_categories e (joinDomain (drop i parts))) [1..<length parts - 1])"

definition find_category :: "engine \<Rightarrow> string \<Rightarrow> int option" where
  "find_category e domain =
     (let normalized = normalize_domain domain
      in case e_categories e normalized of
           Some catID \<Rightarrow> Some catID
         | None \<Rightarrow> findParentCategory e normalized)"

definition list_contains :: "blacklist option \<Rightarrow> string \<Rightarrow> bool" where
  "list_contains l domain = (case l of None \<Rightarrow> False | Some b \<Rightarrow> Contains b domain)"

definition category_blocked :: "engine \<Rightarrow> int \<Rightarrow> int \<Rightarrow> bool" where
  "category_blocked e groupID catID =
     (case e_policies e groupID of None \<Rightarrow> False | Some blockedCats \<Rightarrow> map_bool blockedCats catID)"

definition EvaluateForGroup :: "engine \<Rightarrow> string \<Rightarrow> int \<Rightarrow> filter_result" where
  "EvaluateForGroup e domain groupID =
     (if list_contains (e_whitelist e) domain
      then \<lparr>fr_action = ActionAllow, fr_reason = ''whitelist'', fr_category = 0\<rparr>
      else if list_contains (e_blacklist e) domain
      then \<lparr>fr_action = ActionBlock, fr_reason = ''blacklist'', fr_category = 0\<rparr>
      else let allow = \<lparr>fr_action = ActionAllow, fr_reason = [], fr_category = 0\<rparr>
           in if 0 < groupID
              then (case find_category e domain of
                      None \<Rightarrow> allow
                    | Some catID \<Rightarrow>
                        if category_blocked e groupID catID
                        then \<lparr>fr_action = ActionBlock, fr_reason = ''category'', fr_category = catID\<rparr>
                        else allow)
              else allow)"

definition Evaluate :: "engine \<Rightarrow> string \<Rightarrow> filter_result" where
  "Evaluate e domain = EvaluateForGroup e domain 0"

subsection \<open>The two ways to walk up a name\<close>

text \<open>
  \<open>Contains\<close> splits with the library, \<open>findParentCategory\<close> with a loop of its own that drops empty
  labels. On the names that occur they are the same labels.
\<close>

lemma splitDomain_loop_Split:
  "CHR ''.'' \<notin> set current \<Longrightarrow>
   splitDomain_loop s result current = result @ filter (\<lambda>p. p \<noteq> []) (Split (current @ s) (CHR ''.''))"
proof (induction s arbitrary: result current)
  case Nil
  then show ?case by (simp add: js_split_no_occurrence)
next
  case (Cons c s)
  show ?case
  proof (cases "c = CHR ''.''")
    case True
    have "splitDomain_loop (c # s) result current =
        splitDomain_loop s (if current \<noteq> [] then result @ [current] else result) []"
      using True by simp
    also have "\<dots> = (if current \<noteq> [] then result @ [current] else result) @
        filter (\<lambda>p. p \<noteq> []) (Split s (CHR ''.''))"
      using Cons.IH [of "[]"] by simp
    finally show ?thesis using Cons.prems True by (simp add: js_split_append_sep)
  next
    case False
    with Cons show ?thesis by simp
  qed
qed

lemma splitDomain_Split: "splitDomain s = filter (\<lambda>p. p \<noteq> []) (Split s (CHR ''.''))"
  by (simp add: splitDomain_def splitDomain_loop_Split)

lemma joinDomain_loop_Join:
  "joinDomain_loop i ps result =
     (if ps = [] then result
      else (if 0 < i then result @ ''.'' else result) @ Join ps ''.'')"
  by (induction ps arbitrary: i result) (auto simp: js_join_cons_ne)

lemma joinDomain_Join: "ps \<noteq> [] \<Longrightarrow> joinDomain ps = Join (ps @ [[]]) ''.''"
proof -
  have "ps \<noteq> [] \<Longrightarrow> Join (ps @ [[]]) ''.'' = Join ps ''.'' @ ''.''"
  proof (induction ps)
    case (Cons p ps)
    then show ?case by (cases ps) simp_all
  qed simp
  then show "ps \<noteq> [] \<Longrightarrow> joinDomain ps = Join (ps @ [[]]) ''.''"
    by (simp add: joinDomain_def joinDomain_loop_Join)
qed

text \<open>A name without empty labels, such as a query name other than the root.\<close>

definition proper_name :: "string \<Rightarrow> bool" where
  "proper_name d \<longleftrightarrow>
     (\<exists>ls. ls \<noteq> [] \<and> list_all (\<lambda>l. l \<noteq> [] \<and> CHR ''.'' \<notin> set l) ls \<and> normalize_domain d = joinDomain ls)"

lemma proper_parts:
  assumes "ls \<noteq> []" and "list_all (\<lambda>l. l \<noteq> [] \<and> CHR ''.'' \<notin> set l) ls"
  shows "Split (joinDomain ls) (CHR ''.'') = ls @ [[]]" and "splitDomain (joinDomain ls) = ls"
proof -
  show sp: "Split (joinDomain ls) (CHR ''.'') = ls @ [[]]"
    using assms by (subst joinDomain_Join) (auto intro!: js_split_join simp: list_all_iff)
  show "splitDomain (joinDomain ls) = ls"
    using assms(2) by (simp add: splitDomain_Split sp list_all_iff filter_id_conv)
qed

lemma joinDomain_length: "ps \<noteq> [] \<Longrightarrow> length (joinDomain ps) = sum_list (map length ps) + length ps"
proof -
  have "ps \<noteq> [] \<Longrightarrow> Suc (length (Join ps ''.'')) = sum_list (map length ps) + length ps"
  proof (induction ps)
    case (Cons p ps)
    then show ?case by (cases ps) simp_all
  qed simp
  then show "ps \<noteq> [] \<Longrightarrow> length (joinDomain ps) = sum_list (map length ps) + length ps"
    by (simp add: joinDomain_def joinDomain_loop_Join)
qed

lemma parent_shorter:
  assumes "i < j" and "j < length ls"
  shows "length (joinDomain (drop j ls)) < length (joinDomain (drop i ls))"
proof -
  let ?m = "drop i ls"
  have "drop j ls = drop (j - i) ?m" using assms by simp
  moreover have "sum_list (map length ?m) =
      sum_list (map length (take (j - i) ?m)) + sum_list (map length (drop (j - i) ?m))"
    by (metis append_take_drop_id map_append sum_list_append)
  ultimately show ?thesis using assms by (simp add: joinDomain_length)
qed

lemma two_labels:
  assumes "ms \<noteq> []" and "list_all (\<lambda>l. l \<noteq> [] \<and> CHR ''.'' \<notin> set l) ms"
  shows "CHR ''.'' \<in> set (butlast (joinDomain ms)) \<longleftrightarrow> 2 \<le> length ms"
proof -
  have "butlast (joinDomain ms) = Join ms ''.''"
    using assms(1) by (simp add: joinDomain_def joinDomain_loop_Join)
  with assms show ?thesis by (cases ms; cases "tl ms") (auto simp: js_join_cons_ne)
qed

subsection \<open>The category of a name\<close>

text \<open>
  The abstract reading of the category table: an entry applies to its own name, and, if it has at least
  two labels, to all names below it.
\<close>

definition applies :: "engine \<Rightarrow> string \<Rightarrow> string \<Rightarrow> bool" where
  "applies e d k \<longleftrightarrow> k \<in> dom (e_categories e) \<and>
     (k = normalize_domain d \<or> is_below (normalize_domain d) k \<and> CHR ''.'' \<in> set (butlast k))"

definition nearest_category :: "engine \<Rightarrow> string \<Rightarrow> int \<Rightarrow> bool" where
  "nearest_category e d c \<longleftrightarrow>
     (\<exists>k. e_categories e k = Some c \<and> applies e d k \<and> (\<forall>k'. applies e d k' \<longrightarrow> length k' \<le> length k))"

lemma find_category_upt:
  assumes "normalize_domain d = joinDomain ls" and "ls \<noteq> []"
    and "list_all (\<lambda>l. l \<noteq> [] \<and> CHR ''.'' \<notin> set l) ls"
  shows "find_category e d =
    first_some (\<lambda>i. e_categories e (joinDomain (drop i ls))) [0..<max 1 (length ls - 1)]"
proof -
  have "[0..<max 1 (length ls - 1)] = 0 # [1..<length ls - 1]"
    by (cases "length ls - 1 \<le> 1") (simp_all add: max_def upt_conv_Cons)
  then show ?thesis
    using proper_parts [OF assms(2,3)] assms(1)
    by (simp add: find_category_def findParentCategory_def Let_def split: option.split)
qed

lemma applies_parents:
  assumes n: "normalize_domain d = joinDomain ls" and ls: "ls \<noteq> []"
    "list_all (\<lambda>l. l \<noteq> [] \<and> CHR ''.'' \<notin> set l) ls"
    and keys: "\<forall>k \<in> dom (e_categories e). fqdn k"
  shows "applies e d k \<longleftrightarrow>
    k \<in> dom (e_categories e) \<and> (\<exists>i < max 1 (length ls - 1). k = joinDomain (drop i ls))"
    (is "_ \<longleftrightarrow> _ \<and> ?R")
proof (cases "k \<in> dom (e_categories e)")
  case True
  with keys have "fqdn k" by blast
  note sp = proper_parts(1) [OF ls]
  have par: "Join (drop i (ls @ [[]])) ''.'' = joinDomain (drop i ls)" if "i < length ls" for i
    using that by (simp add: joinDomain_Join)
  have below: "suffix (CHR ''.'' # k) (joinDomain ls) \<longleftrightarrow>
      (\<exists>i. 1 \<le> i \<and> i < length ls \<and> k = joinDomain (drop i ls))"
    unfolding parent_names [OF \<open>fqdn k\<close>, of "joinDomain ls", symmetric] sp using par by force
  have two: "CHR ''.'' \<in> set (butlast (joinDomain (drop i ls))) \<longleftrightarrow> i < length ls - 1"
    if "i < length ls" for i
  proof -
    have "list_all (\<lambda>l. l \<noteq> [] \<and> CHR ''.'' \<notin> set l) (drop i ls)"
      using ls(2) by (auto simp: list_all_iff dest: in_set_dropD)
    with two_labels [of "drop i ls"] that show ?thesis by auto
  qed
  have "applies e d k \<longleftrightarrow> k = joinDomain ls \<or>
      (\<exists>i. 1 \<le> i \<and> i < length ls \<and> k = joinDomain (drop i ls)) \<and> CHR ''.'' \<in> set (butlast k)"
    using True by (auto simp: applies_def is_below_def n below)
  also have "\<dots> \<longleftrightarrow> k = joinDomain ls \<or> (\<exists>i. 1 \<le> i \<and> i < length ls - 1 \<and> k = joinDomain (drop i ls))"
    using two by auto
  also have "\<dots> \<longleftrightarrow> ?R"
  proof
    assume "k = joinDomain ls \<or> (\<exists>i. 1 \<le> i \<and> i < length ls - 1 \<and> k = joinDomain (drop i ls))"
    then show ?R by (auto intro: exI [of _ 0])
  next
    assume ?R
    then obtain i where "i < max 1 (length ls - 1)" "k = joinDomain (drop i ls)" by blast
    then show "k = joinDomain ls \<or> (\<exists>i. 1 \<le> i \<and> i < length ls - 1 \<and> k = joinDomain (drop i ls))"
      by (cases i) (auto simp: less_max_iff_disj)
  qed
  finally show ?thesis using True by simp
qed (simp add: applies_def)

lemma find_category_nearest:
  assumes "proper_name d" and keys: "\<forall>k \<in> dom (e_categories e). fqdn k"
  shows "find_category e d = Some c \<longleftrightarrow> nearest_category e d c"
proof -
  obtain ls where ls: "normalize_domain d = joinDomain ls" "ls \<noteq> []"
    "list_all (\<lambda>l. l \<noteq> [] \<and> CHR ''.'' \<notin> set l) ls"
    using assms(1) by (auto simp: proper_name_def)
  let ?n = "max 1 (length ls - 1)" and ?p = "\<lambda>i. joinDomain (drop i ls)"
  have n: "?n \<le> length ls" using ls(2) by (cases ls) auto
  note app = applies_parents [OF ls keys]
  have short: "length (?p j) \<le> length (?p i) \<longleftrightarrow> i \<le> j" if "i < ?n" "j < ?n" for i j
    using parent_shorter [of i j ls] parent_shorter [of j i ls] that n
    by (cases i j rule: linorder_cases) auto
  have "find_category e d = Some c \<longleftrightarrow>
      (\<exists>i < ?n. e_categories e (?p i) = Some c \<and> (\<forall>j < i. e_categories e (?p j) = None))"
    unfolding find_category_upt [OF ls] by (rule first_some_upt)
  also have "\<dots> \<longleftrightarrow> nearest_category e d c"
  proof
    assume "\<exists>i < ?n. e_categories e (?p i) = Some c \<and> (\<forall>j < i. e_categories e (?p j) = None)"
    then obtain i where i: "i < ?n" "e_categories e (?p i) = Some c"
      and first: "\<And>j. j < i \<Longrightarrow> e_categories e (?p j) = None" by blast
    have "length k' \<le> length (?p i)" if "applies e d k'" for k'
    proof -
      from that obtain j where j: "j < ?n" "k' = ?p j" "k' \<in> dom (e_categories e)" by (auto simp: app)
      with first [of j] have "i \<le> j" by (auto simp: not_less [symmetric])
      with short [OF i(1) j(1)] j(2) show ?thesis by simp
    qed
    moreover have "applies e d (?p i)" using i by (auto simp: app)
    ultimately show "nearest_category e d c" using i(2) by (auto simp: nearest_category_def)
  next
    assume "nearest_category e d c"
    then obtain k where k: "e_categories e k = Some c" "applies e d k"
      and longest: "\<And>k'. applies e d k' \<Longrightarrow> length k' \<le> length k" by (auto simp: nearest_category_def)
    from k(2) obtain i where i: "i < ?n" "k = ?p i" by (auto simp: app)
    have "e_categories e (?p j) = None" if "j < i" for j
    proof (rule ccontr)
      assume "e_categories e (?p j) \<noteq> None"
      moreover have "j < ?n" using that i by simp
      ultimately have "applies e d (?p j)" unfolding app by blast
      from longest [OF this] short [of i j] that i show False by simp
    qed
    with i k(1) show "\<exists>i < ?n. e_categories e (?p i) = Some c \<and> (\<forall>j < i. e_categories e (?p j) = None)"
      by auto
  qed
  finally show ?thesis .
qed

subsection \<open>The engine of the server\<close>

text \<open>The server's engine has both lists; every change to it is one of these.\<close>

datatype engine_op =
    OnBlacklist list_op
  | OnWhitelist list_op
  | Categories "(int \<times> string list) list"
  | Policies "int \<rightharpoonup> (int \<rightharpoonup> bool)"

fun engine_apply :: "engine_op \<Rightarrow> engine \<Rightarrow> engine" where
  "engine_apply (OnBlacklist op) e = e\<lparr>e_blacklist := map_option (list_apply op) (e_blacklist e)\<rparr>"
| "engine_apply (OnWhitelist op) e = e\<lparr>e_whitelist := map_option (list_apply op) (e_whitelist e)\<rparr>"
| "engine_apply (Categories catDomains) e = LoadCategories catDomains e"
| "engine_apply (Policies policies) e = LoadPolicies policies e"

definition server_engine :: "engine_op list \<Rightarrow> engine" where
  "server_engine ops = fold engine_apply ops (NewEngine (Some NewBlacklist) (Some NewBlacklist))"

definition list_normal :: "blacklist option \<Rightarrow> bool" where
  "list_normal l \<longleftrightarrow> (\<exists>b. l = Some b \<and> (\<forall>k \<in> listed b. normalize_domain k = k))"

definition engine_normal :: "engine \<Rightarrow> bool" where
  "engine_normal e \<longleftrightarrow> list_normal (e_blacklist e) \<and> list_normal (e_whitelist e) \<and>
     (\<forall>k \<in> dom (e_categories e). normalize_domain k = k)"

text \<open>A name is covered by a list that has it or a name above it.\<close>

definition covered :: "blacklist option \<Rightarrow> string \<Rightarrow> bool" where
  "covered l d \<longleftrightarrow> (\<exists>b k. l = Some b \<and> k \<in> listed b \<and> is_below (normalize_domain d) k)"

lemma load_fields [simp]:
  "e_blacklist (LoadCategories cds e) = e_blacklist e" "e_whitelist (LoadCategories cds e) = e_whitelist e"
  "e_policies (LoadCategories cds e) = e_policies e"
  "e_blacklist (LoadPolicies p e) = e_blacklist e" "e_whitelist (LoadPolicies p e) = e_whitelist e"
  "e_policies (LoadPolicies p e) = p" "e_categories (LoadPolicies p e) = e_categories e"
  by (simp_all add: LoadCategories_def LoadPolicies_def)

lemma normal_fqdn: "normalize_domain k = k \<Longrightarrow> fqdn k"
  by (metis normalize_fqdn)

lemma list_normal_apply: "list_normal l \<Longrightarrow> list_normal (map_option (list_apply op) l)"
  by (cases op) (auto simp: list_normal_def)

lemma categories_keys:
  "dom (fold (\<lambda>(catID, domains). fold (put_category catID) domains) cds m) =
     dom m \<union> normalize_domain ` (\<Union>(c, ds) \<in> set cds. set ds)"
proof -
  have put: "dom (put_category c d m) = insert (normalize_domain d) (dom m)" for c d m
    by (simp add: put_category_def)
  have one: "dom (fold (put_category c) ds m) = dom m \<union> normalize_domain ` set ds" for c ds m
    by (induction ds arbitrary: m) (simp_all add: put)
  show ?thesis
  proof (induction cds arbitrary: m)
    case (Cons cd cds)
    obtain c ds where "cd = (c, ds)" by fastforce
    with Cons show ?case by (simp add: one image_Un Un_assoc)
  qed simp
qed

lemma engine_apply_normal: "engine_normal e \<Longrightarrow> engine_normal (engine_apply op e)"
proof (cases op)
  case (Categories cds)
  assume "engine_normal e"
  moreover have "\<forall>k \<in> dom (e_categories (LoadCategories cds e)). normalize_domain k = k"
    unfolding LoadCategories_def by (simp add: categories_keys)
  ultimately show ?thesis by (simp add: Categories engine_normal_def)
qed (auto simp: engine_normal_def list_normal_apply)

lemma server_engine_normal: "engine_normal (server_engine ops)"
proof -
  have fold: "engine_normal e \<Longrightarrow> engine_normal (fold engine_apply ops e)" for e
    by (induction ops arbitrary: e) (simp_all add: engine_apply_normal)
  have "engine_normal (NewEngine (Some NewBlacklist) (Some NewBlacklist))"
    by (simp add: engine_normal_def NewEngine_def list_normal_def)
  from fold [OF this] show ?thesis by (simp only: server_engine_def)
qed

lemma list_contains_covered: "list_normal l \<Longrightarrow> list_contains l d \<longleftrightarrow> covered l d"
  using Contains_listed normal_fqdn by (fastforce simp: list_normal_def list_contains_def covered_def)

text \<open>The entry of a name in the table is the last one of the iteration that loads it.\<close>

definition names_of :: "string \<Rightarrow> int \<times> string list \<Rightarrow> int option" where
  "names_of k = (\<lambda>(c, ds). if k \<in> normalize_domain ` set ds then Some c else None)"

lemma names_of_Some: "names_of k x = Some b \<longleftrightarrow> (\<exists>ds. x = (b, ds) \<and> (\<exists>d \<in> set ds. normalize_domain d = k))"
  by (cases x) (auto simp: names_of_def)

lemma LoadCategories_last: "e_categories (LoadCategories cds e) k = first_some (names_of k) (rev cds)"
proof -
  have one: "fold (put_category c) ds m k = (if k \<in> normalize_domain ` set ds then Some c else m k)"
    for c ds m
    by (induction ds arbitrary: m) (auto simp: put_category_def)
  have "fold (\<lambda>(catID, domains). fold (put_category catID) domains) cds m k =
      (case first_some (names_of k) (rev cds) of None \<Rightarrow> m k | Some c \<Rightarrow> Some c)" for m
  proof (induction cds arbitrary: m)
    case (Cons cd cds)
    obtain c ds where "cd = (c, ds)" by fastforce
    with Cons show ?case by (auto simp: one first_some_append names_of_def split: option.splits)
  qed simp
  from this [of Map.empty] show ?thesis by (simp add: LoadCategories_def split: option.splits)
qed

lemma engine_block:
  assumes "proper_name d"
  shows "fr_action (EvaluateForGroup (server_engine ops) d g) = ActionBlock \<longleftrightarrow>
    (let e = server_engine ops
     in \<not> covered (e_whitelist e) d \<and>
        (covered (e_blacklist e) d \<or>
         0 < g \<and> (\<exists>c. nearest_category e d c \<and> category_blocked e g c)))"
proof -
  let ?e = "server_engine ops"
  have "list_normal (e_blacklist ?e)" "list_normal (e_whitelist ?e)"
    "\<forall>k \<in> dom (e_categories ?e). fqdn k"
    using server_engine_normal [of ops] normal_fqdn by (auto simp: engine_normal_def)
  moreover from this(3) have "nearest_category ?e d c \<longleftrightarrow> find_category ?e d = Some c" for c
    using find_category_nearest [OF assms] by blast
  ultimately show ?thesis
    by (cases "find_category ?e d") (simp_all add: EvaluateForGroup_def Let_def list_contains_covered)
qed

subsection \<open>Properties\<close>


text \<open>C23: The decision for a query, for any history of the engine. It is a block exactly if the name is below
  no white-listed name and either below a black-listed one, or, for a client in a group, the
  category of the nearest entry of the category table that applies is blocked for the group.\<close>

theorem engine_decision:
  assumes "proper_name d"
  shows "fr_action (EvaluateForGroup (server_engine ops) d g) = ActionBlock \<longleftrightarrow>
    (let e = server_engine ops
     in \<not> covered (e_whitelist e) d \<and>
        (covered (e_blacklist e) d \<or>
         0 < g \<and> (\<exists>c. nearest_category e d c \<and> category_blocked e g c)))"
  using assms by (rule engine_block)

theorem engine_decision_witness:
  "fr_action (EvaluateForGroup (server_engine
      [OnBlacklist (OpAdd ''example.com''), OnWhitelist (OpAdd ''safe.example.com'')]) ''ads.example.com.'' 0)
   = ActionBlock"
proof -
  let ?e = "server_engine [OnBlacklist (OpAdd ''example.com''), OnWhitelist (OpAdd ''safe.example.com'')]"
  have n: "normalize_domain ''ads.example.com.'' = ''ads.example.com.''"
    "normalize_domain ''example.com'' = ''example.com.''"
    "normalize_domain ''safe.example.com'' = ''safe.example.com.''" by code_simp+
  have "''ads.example.com.'' = joinDomain [''ads'', ''example'', ''com'']" by code_simp
  with n have "proper_name ''ads.example.com.''"
    unfolding proper_name_def by (intro exI [of _ "[''ads'', ''example'', ''com'']"]) simp
  moreover have "\<not> is_below ''ads.example.com.'' ''safe.example.com.''"
    and "is_below ''ads.example.com.'' ''example.com.''"
    by (simp_all add: is_below_def suffix_def)
  ultimately show ?thesis
    unfolding engine_decision [OF \<open>proper_name ''ads.example.com.''\<close>]
    by (simp add: covered_def server_engine_def NewEngine_def n)
qed

text \<open>The order in which Go walks through the map of categories does not matter as long as no domain is in
  the lists of two categories: any two orders give the same engine.\<close>

theorem category_order:
  assumes "set cds = set cds'"
    and "list_all (\<lambda>(c, ds). list_all (\<lambda>(c', ds'). c = c' \<or>
      normalize_domain ` set ds \<inter> normalize_domain ` set ds' = {}) cds) cds"
  shows "LoadCategories cds e = LoadCategories cds' e"
proof -
  have "first_some (names_of k) (rev cds) = first_some (names_of k) (rev cds')" for k
  proof (rule first_some_set)
    fix x y a b
    assume "x \<in> set (rev cds)" "y \<in> set (rev cds)" "names_of k x = Some a" "names_of k y = Some b"
    with assms(2) show "a = b" by (cases x; cases y) (force simp: names_of_def list_all_iff split: if_splits)
  qed (use assms(1) in simp)
  then have "e_categories (LoadCategories cds e) = e_categories (LoadCategories cds' e)"
    by (simp add: LoadCategories_last fun_eq_iff)
  then show ?thesis by (simp add: LoadCategories_def)
qed

theorem category_order_witness:
  "LoadCategories [(1, [''ads.com'']), (2, [''bet.com''])] e = LoadCategories [(2, [''bet.com'']), (1, [''ads.com''])] e"
proof -
  have "normalize_domain ''ads.com'' = ''ads.com.''" "normalize_domain ''bet.com'' = ''bet.com.''"
    by code_simp+
  then show ?thesis by (intro category_order) (simp_all add: insert_commute)
qed

text \<open>A domain in the lists of two categories has only one of them, whichever Go's map yields last: for a
  group that blocks one of the two, the same configuration blocks the domain or allows it.\<close>

theorem category_conflict:
  assumes "c \<noteq> c'" and "0 < g"
  shows "\<exists>cds cds'. set cds = set cds' \<and> set cds = {(c, [d]), (c', [d])} \<and>
    (let load = (\<lambda>order. fold engine_apply [Categories order, Policies [g \<mapsto> [c \<mapsto> True]]]
                   (NewEngine (Some NewBlacklist) (Some NewBlacklist)))
     in fr_action (EvaluateForGroup (load cds) d g) = ActionBlock \<and>
        fr_action (EvaluateForGroup (load cds') d g) = ActionAllow)"
proof (intro exI conjI)
  let ?n = "normalize_domain d"
  have table: "e_categories (LoadCategories [(a, [d]), (b, [d])] e) ?n = Some b" for a b e
    by (simp add: LoadCategories_last names_of_def)
  have lists: "\<not> list_contains (Some NewBlacklist) d"
    using Contains_listed [of NewBlacklist d] by (simp add: list_contains_def)
  have "find_category (LoadPolicies p (LoadCategories [(a, [d]), (b, [d])] e)) d = Some b" for p a b e
    using table by (simp add: find_category_def)
  then show "let load = (\<lambda>order. fold engine_apply [Categories order, Policies [g \<mapsto> [c \<mapsto> True]]]
                   (NewEngine (Some NewBlacklist) (Some NewBlacklist)))
     in fr_action (EvaluateForGroup (load [(c', [d]), (c, [d])]) d g) = ActionBlock \<and>
        fr_action (EvaluateForGroup (load [(c, [d]), (c', [d])]) d g) = ActionAllow"
    using assms lists
    by (simp add: EvaluateForGroup_def Let_def category_blocked_def map_bool_def NewEngine_def)
qed auto

theorem category_conflict_witness:
  "\<exists>cds cds'. set cds = set cds' \<and> set cds = {(1, [''bet.com'']), (6, [''bet.com''])} \<and>
    (let load = (\<lambda>order. fold engine_apply [Categories order, Policies [3 \<mapsto> [1 \<mapsto> True]]]
                   (NewEngine (Some NewBlacklist) (Some NewBlacklist)))
     in fr_action (EvaluateForGroup (load cds) ''bet.com'' 3) = ActionBlock \<and>
        fr_action (EvaluateForGroup (load cds') ''bet.com'' 3) = ActionAllow)"
  using category_conflict [of 1 6 3 "''bet.com''"] by simp

end
