(* ===== verification/Identity.thy ===== *)
theory Identity
  imports Prelude
begin

unbundle bit_operations_syntax

text \<open>
  The identity resolver, \<open>internal/identity/resolver.go\<close>: who a client is, from its session on the captive
  portal, the range its address is in, or the default. An address is \<open>nil\<close>, an IPv4 address
  (in either of Go's two forms) or another IPv6 address; its text, the key of the session map, identifies it,
  so the map is keyed by the address. A \<open>net.IPNet\<close> is a base address and a prefix length. Times are
  integers, in nanoseconds; the clock is an argument.
\<close>

subsection \<open>Addresses and networks\<close>

datatype ip = NoIP | V4 "32 word" | V6 "128 word"

datatype ipnet = Net4 "32 word" nat | Net6 "128 word" nat

definition CIDRMask :: "nat \<Rightarrow> 'a::len word" where
  "CIDRMask n = NOT (mask (LENGTH('a) - n))"

text \<open>The network that \<open>net.ParseCIDR\<close> returns for an address and a length: the address is masked.\<close>

fun mask_net :: "ipnet \<Rightarrow> ipnet" where
  "mask_net (Net4 a n) = Net4 (a AND CIDRMask n) n"
| "mask_net (Net6 a n) = Net6 (a AND CIDRMask n) n"

fun prefix_length :: "ipnet \<Rightarrow> nat" where
  "prefix_length (Net4 a n) = n"
| "prefix_length (Net6 a n) = n"

fun NetContains :: "ipnet \<Rightarrow> ip \<Rightarrow> bool" where
  "NetContains (Net4 base n) (V4 a) \<longleftrightarrow> base AND CIDRMask n = a AND CIDRMask n"
| "NetContains (Net6 base n) (V6 a) \<longleftrightarrow> base AND CIDRMask n = a AND CIDRMask n"
| "NetContains _ _ \<longleftrightarrow> False"

text \<open>Two networks of the same length that share an address are the same network.\<close>

lemma NetContains_unique:
  assumes "mask_net m = m" and "mask_net n = n" and "NetContains m a" and "NetContains n a"
    and "prefix_length m = prefix_length n"
  shows "m = n"
  using assms
  by (cases "(m, a)" rule: NetContains.cases; cases "(n, a)" rule: NetContains.cases) auto

subsection \<open>The resolver\<close>

definition AuthNone :: int where "AuthNone = 0"
definition AuthCaptivePortal :: int where "AuthCaptivePortal = 1"

record identity =
  id_user :: int
  id_username :: string
  id_group :: int
  id_auth :: int

record identity_range =
  ir_network :: ipnet
  ir_group :: int
  ir_auth :: int

record session =
  ss_ip :: ip
  ss_user :: int
  ss_username :: string
  ss_group :: int
  ss_expires :: int

record resolver =
  rs_sessions :: "ip \<rightharpoonup> session"
  rs_ranges :: "identity_range list"
  rs_defaultGroup :: int
  rs_defaultAuth :: int

definition NewResolver :: "int \<Rightarrow> resolver" where
  "NewResolver defaultGroupID =
     \<lparr>rs_sessions = Map.empty, rs_ranges = [], rs_defaultGroup = defaultGroupID,
      rs_defaultAuth = AuthNone\<rparr>"

text \<open>The session of an address, if it has not expired.\<close>

definition live_session :: "int \<Rightarrow> ip \<Rightarrow> resolver \<Rightarrow> session option" where
  "live_session now clientIP r =
     (case rs_sessions r clientIP of
        None \<Rightarrow> None
      | Some session \<Rightarrow> if now < ss_expires session then Some session else None)"

definition Resolve :: "int \<Rightarrow> ip \<Rightarrow> resolver \<Rightarrow> identity" where
  "Resolve now clientIP r =
     (case live_session now clientIP r of
        Some session \<Rightarrow>
          \<lparr>id_user = ss_user session, id_username = ss_username session, id_group = ss_group session,
           id_auth = AuthNone\<rparr>
      | None \<Rightarrow>
          (case find (\<lambda>ipRange. NetContains (ir_network ipRange) clientIP) (rs_ranges r) of
             Some ipRange \<Rightarrow>
               \<lparr>id_user = 0, id_username = [], id_group = ir_group ipRange, id_auth = ir_auth ipRange\<rparr>
           | None \<Rightarrow>
               \<lparr>id_user = 0, id_username = [], id_group = rs_defaultGroup r,
                id_auth = rs_defaultAuth r\<rparr>))"

definition AddSession :: "session \<Rightarrow> resolver \<Rightarrow> resolver" where
  "AddSession session r = r\<lparr>rs_sessions := (rs_sessions r)(ss_ip session \<mapsto> session)\<rparr>"

definition RemoveSession :: "ip \<Rightarrow> resolver \<Rightarrow> resolver" where
  "RemoveSession clientIP r = r\<lparr>rs_sessions := (rs_sessions r)(clientIP := None)\<rparr>"

definition LoadRanges :: "identity_range list \<Rightarrow> resolver \<Rightarrow> resolver" where
  "LoadRanges ranges r = r\<lparr>rs_ranges := ranges\<rparr>"

definition AddRange :: "identity_range \<Rightarrow> resolver \<Rightarrow> resolver" where
  "AddRange ipRange r = r\<lparr>rs_ranges := rs_ranges r @ [ipRange]\<rparr>"

definition SessionCount :: "resolver \<Rightarrow> nat" where
  "SessionCount r = card (dom (rs_sessions r))"

text \<open>A session is past its time when the clock is after its end.\<close>

definition expired :: "int \<Rightarrow> session \<Rightarrow> bool" where
  "expired now session \<longleftrightarrow> ss_expires session < now"

definition EvictExpiredSessions :: "int \<Rightarrow> resolver \<Rightarrow> nat \<times> resolver" where
  "EvictExpiredSessions now r =
     (card {a. \<exists>session. rs_sessions r a = Some session \<and> expired now session},
      r\<lparr>rs_sessions := (\<lambda>a. case rs_sessions r a of
           None \<Rightarrow> None
         | Some session \<Rightarrow> if expired now session then None else Some session)\<rparr>)"

definition GetRangeGroupID :: "ip \<Rightarrow> resolver \<Rightarrow> int" where
  "GetRangeGroupID a r =
     (case find (\<lambda>rng. NetContains (ir_network rng) a) (rs_ranges r) of
        Some rng \<Rightarrow> ir_group rng
      | None \<Rightarrow> rs_defaultGroup r)"

subsection \<open>The ranges at startup\<close>

text \<open>
  \<open>main.go\<close> sorts the ranges of the database by prefix length, longest first, with \<open>sort.Slice\<close>, which
  keeps no order among equals: any order that is sorted may come out. The text of a range is parsed
  by \<open>parse\<close>; a range that it refuses is skipped.
\<close>

record db_range =
  dr_cidr :: string
  dr_group :: int
  dr_auth :: int

definition to_range :: "(string \<Rightarrow> ipnet option) \<Rightarrow> db_range \<Rightarrow> identity_range list" where
  "to_range parse r =
     (case parse (dr_cidr r) of
        None \<Rightarrow> []
      | Some cidrNet \<Rightarrow> [\<lparr>ir_network = cidrNet, ir_group = dr_group r, ir_auth = dr_auth r\<rparr>])"

definition load_db_ranges :: "(string \<Rightarrow> ipnet option) \<Rightarrow> db_range list \<Rightarrow> resolver \<Rightarrow> resolver" where
  "load_db_ranges parse dbRanges r = fold AddRange (concat (map (to_range parse) dbRanges)) r"

definition longer_first :: "(string \<Rightarrow> ipnet option) \<Rightarrow> db_range \<Rightarrow> db_range \<Rightarrow> bool" where
  "longer_first parse a b =
     (case (parse (dr_cidr a), parse (dr_cidr b)) of
        (Some m, Some n) \<Rightarrow> prefix_length n \<le> prefix_length m
      | _ \<Rightarrow> True)"

lemma rs_ranges_load [simp]:
  "rs_ranges (load_db_ranges parse dbRanges r) = rs_ranges r @ concat (map (to_range parse) dbRanges)"
proof -
  have "rs_ranges (fold AddRange xs r) = rs_ranges r @ xs" for xs
    by (induction xs arbitrary: r) (simp_all add: AddRange_def)
  then show ?thesis by (simp add: load_db_ranges_def)
qed

lemma load_other_fields [simp]:
  "rs_sessions (load_db_ranges parse dbRanges r) = rs_sessions r"
  "rs_defaultGroup (load_db_ranges parse dbRanges r) = rs_defaultGroup r"
  "rs_defaultAuth (load_db_ranges parse dbRanges r) = rs_defaultAuth r"
proof -
  have "rs_sessions (fold AddRange xs r) = rs_sessions r \<and> rs_defaultGroup (fold AddRange xs r) = rs_defaultGroup r
      \<and> rs_defaultAuth (fold AddRange xs r) = rs_defaultAuth r" for xs
    by (induction xs arbitrary: r) (simp_all add: AddRange_def)
  then show "rs_sessions (load_db_ranges parse dbRanges r) = rs_sessions r"
    "rs_defaultGroup (load_db_ranges parse dbRanges r) = rs_defaultGroup r"
    "rs_defaultAuth (load_db_ranges parse dbRanges r) = rs_defaultAuth r"
    by (simp_all add: load_db_ranges_def)
qed

text \<open>With the longest prefixes first, the first range that contains an address is the most specific one.\<close>

lemma find_longest:
  assumes "sorted_wrt (\<lambda>a b. prefix_length (ir_network b) \<le> prefix_length (ir_network a)) rs"
    and "find (\<lambda>r. NetContains (ir_network r) a) rs = Some r"
  shows "r \<in> set rs \<and> NetContains (ir_network r) a \<and>
    (\<forall>r' \<in> set rs. NetContains (ir_network r') a \<longrightarrow>
       prefix_length (ir_network r') \<le> prefix_length (ir_network r))"
  using assms by (induction rs) (auto split: if_splits)

lemma find_most_specific:
  assumes sorted: "sorted_wrt (\<lambda>a b. prefix_length (ir_network b) \<le> prefix_length (ir_network a)) rs"
    and nets: "\<forall>r \<in> set rs. mask_net (ir_network r) = ir_network r" and "distinct (map ir_network rs)"
    and r: "r \<in> set rs" "NetContains (ir_network r) a"
    and longest: "\<forall>r' \<in> set rs. NetContains (ir_network r') a \<longrightarrow>
       prefix_length (ir_network r') \<le> prefix_length (ir_network r)"
  shows "find (\<lambda>r. NetContains (ir_network r) a) rs = Some r"
proof (cases "find (\<lambda>r. NetContains (ir_network r) a) rs")
  case None
  with r show ?thesis by (auto simp: find_None_iff)
next
  case (Some s)
  note s = find_longest [OF sorted Some]
  have "ir_network s = ir_network r"
    by (rule NetContains_unique) (use nets r s longest in \<open>auto intro: order.antisym\<close>)
  with assms(3) r(1) s have "s = r" by (metis distinct_map inj_onD)
  with Some show ?thesis by simp
qed

lemma sorted_ranges:
  assumes "sorted_wrt (longer_first parse) dbs" and "\<forall>d \<in> set dbs. parse (dr_cidr d) \<noteq> None"
  shows "sorted_wrt (\<lambda>a b. prefix_length (ir_network b) \<le> prefix_length (ir_network a))
    (concat (map (to_range parse) dbs))"
  using assms
proof (induction dbs)
  case (Cons d dbs)
  then show ?case by (force simp: to_range_def longer_first_def split: option.splits)
qed simp

lemma find_append: "find P (xs @ ys) = (case find P xs of None \<Rightarrow> find P ys | Some x \<Rightarrow> Some x)"
  by (induction xs) auto

lemma demo_nets:
  "NetContains (Net4 0x0A000500 24) (V4 0x0A000507)" "NetContains (Net4 0x0A000507 32) (V4 0x0A000507)"
  "NetContains (Net4 0 8) (V4 7)"
  "mask_net (Net4 0x0A000500 24) = Net4 0x0A000500 24" "mask_net (Net4 0x0A000507 32) = Net4 0x0A000507 32"
  by code_simp+

subsection \<open>Histories of the resolver\<close>

datatype resolver_op =
    OpSession session
  | OpLogout ip
  | OpRanges "identity_range list"
  | OpRange identity_range
  | OpEvict int

fun resolver_apply :: "resolver_op \<Rightarrow> resolver \<Rightarrow> resolver" where
  "resolver_apply (OpSession session) r = AddSession session r"
| "resolver_apply (OpLogout a) r = RemoveSession a r"
| "resolver_apply (OpRanges ranges) r = LoadRanges ranges r"
| "resolver_apply (OpRange ipRange) r = AddRange ipRange r"
| "resolver_apply (OpEvict t) r = snd (EvictExpiredSessions t r)"

lemmas resolver_defs = AddSession_def RemoveSession_def LoadRanges_def AddRange_def EvictExpiredSessions_def

text \<open>The session map has finitely many entries, each under the address of its session.\<close>

definition sessions_ok :: "resolver \<Rightarrow> bool" where
  "sessions_ok r \<longleftrightarrow> finite (dom (rs_sessions r)) \<and>
     (\<forall>a session. rs_sessions r a = Some session \<longrightarrow> ss_ip session = a)"

lemma sessions_ok_apply: "sessions_ok r \<Longrightarrow> sessions_ok (resolver_apply op r)"
proof (cases op)
  case (OpEvict t)
  assume "sessions_ok r"
  moreover have "dom (rs_sessions (snd (EvictExpiredSessions t r))) \<subseteq> dom (rs_sessions r)"
    by (auto simp: EvictExpiredSessions_def split: option.splits)
  ultimately show ?thesis
    by (auto simp: OpEvict sessions_ok_def EvictExpiredSessions_def dest: finite_subset
        split: option.splits if_splits)
qed (auto simp: sessions_ok_def resolver_defs)

lemma sessions_ok_history: "sessions_ok (fold resolver_apply ops (NewResolver g))"
proof -
  have "sessions_ok r \<Longrightarrow> sessions_ok (fold resolver_apply ops r)" for r
    by (induction ops arbitrary: r) (simp_all add: sessions_ok_apply)
  moreover have "sessions_ok (NewResolver g)" by (simp add: sessions_ok_def NewResolver_def)
  ultimately show ?thesis by blast
qed

text \<open>Operations that leave the session of an address alone.\<close>

fun keeps_session :: "session \<Rightarrow> resolver_op \<Rightarrow> bool" where
  "keeps_session s (OpSession s') \<longleftrightarrow> ss_ip s' \<noteq> ss_ip s"
| "keeps_session s (OpLogout a) \<longleftrightarrow> a \<noteq> ss_ip s"
| "keeps_session s (OpEvict t) \<longleftrightarrow> t \<le> ss_expires s"
| "keeps_session s _ \<longleftrightarrow> True"

lemma keeps_session_fold:
  "list_all (keeps_session s) ops \<Longrightarrow> rs_sessions r (ss_ip s) = Some s \<Longrightarrow>
   rs_sessions (fold resolver_apply ops r) (ss_ip s) = Some s"
proof (induction ops arbitrary: r)
  case (Cons op ops)
  then have "rs_sessions (resolver_apply op r) (ss_ip s) = Some s"
    by (cases op) (auto simp: resolver_defs expired_def)
  with Cons show ?case by simp
qed simp

text \<open>What an identity depends on.\<close>

lemma Resolve_cong:
  "live_session now a r = live_session now a r' \<Longrightarrow>
   find (\<lambda>x. NetContains (ir_network x) a) (rs_ranges r) =
     find (\<lambda>x. NetContains (ir_network x) a) (rs_ranges r') \<Longrightarrow>
   rs_defaultGroup r = rs_defaultGroup r' \<Longrightarrow> rs_defaultAuth r = rs_defaultAuth r' \<Longrightarrow>
   Resolve now a r = Resolve now a r'"
  by (simp add: Resolve_def split: option.split)

lemma session_ops_fields [simp]:
  "rs_ranges (RemoveSession b r) = rs_ranges r" "rs_ranges (snd (EvictExpiredSessions t r)) = rs_ranges r"
  "rs_defaultGroup (RemoveSession b r) = rs_defaultGroup r"
  "rs_defaultGroup (snd (EvictExpiredSessions t r)) = rs_defaultGroup r"
  "rs_defaultAuth (RemoveSession b r) = rs_defaultAuth r"
  "rs_defaultAuth (snd (EvictExpiredSessions t r)) = rs_defaultAuth r"
  by (simp_all add: RemoveSession_def EvictExpiredSessions_def)

lemma live_after_evict:
  "t \<le> now \<Longrightarrow> live_session now a (snd (EvictExpiredSessions t r)) = live_session now a r"
  by (simp add: live_session_def EvictExpiredSessions_def expired_def split: option.split)

lemma map_to_range:
  "\<forall>d \<in> set dbs. parse (dr_cidr d) \<noteq> None \<Longrightarrow>
   map Some (map ir_network (concat (map (to_range parse) dbs))) = map (\<lambda>d. parse (dr_cidr d)) dbs"
  by (induction dbs) (auto simp: to_range_def)

subsection \<open>Properties\<close>

text \<open>C30: After startup a client without a session is identified by the most specific range that contains its
  address, however the sort orders ranges of the same length, and by the default if there is none:
  the longest prefix match.\<close>

theorem startup_longest_prefix:
  assumes "\<And>c n. parse c = Some n \<Longrightarrow> mask_net n = n"
    and "sorted_wrt (longer_first parse) dbs"
    and "list_all (\<lambda>d. parse (dr_cidr d) \<noteq> None) dbs" and "distinct (map (\<lambda>d. parse (dr_cidr d)) dbs)"
    and "d \<in> set dbs" and "parse (dr_cidr d) = Some n" and "NetContains n a"
    and "list_all (\<lambda>d'. \<forall>m. parse (dr_cidr d') = Some m \<longrightarrow> NetContains m a \<longrightarrow>
           prefix_length m \<le> prefix_length n) dbs"
  shows "Resolve now a (load_db_ranges parse dbs (NewResolver g)) =
    \<lparr>id_user = 0, id_username = [], id_group = dr_group d, id_auth = dr_auth d\<rparr>"
proof -
  let ?rs = "concat (map (to_range parse) dbs)"
  let ?r = "\<lparr>ir_network = n, ir_group = dr_group d, ir_auth = dr_auth d\<rparr>"
  have parsed: "\<forall>d \<in> set dbs. parse (dr_cidr d) \<noteq> None" using assms(3) by (simp add: list_all_iff)
  have nets: "\<exists>d' \<in> set dbs. parse (dr_cidr d') = Some (ir_network r)" if "r \<in> set ?rs" for r
    using that by (auto simp: to_range_def split: option.splits)
  have "find (\<lambda>r. NetContains (ir_network r) a) ?rs = Some ?r"
  proof (rule find_most_specific)
    show "sorted_wrt (\<lambda>a b. prefix_length (ir_network b) \<le> prefix_length (ir_network a)) ?rs"
      by (rule sorted_ranges [OF assms(2) parsed])
    show "distinct (map ir_network ?rs)"
      using assms(4) unfolding map_to_range [OF parsed, symmetric] by (subst (asm) distinct_map) (rule conjunct1)
    show "?r \<in> set ?rs" using assms(5,6) by (force simp: to_range_def)
    show "\<forall>r \<in> set ?rs. mask_net (ir_network r) = ir_network r" using nets assms(1) by blast
    show "\<forall>r' \<in> set ?rs. NetContains (ir_network r') a \<longrightarrow>
        prefix_length (ir_network r') \<le> prefix_length (ir_network ?r)"
      using nets assms(8) by (fastforce simp: list_all_iff)
  qed (use assms(7) in simp)
  then show ?thesis by (simp add: Resolve_def live_session_def NewResolver_def [of g])
qed

theorem startup_longest_prefix_witness:
  "let parse = (\<lambda>c. if c = ''10.0.5.0/24'' then Some (Net4 0x0A000500 24)
                   else if c = ''10.0.5.7/32'' then Some (Net4 0x0A000507 32) else None);
       dbs = [\<lparr>dr_cidr = ''10.0.5.7/32'', dr_group = 2, dr_auth = 0\<rparr>,
              \<lparr>dr_cidr = ''10.0.5.0/24'', dr_group = 4, dr_auth = 1\<rparr>]
   in Resolve 0 (V4 0x0A000507) (load_db_ranges parse dbs (NewResolver 1)) =
        \<lparr>id_user = 0, id_username = [], id_group = 2, id_auth = 0\<rparr>"
proof -
  let ?parse = "\<lambda>c. if c = ''10.0.5.0/24'' then Some (Net4 0x0A000500 24)
                     else if c = ''10.0.5.7/32'' then Some (Net4 0x0A000507 32) else None"
  let ?host = "\<lparr>dr_cidr = ''10.0.5.7/32'', dr_group = 2, dr_auth = 0\<rparr>"
  let ?dbs = "[?host, \<lparr>dr_cidr = ''10.0.5.0/24'', dr_group = 4, dr_auth = 1\<rparr>]"
  have "mask_net n = n" if "?parse c = Some n" for c n
    using that demo_nets by (auto split: if_splits)
  from startup_longest_prefix [of ?parse ?dbs ?host "Net4 0x0A000507 32" "V4 0x0A000507" 0 1, OF this]
  show ?thesis using demo_nets by (simp add: longer_first_def Let_def del: NetContains.simps)
qed

text \<open>C31: A session wins over every range until it ends, whatever else happens to the resolver: other
  sessions, logouts of other clients, new or reloaded ranges and evictions. From its end on the
  client is identified as if it had no session, evicted or not.\<close>

theorem session_lasts:
  assumes "list_all (keeps_session s) ops"
  shows "Resolve now (ss_ip s) (fold resolver_apply ops (AddSession s r)) =
    (if now < ss_expires s
     then \<lparr>id_user = ss_user s, id_username = ss_username s, id_group = ss_group s, id_auth = AuthNone\<rparr>
     else Resolve now (ss_ip s) (RemoveSession (ss_ip s) (fold resolver_apply ops (AddSession s r))))"
proof -
  have "rs_sessions (fold resolver_apply ops (AddSession s r)) (ss_ip s) = Some s"
    by (rule keeps_session_fold [OF assms]) (simp add: AddSession_def)
  note s = this
  let ?r = "fold resolver_apply ops (AddSession s r)"
  show ?thesis
  proof (cases "now < ss_expires s")
    case True
    with s show ?thesis by (simp add: Resolve_def live_session_def)
  next
    case False
    with s have "live_session now (ss_ip s) ?r = live_session now (ss_ip s) (RemoveSession (ss_ip s) ?r)"
      by (simp add: live_session_def) (simp add: RemoveSession_def)
    then have "Resolve now (ss_ip s) ?r = Resolve now (ss_ip s) (RemoveSession (ss_ip s) ?r)"
      by (rule Resolve_cong) simp_all
    with False show ?thesis by simp
  qed
qed

theorem session_lasts_witness:
  "let s = \<lparr>ss_ip = V4 7, ss_user = 20, ss_username = ''guest'', ss_group = 5, ss_expires = 100\<rparr>;
       r = fold resolver_apply [OpEvict 50, OpLogout (V4 8),
             OpRange \<lparr>ir_network = Net4 0 8, ir_group = 4, ir_auth = 1\<rparr>] (AddSession s (NewResolver 1))
   in id_group (Resolve 99 (V4 7) r) = 5 \<and> id_group (Resolve 100 (V4 7) r) = 4"
  using session_lasts [of "\<lparr>ss_ip = V4 7, ss_user = 20, ss_username = ''guest'', ss_group = 5, ss_expires = 100\<rparr>"
      "[OpEvict 50, OpLogout (V4 8), OpRange \<lparr>ir_network = Net4 0 8, ir_group = 4, ir_auth = 1\<rparr>]" 99 "NewResolver 1"]
    session_lasts [of "\<lparr>ss_ip = V4 7, ss_user = 20, ss_username = ''guest'', ss_group = 5, ss_expires = 100\<rparr>"
      "[OpEvict 50, OpLogout (V4 8), OpRange \<lparr>ir_network = Net4 0 8, ir_group = 4, ir_auth = 1\<rparr>]" 100 "NewResolver 1"]
    demo_nets
  by (simp add: resolver_defs expired_def Resolve_def live_session_def NewResolver_def Let_def del: NetContains.simps)

text \<open>Evicting sessions changes no identity from then on, and the number it reports is the number of sessions
  that are gone.\<close>

theorem eviction_invisible:
  assumes "t \<le> now"
  shows "let r = fold resolver_apply ops (NewResolver g) in
    Resolve now a (snd (EvictExpiredSessions t r)) = Resolve now a r \<and>
    SessionCount (snd (EvictExpiredSessions t r)) + fst (EvictExpiredSessions t r) = SessionCount r"
proof -
  let ?r = "fold resolver_apply ops (NewResolver g)" and ?e = "\<lambda>r. snd (EvictExpiredSessions t r)"
  let ?gone = "{a. \<exists>s. rs_sessions ?r a = Some s \<and> expired t s}"
  have "Resolve now a (?e ?r) = Resolve now a ?r"
    using live_after_evict [OF assms] by (intro Resolve_cong) simp_all
  moreover have "dom (rs_sessions ?r) = dom (rs_sessions (?e ?r)) \<union> ?gone"
    and "dom (rs_sessions (?e ?r)) \<inter> ?gone = {}"
    by (auto simp: EvictExpiredSessions_def split: option.splits if_splits)
  moreover have "finite (dom (rs_sessions ?r))" using sessions_ok_history by (simp add: sessions_ok_def)
  ultimately show ?thesis
    by (simp add: Let_def SessionCount_def) (simp add: EvictExpiredSessions_def card_Un_disjoint)
qed

text \<open>A range that is created while the server runs goes behind all the others, so for an address that an
  existing range contains it has no effect, however specific it is: the same ranges give
  another identity before and after a restart.\<close>

theorem created_range_shadowed:
  assumes "r \<in> set (rs_ranges rs)" and "NetContains (ir_network r) a"
  shows "Resolve now a (AddRange new rs) = Resolve now a rs \<and>
    GetRangeGroupID a (AddRange new rs) = GetRangeGroupID a rs"
proof -
  have old: "find (\<lambda>r. NetContains (ir_network r) a) (rs_ranges rs) \<noteq> None"
    using assms by (auto simp: find_None_iff)
  then have "find (\<lambda>r. NetContains (ir_network r) a) (rs_ranges (AddRange new rs)) =
      find (\<lambda>r. NetContains (ir_network r) a) (rs_ranges rs)"
    by (auto simp: AddRange_def find_append)
  moreover have "rs_defaultGroup (AddRange new rs) = rs_defaultGroup rs"
    "rs_defaultAuth (AddRange new rs) = rs_defaultAuth rs"
    "live_session now a (AddRange new rs) = live_session now a rs"
    by (simp_all add: AddRange_def live_session_def)
  ultimately show ?thesis
    by (auto simp: GetRangeGroupID_def intro!: Resolve_cong split: option.split)
qed

theorem created_range_shadowed_witness:
  "let rs = LoadRanges [\<lparr>ir_network = Net4 0x0A000500 24, ir_group = 4, ir_auth = 1\<rparr>] (NewResolver 1);
       new = \<lparr>ir_network = Net4 0x0A000507 32, ir_group = 2, ir_auth = 0\<rparr>
   in id_group (Resolve 0 (V4 0x0A000507) (AddRange new rs)) = 4 \<and> NetContains (ir_network new) (V4 0x0A000507)"
  using created_range_shadowed [of "\<lparr>ir_network = Net4 0x0A000500 24, ir_group = 4, ir_auth = 1\<rparr>"
      "LoadRanges [\<lparr>ir_network = Net4 0x0A000500 24, ir_group = 4, ir_auth = 1\<rparr>] (NewResolver 1)"
      "V4 0x0A000507" 0 "\<lparr>ir_network = Net4 0x0A000507 32, ir_group = 2, ir_auth = 0\<rparr>"]
    demo_nets
  by (simp add: LoadRanges_def NewResolver_def Resolve_def live_session_def Let_def del: NetContains.simps)

end
