(* ===== verification/Cache.thy ===== *)
theory Cache
  imports GoText Identity
begin

text \<open>
  The response cache, \<open>internal/cache\<close>: \<open>cache.go\<close> (the map in memory with its clock and counters) and
  \<open>redis.go\<close> (the second level behind it). A DNS message is a record of the parts that the code reads
  or writes. The Redis server, with its own clock, and the wire format belong to other programs, so what the code calls of them
  is the parameter \<open>redis_lib\<close>; \<open>types\<close> is the table \<open>dns.TypeToString\<close> and \<open>fqdn_of\<close> is \<open>dns.Fqdn\<close> of the DNS
  library. An operation reads the clock once, as its argument; times and durations are in nanoseconds.
\<close>

subsection \<open>Messages\<close>

datatype rdata = AData ip | AAAAData ip | OtherData

record rr =
  rr_name :: string
  rr_type :: "16 word"
  rr_ttl :: "32 word"
  rr_data :: rdata

record msg =
  m_question :: "(string \<times> 16 word) list"
  m_answer :: "rr list"
  m_authoritative :: bool
  m_rcode :: nat

definition second :: int where
  "second = 10 ^ 9"

subsection \<open>Keys\<close>

definition key :: "(16 word \<rightharpoonup> string) \<Rightarrow> string \<Rightarrow> 16 word \<Rightarrow> string" where
  "key types name qtype =
     ToLower name @ ''|'' @ (case types qtype of None \<Rightarrow> [] | Some t \<Rightarrow> t)"

definition type_text :: "(16 word \<rightharpoonup> string) \<Rightarrow> 16 word \<Rightarrow> string" where
  "type_text types qtype = (case types qtype of None \<Rightarrow> [] | Some t \<Rightarrow> t)"

lemma key_type_text: "key types name qtype = ToLower name @ CHR ''|'' # type_text types qtype"
  by (simp add: key_def type_text_def)

text \<open>Names of record types have no bar, so the last bar of a key ends the name.\<close>

definition types_plain :: "(16 word \<rightharpoonup> string) \<Rightarrow> bool" where
  "types_plain types \<longleftrightarrow> (\<forall>t \<in> ran types. CHR ''|'' \<notin> set t)"

lemma type_text_plain: "types_plain types \<Longrightarrow> CHR ''|'' \<notin> set (type_text types q)"
  by (cases "types q") (auto simp: types_plain_def type_text_def dest: ranI)

lemma append_sep_inject:
  assumes "xs @ c # ys = xs' @ c # ys'" and "c \<notin> set ys" and "c \<notin> set ys'"
  shows "xs = xs' \<and> ys = ys'"
proof -
  have "rev ys @ c # rev xs = rev ys' @ c # rev xs'" using arg_cong [OF assms(1), of rev] by simp
  moreover have "takeWhile (\<lambda>x. x \<noteq> c) (rev zs @ c # ws) = rev zs" if "c \<notin> set zs" for zs ws
    using that by (subst takeWhile_append2) auto
  ultimately have "rev ys = rev ys'" using assms(2,3) by metis
  with assms(1) show ?thesis by simp
qed

lemma key_inject:
  assumes "types_plain types"
  shows "key types n q = key types n' q' \<longleftrightarrow>
    ToLower n = ToLower n' \<and> type_text types q = type_text types q'"
  using append_sep_inject [of "ToLower n" "CHR ''|''" "type_text types q" "ToLower n'" "type_text types q'"]
    type_text_plain [OF assms] by (auto simp: key_type_text)

subsection \<open>The second level\<close>

record ('r, 'b) redis_lib =
  rl_Get :: "'r \<Rightarrow> int \<Rightarrow> string \<Rightarrow> 'b option"
  rl_Set :: "'r \<Rightarrow> int \<Rightarrow> string \<Rightarrow> 'b \<Rightarrow> int \<Rightarrow> 'r"
  rl_Pack :: "msg \<Rightarrow> 'b option"
  rl_Unpack :: "'b \<Rightarrow> msg option"

record 'r redis_cache =
  rc_client :: 'r
  rc_ttlFloor :: int
  rc_ttlCeil :: int

definition clamp :: "int \<Rightarrow> int \<Rightarrow> int \<Rightarrow> int" where
  "clamp lower upper ttl =
     (let ttl = (if ttl < lower then lower else ttl)
      in if ttl > upper then upper else ttl)"

definition redis_Get ::
  "('r, 'b) redis_lib \<Rightarrow> (16 word \<rightharpoonup> string) \<Rightarrow> int \<Rightarrow> string \<Rightarrow> 16 word \<Rightarrow> 'r redis_cache \<Rightarrow>
   msg option" where
  "redis_Get L types now name qtype r =
     (case rl_Get L (rc_client r) now (key types name qtype) of
        None \<Rightarrow> None
      | Some data \<Rightarrow> rl_Unpack L data)"

definition redis_Set ::
  "('r, 'b) redis_lib \<Rightarrow> (16 word \<rightharpoonup> string) \<Rightarrow> int \<Rightarrow> string \<Rightarrow> 16 word \<Rightarrow> msg \<Rightarrow> int \<Rightarrow>
   'r redis_cache \<Rightarrow> 'r redis_cache" where
  "redis_Set L types now name qtype m ttl r =
     (if m_answer m = [] then r
      else let ttl = clamp (rc_ttlFloor r) (rc_ttlCeil r) ttl
           in case rl_Pack L m of
                None \<Rightarrow> r
              | Some data \<Rightarrow>
                  r\<lparr>rc_client := rl_Set L (rc_client r) now (key types name qtype) data ttl\<rparr>)"

subsection \<open>The cache\<close>

record cache_entry =
  ce_msg :: msg
  ce_expiresAt :: int

record 'r cache =
  ca_entries :: "string \<rightharpoonup> cache_entry"
  ca_ttlFloor :: int
  ca_ttlCeil :: int
  ca_hits :: "64 word"
  ca_misses :: "64 word"
  ca_l2 :: "'r redis_cache option"

definition NewCache :: "int \<Rightarrow> int \<Rightarrow> 'r cache" where
  "NewCache ttlFloor ttlCeil =
     \<lparr>ca_entries = Map.empty, ca_ttlFloor = ttlFloor, ca_ttlCeil = ttlCeil, ca_hits = 0, ca_misses = 0,
      ca_l2 = None\<rparr>"

definition SetL2 :: "'r redis_cache option \<Rightarrow> 'r cache \<Rightarrow> 'r cache" where
  "SetL2 l2 c = c\<lparr>ca_l2 := l2\<rparr>"

definition extractTTL :: "msg \<Rightarrow> 'r cache \<Rightarrow> int" where
  "extractTTL m c =
     (let minTTL = fold (\<lambda>rr minTTL. if rr_ttl rr < minTTL then rr_ttl rr else minTTL) (m_answer m) 3600
      in clamp (ca_ttlFloor c) (ca_ttlCeil c) (uint minTTL * second))"

definition cache_Set ::
  "('r, 'b) redis_lib \<Rightarrow> (16 word \<rightharpoonup> string) \<Rightarrow> int \<Rightarrow> string \<Rightarrow> 16 word \<Rightarrow> msg \<Rightarrow> 'r cache \<Rightarrow> 'r cache" where
  "cache_Set L types now name qtype m c =
     (if m_answer m = [] then c
      else let ttl = extractTTL m c;
               c' = c\<lparr>ca_entries := (ca_entries c)(key types name qtype \<mapsto>
                        \<lparr>ce_msg = m, ce_expiresAt = now + ttl\<rparr>)\<rparr>
           in c'\<lparr>ca_l2 := map_option (redis_Set L types now name qtype m ttl) (ca_l2 c')\<rparr>)"

definition cache_Get ::
  "('r, 'b) redis_lib \<Rightarrow> (16 word \<rightharpoonup> string) \<Rightarrow> int \<Rightarrow> string \<Rightarrow> 16 word \<Rightarrow> 'r cache \<Rightarrow>
   msg option \<times> 'r cache" where
  "cache_Get L types now name qtype c =
     (let l1 = (case ca_entries c (key types name qtype) of
                  None \<Rightarrow> None
                | Some e \<Rightarrow> if now < ce_expiresAt e then Some (ce_msg e) else None)
      in case l1 of
           Some m \<Rightarrow> (Some m, c\<lparr>ca_hits := ca_hits c + 1\<rparr>)
         | None \<Rightarrow>
             (case (case ca_l2 c of None \<Rightarrow> None | Some l2 \<Rightarrow> redis_Get L types now name qtype l2) of
                Some m \<Rightarrow>
                  (Some m, (cache_Set L types now name qtype m c)\<lparr>ca_hits := ca_hits c + 1\<rparr>)
              | None \<Rightarrow> (None, c\<lparr>ca_misses := ca_misses c + 1\<rparr>)))"

definition Invalidate :: "(string \<Rightarrow> string) \<Rightarrow> string \<Rightarrow> 'r cache \<Rightarrow> nat \<times> 'r cache" where
  "Invalidate fqdn_of name c =
     (let name = ToLower (fqdn_of name);
          gone = (\<lambda>k. HasPrefix k (name @ ''|''))
      in (card {k \<in> dom (ca_entries c). gone k},
          c\<lparr>ca_entries := (\<lambda>k. if gone k then None else ca_entries c k)\<rparr>))"

definition GetStats :: "'r cache \<Rightarrow> 64 word \<times> 64 word" where
  "GetStats c = (ca_hits c, ca_misses c)"

definition CacheSize :: "'r cache \<Rightarrow> nat" where
  "CacheSize c = card (dom (ca_entries c))"

text \<open>One round of the loop that runs every 30 seconds.\<close>

definition evict :: "int \<Rightarrow> 'r cache \<Rightarrow> 'r cache" where
  "evict now c =
     c\<lparr>ca_entries := (\<lambda>k. case ca_entries c k of
          None \<Rightarrow> None
        | Some e \<Rightarrow> if ce_expiresAt e < now then None else Some e)\<rparr>"

subsection \<open>Effects on one key\<close>

named_theorems cache_simps \<open>effects of the cache operations on the fields of the cache\<close>

text \<open>What the memory answers for a key at a time.\<close>

definition live :: "int \<Rightarrow> string \<Rightarrow> 'r cache \<Rightarrow> msg option" where
  "live now k c =
     (case ca_entries c k of
        None \<Rightarrow> None
      | Some e \<Rightarrow> if now < ce_expiresAt e then Some (ce_msg e) else None)"

lemma cache_Get_live:
  "cache_Get L types now name qtype c =
     (case live now (key types name qtype) c of
        Some m \<Rightarrow> (Some m, c\<lparr>ca_hits := ca_hits c + 1\<rparr>)
      | None \<Rightarrow>
          (case (case ca_l2 c of None \<Rightarrow> None | Some l2 \<Rightarrow> redis_Get L types now name qtype l2) of
             Some m \<Rightarrow> (Some m, (cache_Set L types now name qtype m c)\<lparr>ca_hits := ca_hits c + 1\<rparr>)
           | None \<Rightarrow> (None, c\<lparr>ca_misses := ca_misses c + 1\<rparr>)))"
  by (simp add: cache_Get_def live_def Let_def)

lemma live_counters [cache_simps]:
  "live t k (c\<lparr>ca_hits := h\<rparr>) = live t k c" "live t k (c\<lparr>ca_misses := h\<rparr>) = live t k c"
  by (simp_all add: live_def)

lemma live_Set [cache_simps]:
  "live t k (cache_Set L types now name qtype m c) =
     (if m_answer m \<noteq> [] \<and> k = key types name qtype
      then if t < now + extractTTL m c then Some m else None
      else live t k c)"
  by (simp add: live_def cache_Set_def Let_def)

lemma live_Invalidate [cache_simps]:
  "live t k (snd (Invalidate fqdn_of name c)) =
     (if HasPrefix k (ToLower (fqdn_of name) @ ''|'') then None else live t k c)"
  by (simp add: live_def Invalidate_def Let_def)

lemma live_evict [cache_simps]: "now \<le> t \<Longrightarrow> live t k (evict now c) = live t k c"
  by (simp add: live_def evict_def split: option.split)

lemma cache_Set_fields [cache_simps]:
  "ca_hits (cache_Set L types now name qtype m c) = ca_hits c"
  "ca_misses (cache_Set L types now name qtype m c) = ca_misses c"
  "ca_ttlFloor (cache_Set L types now name qtype m c) = ca_ttlFloor c"
  "ca_ttlCeil (cache_Set L types now name qtype m c) = ca_ttlCeil c"
  "ca_l2 c = None \<Longrightarrow> ca_l2 (cache_Set L types now name qtype m c) = None"
  by (simp_all add: cache_Set_def Let_def)

lemma Invalidate_fields [cache_simps]:
  "ca_hits (snd (Invalidate f name c)) = ca_hits c" "ca_misses (snd (Invalidate f name c)) = ca_misses c"
  "ca_ttlFloor (snd (Invalidate f name c)) = ca_ttlFloor c"
  "ca_ttlCeil (snd (Invalidate f name c)) = ca_ttlCeil c" "ca_l2 (snd (Invalidate f name c)) = ca_l2 c"
  by (simp_all add: Invalidate_def Let_def)

lemma evict_fields [cache_simps]:
  "ca_hits (evict t c) = ca_hits c" "ca_misses (evict t c) = ca_misses c"
  "ca_ttlFloor (evict t c) = ca_ttlFloor c" "ca_ttlCeil (evict t c) = ca_ttlCeil c"
  "ca_l2 (evict t c) = ca_l2 c"
  by (simp_all add: evict_def)

lemma extractTTL_cong:
  "ca_ttlFloor c = ca_ttlFloor c' \<Longrightarrow> ca_ttlCeil c = ca_ttlCeil c' \<Longrightarrow> extractTTL m c = extractTTL m c'"
  by (simp add: extractTTL_def)

lemma min_ttl_fold:
  "fold (\<lambda>rr minTTL. if rr_ttl rr < minTTL then rr_ttl rr else minTTL) rrs b =
     Min (insert b (rr_ttl ` set rrs))"
proof (induction rrs arbitrary: b)
  case (Cons rr rrs)
  have "Min (insert b (insert x A)) = Min (insert (if x < b then x else b) A)" if "finite A"
    for A and x :: "32 word"
    using that by (cases "A = {}") (auto simp: min_def not_less intro: order.antisym)
  then show ?case by (simp add: Cons.IH)
qed simp

lemma clamp_bounds: "lower \<le> upper \<Longrightarrow> lower \<le> clamp lower upper ttl \<and> clamp lower upper ttl \<le> upper"
  by (simp add: clamp_def Let_def)

lemma clamp_le: "lower \<le> b \<Longrightarrow> ttl \<le> b \<Longrightarrow> clamp lower upper ttl \<le> b"
  by (simp add: clamp_def Let_def)

subsection \<open>Histories of the cache\<close>

datatype (discs_sels) cache_op =
    CSet int string "16 word" msg
  | CGet int string "16 word"
  | CInvalidate string
  | CEvict int

fun cache_apply ::
  "('r, 'b) redis_lib \<Rightarrow> (16 word \<rightharpoonup> string) \<Rightarrow> (string \<Rightarrow> string) \<Rightarrow> cache_op \<Rightarrow> 'r cache \<Rightarrow> 'r cache" where
  "cache_apply L types fqdn_of (CSet now name qtype m) c = cache_Set L types now name qtype m c"
| "cache_apply L types fqdn_of (CGet now name qtype) c = snd (cache_Get L types now name qtype c)"
| "cache_apply L types fqdn_of (CInvalidate name) c = snd (Invalidate fqdn_of name c)"
| "cache_apply L types fqdn_of (CEvict now) c = evict now c"

lemma cache_Get_no_l2:
  "ca_l2 c = None \<Longrightarrow> cache_Get L types now name qtype c =
     (case live now (key types name qtype) c of
        Some m \<Rightarrow> (Some m, c\<lparr>ca_hits := ca_hits c + 1\<rparr>)
      | None \<Rightarrow> (None, c\<lparr>ca_misses := ca_misses c + 1\<rparr>))"
  by (simp add: cache_Get_live split: option.split)

text \<open>
  The abstract cache: what a lookup at time \<open>t\<close> should find after a history, read backwards. Only the
  last message stored for the key counts, until its time is over or its name is invalidated.
\<close>

definition time_to_live :: "int \<Rightarrow> int \<Rightarrow> msg \<Rightarrow> int" where
  "time_to_live lower upper m =
     clamp lower upper (uint (Min (insert 3600 (rr_ttl ` set (m_answer m)))) * second)"

fun stored ::
  "(16 word \<rightharpoonup> string) \<Rightarrow> (string \<Rightarrow> string) \<Rightarrow> (msg \<Rightarrow> int) \<Rightarrow> int \<Rightarrow> string \<Rightarrow> cache_op list \<Rightarrow> msg option" where
  "stored types fqdn_of ttl t k [] = None"
| "stored types fqdn_of ttl t k (CSet now name qtype m # earlier) =
     (if m_answer m \<noteq> [] \<and> k = key types name qtype
      then if t < now + ttl m then Some m else None
      else stored types fqdn_of ttl t k earlier)"
| "stored types fqdn_of ttl t k (CInvalidate name # earlier) =
     (if HasPrefix k (ToLower (fqdn_of name) @ ''|'') then None
      else stored types fqdn_of ttl t k earlier)"
| "stored types fqdn_of ttl t k (_ # earlier) = stored types fqdn_of ttl t k earlier"

lemma extractTTL_time: "extractTTL m c = time_to_live (ca_ttlFloor c) (ca_ttlCeil c) m"
  by (simp add: extractTTL_def time_to_live_def min_ttl_fold Let_def)

definition l1_only :: "int \<Rightarrow> int \<Rightarrow> 'r cache \<Rightarrow> bool" where
  "l1_only lower upper c \<longleftrightarrow> ca_l2 c = None \<and> ca_ttlFloor c = lower \<and> ca_ttlCeil c = upper"

lemma l1_only_apply: "l1_only f cl c \<Longrightarrow> l1_only f cl (cache_apply L types fqdn_of op c)"
  by (cases op) (simp_all add: l1_only_def cache_simps cache_Get_no_l2 split: option.split)

lemma l1_only_history: "l1_only f cl (fold (cache_apply L types fqdn_of) ops (NewCache f cl))"
proof -
  have "l1_only f cl c \<Longrightarrow> l1_only f cl (fold (cache_apply L types fqdn_of) ops c)" for c
    by (induction ops arbitrary: c) (simp_all add: l1_only_apply)
  moreover have "l1_only f cl (NewCache f cl)" by (simp add: l1_only_def NewCache_def)
  ultimately show ?thesis by blast
qed

text \<open>Evictions that a lookup may have behind it.\<close>

definition evicted_by :: "int \<Rightarrow> cache_op \<Rightarrow> bool" where
  "evicted_by t op \<longleftrightarrow> (case op of CEvict u \<Rightarrow> u \<le> t | _ \<Rightarrow> True)"

lemma live_history:
  "list_all (evicted_by t) ops \<Longrightarrow>
   live t k (fold (cache_apply L types fqdn_of) ops (NewCache f cl)) =
     stored types fqdn_of (time_to_live f cl) t k (rev ops)"
proof (induction ops rule: rev_induct)
  case Nil
  show ?case by (simp add: live_def NewCache_def)
next
  case (snoc op ops)
  let ?c = "fold (cache_apply L types fqdn_of) ops (NewCache f cl)"
  have IH: "live t k ?c = stored types fqdn_of (time_to_live f cl) t k (rev ops)"
    and t: "evicted_by t op" using snoc by simp_all
  have c: "ca_l2 ?c = None" "extractTTL m ?c = time_to_live f cl m" for m
    using l1_only_history [of f cl L types fqdn_of ops] by (simp_all add: l1_only_def extractTTL_time)
  from IH t c show ?case
    by (cases op) (simp_all add: cache_simps cache_Get_no_l2 evicted_by_def split: option.split)
qed

subsection \<open>An instance of the parameters\<close>

definition demo_types :: "16 word \<rightharpoonup> string" where
  "demo_types = [1 \<mapsto> ''A'', 28 \<mapsto> ''AAAA'']"

definition demo_msg :: "32 word \<Rightarrow> msg" where
  "demo_msg ttl =
     \<lparr>m_question = [(''a.com.'', 1)],
      m_answer = [\<lparr>rr_name = ''a.com.'', rr_type = 1, rr_ttl = ttl, rr_data = AData (V4 7)\<rparr>],
      m_authoritative = False, m_rcode = 0\<rparr>"

definition demo_redis :: "(string \<rightharpoonup> msg \<times> int, msg) redis_lib" where
  "demo_redis =
     \<lparr>rl_Get = (\<lambda>r now k. case r k of None \<Rightarrow> None | Some (m, ends) \<Rightarrow> if now < ends then Some m else None),
      rl_Set = (\<lambda>r now k m ttl. r(k \<mapsto> (m, now + ttl))), rl_Pack = Some, rl_Unpack = Some\<rparr>"

definition demo_cache :: "(string \<rightharpoonup> msg \<times> int) cache" where
  "demo_cache = NewCache (30 * second) (3600 * second)"

lemmas demo_cache_defs = demo_types_def demo_msg_def demo_redis_def demo_cache_def NewCache_def

lemma demo_ttl: "extractTTL (demo_msg 300) demo_cache = 300 * second"
  "time_to_live (30 * second) (3600 * second) (demo_msg 300) = 300 * second"
  by (simp_all add: extractTTL_def time_to_live_def clamp_def demo_cache_defs second_def Let_def)

lemma demo_lower: "ToLower ''A.com.'' = ''a.com.''" "ToLower ''a.com.'' = ''a.com.''"
  by code_simp+

lemma demo_answer [simp]: "m_answer (demo_msg ttl) \<noteq> []"
  by (simp add: demo_msg_def)

subsection \<open>Properties\<close>



text \<open>The time to live is within the configured bounds; apart from the floor it never exceeds that of
  any record of the answer, nor one hour, whatever ceiling is configured.\<close>

theorem ttl_bounds:
  assumes "ca_ttlFloor c \<le> ca_ttlCeil c" and "rr \<in> set (m_answer m)"
  shows "ca_ttlFloor c \<le> extractTTL m c \<and> extractTTL m c \<le> ca_ttlCeil c \<and>
    extractTTL m c \<le> max (ca_ttlFloor c) (uint (rr_ttl rr) * second) \<and>
    extractTTL m c \<le> max (ca_ttlFloor c) (3600 * second)"
proof -
  let ?min = "Min (insert 3600 (rr_ttl ` set (m_answer m)))"
  have "?min \<le> rr_ttl rr" and "?min \<le> 3600" using assms(2) by (auto intro: Min_le)
  then have min: "uint ?min \<le> uint (rr_ttl rr)" "uint ?min \<le> 3600"
    by (simp_all add: word_le_def)
  have "extractTTL m c \<le> max (ca_ttlFloor c) b" if "uint ?min * second \<le> b" for b
    unfolding extractTTL_time time_to_live_def by (rule clamp_le) (use that in auto)
  with min clamp_bounds [OF assms(1)] show ?thesis
    by (simp add: extractTTL_time time_to_live_def second_def)
qed

theorem ttl_bounds_witness:
  "extractTTL (demo_msg 5) demo_cache \<le> 30 * second \<and> 30 * second \<le> extractTTL (demo_msg 5) demo_cache"
  using ttl_bounds [of demo_cache "hd (m_answer (demo_msg 5))" "demo_msg 5"]
  by (simp add: demo_cache_defs second_def)

text \<open>The counters of the dashboard add up, with or without a second level: hits and misses together are
  the lookups made, as 64-bit counters.\<close>

theorem counters_add_up:
  "ca_hits (fold (cache_apply L types fqdn_of) ops c) + ca_misses (fold (cache_apply L types fqdn_of) ops c) =
     ca_hits c + ca_misses c + of_nat (length (filter is_CGet ops))"
proof (induction ops arbitrary: c)
  case (Cons op ops)
  have "ca_hits (cache_apply L types fqdn_of op c) + ca_misses (cache_apply L types fqdn_of op c) =
      ca_hits c + ca_misses c + (if is_CGet op then 1 else 0)"
    by (cases op) (simp_all add: cache_simps cache_Get_live split: option.split)
  with Cons show ?case by simp
qed simp

text \<open>Invalidating a name removes its entries of every type from the memory and no entry of another
  name, and reports how many they were.\<close>

theorem invalidate_exact:
  assumes "CHR ''|'' \<notin> set (ToLower (fqdn_of d))" and "CHR ''|'' \<notin> set (ToLower name)"
    and "finite (dom (ca_entries c))"
  shows "live t (key types name qtype) (snd (Invalidate fqdn_of d c)) =
      (if ToLower name = ToLower (fqdn_of d) then None else live t (key types name qtype) c) \<and>
    CacheSize (snd (Invalidate fqdn_of d c)) + fst (Invalidate fqdn_of d c) = CacheSize c"
proof
  have "HasPrefix (key types name qtype) (ToLower (fqdn_of d) @ ''|'') \<longleftrightarrow> ToLower name = ToLower (fqdn_of d)"
  proof
    assume "HasPrefix (key types name qtype) (ToLower (fqdn_of d) @ ''|'')"
    then obtain z where "ToLower name @ CHR ''|'' # type_text types qtype = ToLower (fqdn_of d) @ CHR ''|'' # z"
      by (auto simp: key_type_text prefix_def)
    then have "before (CHR ''|'') (ToLower name @ CHR ''|'' # type_text types qtype) =
        before (CHR ''|'') (ToLower (fqdn_of d) @ CHR ''|'' # z)" by simp
    with assms(1,2) show "ToLower name = ToLower (fqdn_of d)" by simp
  qed (simp add: key_type_text)
  then show "live t (key types name qtype) (snd (Invalidate fqdn_of d c)) =
      (if ToLower name = ToLower (fqdn_of d) then None else live t (key types name qtype) c)"
    by (simp add: live_Invalidate)
  let ?gone = "\<lambda>k. HasPrefix k (ToLower (fqdn_of d) @ ''|'')"
  have "dom (ca_entries c) = {k \<in> dom (ca_entries c). \<not> ?gone k} \<union> {k \<in> dom (ca_entries c). ?gone k}" by blast
  moreover have "dom (ca_entries (snd (Invalidate fqdn_of d c))) = {k \<in> dom (ca_entries c). \<not> ?gone k}"
    by (auto simp: Invalidate_def Let_def split: if_splits)
  moreover have "card ({k \<in> dom (ca_entries c). \<not> ?gone k} \<union> {k \<in> dom (ca_entries c). ?gone k}) =
      card {k \<in> dom (ca_entries c). \<not> ?gone k} + card {k \<in> dom (ca_entries c). ?gone k}"
    by (rule card_Un_disjoint) (use assms(3) in auto)
  moreover have "fst (Invalidate fqdn_of d c) = card {k \<in> dom (ca_entries c). ?gone k}"
    by (simp add: Invalidate_def Let_def)
  ultimately show "CacheSize (snd (Invalidate fqdn_of d c)) + fst (Invalidate fqdn_of d c) = CacheSize c"
    by (simp add: CacheSize_def)
qed

theorem invalidate_exact_witness:
  "let c = cache_Set demo_redis demo_types 0 ''a.com.'' 1 (demo_msg 300) demo_cache
   in live 1 (key demo_types ''a.com.'' 1) c = Some (demo_msg 300) \<and>
      live 1 (key demo_types ''a.com.'' 1) (snd (Invalidate (\<lambda>d. d @ ''.'') ''A.com'' c)) = None"
proof -
  let ?c = "cache_Set demo_redis demo_types 0 ''a.com.'' 1 (demo_msg 300) demo_cache"
  have "finite (dom (ca_entries ?c))" by (simp add: cache_Set_def Let_def demo_cache_def NewCache_def)
  from invalidate_exact [of "\<lambda>d. d @ ''.''" "''A.com''" "''a.com.''" ?c 1 demo_types 1, OF _ _ this] demo_ttl(1)
  show ?thesis by (simp add: live_Set demo_lower second_def)
qed

text \<open>With a second level an invalidated name is back at the next lookup: only the memory is cleared, so the
  message comes from Redis and is stored again for its full time.\<close>

theorem invalidated_returns:
  assumes "ca_l2 c = Some l2" and "redis_Get L types now name qtype l2 = Some m" and "fqdn_of name = name"
    and "m_answer m \<noteq> []" and "t < now + extractTTL m c"
  shows "let (answer, c') = cache_Get L types now name qtype (snd (Invalidate fqdn_of name c))
    in answer = Some m \<and> live t (key types name qtype) c' = Some m"
proof -
  let ?c = "snd (Invalidate fqdn_of name c)"
  have "live now (key types name qtype) ?c = None"
    using assms(3) by (simp add: live_Invalidate key_type_text)
  moreover have "extractTTL m ?c = extractTTL m c" by (rule extractTTL_cong) (simp_all add: cache_simps)
  ultimately show ?thesis using assms by (simp add: cache_Get_live cache_simps)
qed

theorem invalidated_returns_witness:
  "let c = cache_Set demo_redis demo_types 0 ''a.com.'' 1 (demo_msg 300)
        (SetL2 (Some \<lparr>rc_client = Map.empty, rc_ttlFloor = 0, rc_ttlCeil = 3600 * second\<rparr>) demo_cache)
   in fst (cache_Get demo_redis demo_types 5 ''a.com.'' 1 (snd (Invalidate id ''a.com.'' c))) = Some (demo_msg 300)"
proof -
  let ?c = "cache_Set demo_redis demo_types 0 ''a.com.'' 1 (demo_msg 300)
        (SetL2 (Some \<lparr>rc_client = Map.empty, rc_ttlFloor = 0, rc_ttlCeil = 3600 * second\<rparr>) demo_cache)"
  obtain l2 where "ca_l2 ?c = Some l2" "redis_Get demo_redis demo_types 5 ''a.com.'' 1 l2 = Some (demo_msg 300)"
    by (simp add: cache_Set_def SetL2_def redis_Set_def redis_Get_def demo_cache_defs extractTTL_def clamp_def second_def Let_def)
  moreover have "extractTTL (demo_msg 300) ?c = extractTTL (demo_msg 300) demo_cache"
    by (rule extractTTL_cong) (simp_all add: cache_simps SetL2_def)
  ultimately show ?thesis
    using invalidated_returns [of ?c l2 demo_redis demo_types 5 "''a.com.''" 1 "demo_msg 300" id 5] demo_ttl(1)
    by (simp add: second_def demo_msg_def split: prod.splits)
qed

text \<open>The key of the cache has the name of the record type, and types without a name in the library's table all have
  the empty one: an answer stored for one of them is given to a query for any other.\<close>

theorem unnamed_types_share:
  assumes "types q = None" and "types q' = None" and "m_answer m \<noteq> []" and "t < now + extractTTL m c"
  shows "fst (cache_Get L types t name q' (cache_Set L types now name q m c)) = Some m"
proof -
  have "key types name q' = key types name q" using assms by (simp add: key_def)
  with assms show ?thesis by (simp add: cache_Get_live live_Set)
qed

theorem unnamed_types_share_witness:
  "fst (cache_Get demo_redis demo_types 5 ''a.com.'' 65281
     (cache_Set demo_redis demo_types 0 ''a.com.'' 65280 (demo_msg 300) demo_cache)) = Some (demo_msg 300)"
  using unnamed_types_share [of demo_types 65280 65281 "demo_msg 300" 5 0 demo_cache demo_redis "''a.com.''"]
    demo_ttl(1) by (simp add: demo_types_def demo_msg_def second_def)

end
