(* ===== verification/DnsHandler.thy ===== *)
theory DnsHandler
  imports PolicyEngine Cache
begin

text \<open>
  The path of a DNS query, \<open>internal/dns\<close>: \<open>resolver.go\<close> (the upstream servers, tried in order) and
  \<open>handler.go\<close> (identity, captive portal, policy, cache, upstream, log). \<open>ServeDNS\<close> returns the
  messages it writes to the client and the new state of the server. The functions of the DNS library that
  build replies are the parameter \<open>dns_lib\<close>; what the upstream servers answer to this query is the parameter
  \<open>exchange\<close>, with \<^const>\<open>None\<close> for an error. The clock is read once, when the query arrives; \<open>stop\<close> is the
  time when it is done, which only the latency counter uses.
\<close>

subsection \<open>Upstream servers\<close>

definition resolver_Resolve :: "(msg \<Rightarrow> string \<Rightarrow> msg option) \<Rightarrow> string list \<Rightarrow> msg \<Rightarrow> msg option" where
  "resolver_Resolve exchange upstreams req = first_some (exchange req) upstreams"

subsection \<open>The handler\<close>

record dns_lib =
  dl_SetReply :: "msg \<Rightarrow> msg \<Rightarrow> msg"
  dl_SetRcode :: "msg \<Rightarrow> msg \<Rightarrow> nat \<Rightarrow> msg"
  dl_types :: "16 word \<rightharpoonup> string"

definition new_msg :: msg where
  "new_msg = \<lparr>m_question = [], m_answer = [], m_authoritative = False, m_rcode = 0\<rparr>"

definition TypeA :: "16 word" where "TypeA = 1"
definition TypeAAAA :: "16 word" where "TypeAAAA = 28"
definition RcodeServerFailure :: nat where "RcodeServerFailure = 2"

datatype log_action = ActionAllowed | ActionBlocked | ActionCached

datatype block_reason = BlockReasonNone | BlockReasonBlacklist | BlockReasonCategory | BlockReasonPolicy

record log_event =
  le_at :: int
  le_client :: ip
  le_user :: "int option"
  le_group :: int
  le_domain :: string
  le_type :: "16 word"
  le_action :: log_action
  le_reason :: block_reason
  le_category :: "int option"
  le_response :: ip
  le_upstream :: string

text \<open>The logger is \<open>nil\<close> without a database; otherwise these are the entries sent to it.\<close>

record 'r handler =
  h_upstreams :: "string list"
  h_cache :: "'r cache"
  h_filter :: engine
  h_identity :: resolver
  h_logger :: "log_event list option"
  h_blockIP :: ip
  h_portalIP :: ip
  h_queryCount :: "64 word"
  h_totalLatNs :: "64 word"

datatype net_addr = UDPAddr ip | TCPAddr ip | OtherAddr "ip option"

fun extractIP :: "net_addr \<Rightarrow> ip" where
  "extractIP (UDPAddr a) = a"
| "extractIP (TCPAddr a) = a"
| "extractIP (OtherAddr host) = (case host of None \<Rightarrow> NoIP | Some a \<Rightarrow> a)"

fun first_a :: "rr list \<Rightarrow> ip" where
  "first_a [] = NoIP"
| "first_a (rr # rrs) = (case rr_data rr of AData a \<Rightarrow> a | _ \<Rightarrow> first_a rrs)"

definition extractAnswerIP :: "msg \<Rightarrow> ip" where
  "extractAnswerIP m = first_a (m_answer m)"

text \<open>Both fixed answers: the address for type A, \<open>::\<close> for AAAA, nothing for other types.\<close>

definition fixed_answer :: "dns_lib \<Rightarrow> ip \<Rightarrow> 32 word \<Rightarrow> msg \<Rightarrow> string \<Rightarrow> 16 word \<Rightarrow> msg" where
  "fixed_answer lib a ttl r qName qType =
     (let m = (dl_SetReply lib new_msg r)\<lparr>m_authoritative := True\<rparr>
      in if qType = TypeA
         then m\<lparr>m_answer := m_answer m @ [\<lparr>rr_name = qName, rr_type = TypeA, rr_ttl = ttl, rr_data = AData a\<rparr>]\<rparr>
         else if qType = TypeAAAA
         then m\<lparr>m_answer := m_answer m @
                 [\<lparr>rr_name = qName, rr_type = TypeAAAA, rr_ttl = ttl, rr_data = AAAAData (V6 0)\<rparr>]\<rparr>
         else m)"

definition sendBlockResponse :: "dns_lib \<Rightarrow> msg \<Rightarrow> string \<Rightarrow> 16 word \<Rightarrow> 'r handler \<Rightarrow> msg" where
  "sendBlockResponse lib r qName qType h = fixed_answer lib (h_blockIP h) 60 r qName qType"

definition sendCaptiveResponse :: "dns_lib \<Rightarrow> msg \<Rightarrow> string \<Rightarrow> 16 word \<Rightarrow> 'r handler \<Rightarrow> msg" where
  "sendCaptiveResponse lib r qName qType h = fixed_answer lib (h_portalIP h) 10 r qName qType"

definition handler_log ::
  "int \<Rightarrow> ip \<Rightarrow> identity \<Rightarrow> string \<Rightarrow> 16 word \<Rightarrow> log_action \<Rightarrow> block_reason \<Rightarrow> ip \<Rightarrow> string \<Rightarrow>
   'r handler \<Rightarrow> 'r handler" where
  "handler_log start clientIP i qName qType action reason responseIP upstream h =
     (case h_logger h of
        None \<Rightarrow> h
      | Some sent \<Rightarrow>
          h\<lparr>h_logger := Some (sent @
             [\<lparr>le_at = start, le_client = clientIP,
               le_user = (if id_user i \<noteq> 0 then Some (id_user i) else None), le_group = id_group i,
               le_domain = qName, le_type = qType, le_action = action, le_reason = reason,
               le_category = None, le_response = responseIP, le_upstream = upstream\<rparr>])\<rparr>)"

text \<open>The steps of \<open>ServeDNS\<close> from the cache on, for a query that the policy allows.\<close>

definition serve_allowed ::
  "dns_lib \<Rightarrow> ('r, 'b) redis_lib \<Rightarrow> (msg \<Rightarrow> string \<Rightarrow> msg option) \<Rightarrow> int \<Rightarrow> ip \<Rightarrow> identity \<Rightarrow> msg \<Rightarrow>
   string \<Rightarrow> 16 word \<Rightarrow> 'r handler \<Rightarrow> msg list \<times> 'r handler" where
  "serve_allowed lib L exchange start clientIP i r qName qType h =
     (case cache_Get L (dl_types lib) start qName qType (h_cache h) of
        (Some cached, c) \<Rightarrow>
          (let cached = dl_SetReply lib cached r
           in ([cached], handler_log start clientIP i qName qType ActionCached BlockReasonNone
                 (extractAnswerIP cached) ''cache'' (h\<lparr>h_cache := c\<rparr>)))
      | (None, c) \<Rightarrow>
          (case resolver_Resolve exchange (h_upstreams h) r of
             None \<Rightarrow> ([dl_SetRcode lib new_msg r RcodeServerFailure], h\<lparr>h_cache := c\<rparr>)
           | Some resp \<Rightarrow>
               (let c' = cache_Set L (dl_types lib) start qName qType resp c;
                    resp = dl_SetReply lib resp r
                in ([resp], handler_log start clientIP i qName qType ActionAllowed BlockReasonNone
                      (extractAnswerIP resp) ''upstream'' (h\<lparr>h_cache := c'\<rparr>)))))"

definition serve_question ::
  "dns_lib \<Rightarrow> ('r, 'b) redis_lib \<Rightarrow> (msg \<Rightarrow> string \<Rightarrow> msg option) \<Rightarrow> int \<Rightarrow> ip \<Rightarrow> msg \<Rightarrow>
   string \<Rightarrow> 16 word \<Rightarrow> 'r handler \<Rightarrow> msg list \<times> 'r handler" where
  "serve_question lib L exchange start clientIP r qName qType h =
     (let i = Resolve start clientIP (h_identity h)
      in if id_auth i = AuthCaptivePortal
         then ([sendCaptiveResponse lib r qName qType h],
               handler_log start clientIP i qName qType ActionBlocked BlockReasonPolicy NoIP ''captive'' h)
         else if fr_action (EvaluateForGroup (h_filter h) qName (id_group i)) = ActionBlock
         then ([sendBlockResponse lib r qName qType h],
               handler_log start clientIP i qName qType ActionBlocked BlockReasonBlacklist NoIP ''blocked'' h)
         else serve_allowed lib L exchange start clientIP i r qName qType h)"

definition ServeDNS ::
  "dns_lib \<Rightarrow> ('r, 'b) redis_lib \<Rightarrow> (msg \<Rightarrow> string \<Rightarrow> msg option) \<Rightarrow> int \<Rightarrow> int \<Rightarrow> net_addr \<Rightarrow> msg \<Rightarrow>
   'r handler \<Rightarrow> msg list \<times> 'r handler" where
  "ServeDNS lib L exchange start stop addr r h =
     (case m_question r of
        [] \<Rightarrow> ([], h)
      | (qName, qType) # _ \<Rightarrow>
          (case serve_question lib L exchange start (extractIP addr) r qName qType h of
             (replies, h) \<Rightarrow>
               (replies, h\<lparr>h_queryCount := h_queryCount h + 1,
                           h_totalLatNs := h_totalLatNs h + of_int (stop - start)\<rparr>)))"

subsection \<open>Effects of a query\<close>

named_theorems handler_simps \<open>what a query does to the fields of the handler\<close>

definition logged :: "'r handler \<Rightarrow> log_event list" where
  "logged h = (case h_logger h of None \<Rightarrow> [] | Some sent \<Rightarrow> sent)"

lemma handler_log_fields [handler_simps]:
  "h_upstreams (handler_log s a i n q act re ra u h) = h_upstreams h"
  "h_cache (handler_log s a i n q act re ra u h) = h_cache h"
  "h_filter (handler_log s a i n q act re ra u h) = h_filter h"
  "h_identity (handler_log s a i n q act re ra u h) = h_identity h"
  "h_blockIP (handler_log s a i n q act re ra u h) = h_blockIP h"
  "h_portalIP (handler_log s a i n q act re ra u h) = h_portalIP h"
  "h_queryCount (handler_log s a i n q act re ra u h) = h_queryCount h"
  "h_totalLatNs (handler_log s a i n q act re ra u h) = h_totalLatNs h"
  "h_logger (handler_log s a i n q act re ra u h) = None \<longleftrightarrow> h_logger h = None"
  by (simp_all add: handler_log_def split: option.split)

lemma logged_log:
  assumes "h_logger h \<noteq> None"
  obtains e where "logged (handler_log s a i n q act re ra u h) = logged h @ [e]"
    and "le_action e = act" and "le_reason e = re" and "le_domain e = n" and "le_upstream e = u"
  using assms by (auto simp: logged_def handler_log_def)

lemma logged_filter:
  "h_logger h \<noteq> None \<Longrightarrow> length (filter (\<lambda>e. le_action e = x) (logged (handler_log s a i n q act re ra u h))) =
     length (filter (\<lambda>e. le_action e = x) (logged h)) + (if act = x then 1 else 0)"
  by (rule logged_log [of h s a i n q act re ra u]) auto

text \<open>The five ways a question can be served.\<close>

lemma serve_question_cases:
  obtains
    (captive) i where "i = Resolve start a (h_identity h)" "id_auth i = AuthCaptivePortal"
      "serve_question lib L exchange start a r n q h =
         ([sendCaptiveResponse lib r n q h],
          handler_log start a i n q ActionBlocked BlockReasonPolicy NoIP ''captive'' h)"
  | (blocked) i where "i = Resolve start a (h_identity h)" "id_auth i \<noteq> AuthCaptivePortal"
      "fr_action (EvaluateForGroup (h_filter h) n (id_group i)) = ActionBlock"
      "serve_question lib L exchange start a r n q h =
         ([sendBlockResponse lib r n q h],
          handler_log start a i n q ActionBlocked BlockReasonBlacklist NoIP ''blocked'' h)"
  | (cached) i m c where "cache_Get L (dl_types lib) start n q (h_cache h) = (Some m, c)"
      "serve_question lib L exchange start a r n q h =
         ([dl_SetReply lib m r],
          handler_log start a i n q ActionCached BlockReasonNone (extractAnswerIP (dl_SetReply lib m r)) ''cache''
            (h\<lparr>h_cache := c\<rparr>))"
  | (failed) c where "cache_Get L (dl_types lib) start n q (h_cache h) = (None, c)"
      "resolver_Resolve exchange (h_upstreams h) r = None"
      "serve_question lib L exchange start a r n q h =
         ([dl_SetRcode lib new_msg r RcodeServerFailure], h\<lparr>h_cache := c\<rparr>)"
  | (forwarded) i c m where "cache_Get L (dl_types lib) start n q (h_cache h) = (None, c)"
      "resolver_Resolve exchange (h_upstreams h) r = Some m"
      "serve_question lib L exchange start a r n q h =
         ([dl_SetReply lib m r],
          handler_log start a i n q ActionAllowed BlockReasonNone (extractAnswerIP (dl_SetReply lib m r)) ''upstream''
            (h\<lparr>h_cache := cache_Set L (dl_types lib) start n q m c\<rparr>))"
proof -
  let ?i = "Resolve start a (h_identity h)"
  obtain answer c where get: "cache_Get L (dl_types lib) start n q (h_cache h) = (answer, c)" by fastforce
  consider "id_auth ?i = AuthCaptivePortal"
    | "id_auth ?i \<noteq> AuthCaptivePortal" "fr_action (EvaluateForGroup (h_filter h) n (id_group ?i)) = ActionBlock"
    | "id_auth ?i \<noteq> AuthCaptivePortal" "fr_action (EvaluateForGroup (h_filter h) n (id_group ?i)) \<noteq> ActionBlock"
    by blast
  then show thesis
  proof cases
    case 1
    then show thesis by (intro captive [of ?i]) (simp_all add: serve_question_def Let_def)
  next
    case 2
    then show thesis by (intro blocked [of ?i]) (simp_all add: serve_question_def Let_def)
  next
    case 3
    then have q: "serve_question lib L exchange start a r n q h =
        serve_allowed lib L exchange start a ?i r n q h" by (simp add: serve_question_def Let_def)
    show thesis
    proof (cases answer)
      case (Some m)
      with get q show thesis by (intro cached [of m c ?i]) (simp_all add: serve_allowed_def Let_def)
    next
      case None
      with get q show thesis
        by (cases "resolver_Resolve exchange (h_upstreams h) r")
           (auto simp: serve_allowed_def Let_def intro: failed forwarded [of c _ ?i])
    qed
  qed
qed

lemma ServeDNS_question:
  "m_question r = (n, q) # qs \<Longrightarrow>
   ServeDNS lib L exchange start stop addr r h =
     (let (replies, h') = serve_question lib L exchange start (extractIP addr) r n q h
      in (replies, h'\<lparr>h_queryCount := h_queryCount h' + 1,
                      h_totalLatNs := h_totalLatNs h' + of_int (stop - start)\<rparr>))"
  by (simp add: ServeDNS_def)

subsection \<open>Histories of the server\<close>

text \<open>Everything that happens to the server between two queries: updates of the engine and of the
  resolver, invalidations and evictions of the cache.\<close>

datatype server_event =
    Query "msg \<Rightarrow> string \<Rightarrow> msg option" int int net_addr msg
  | OnEngine engine_op
  | OnResolver resolver_op
  | OnInvalidate string
  | OnEvict int

fun server_apply ::
  "dns_lib \<Rightarrow> ('r, 'b) redis_lib \<Rightarrow> (string \<Rightarrow> string) \<Rightarrow> server_event \<Rightarrow> 'r handler \<Rightarrow> 'r handler" where
  "server_apply lib L fqdn_of (Query exchange start stop addr r) h =
     snd (ServeDNS lib L exchange start stop addr r h)"
| "server_apply lib L fqdn_of (OnEngine op) h = h\<lparr>h_filter := engine_apply op (h_filter h)\<rparr>"
| "server_apply lib L fqdn_of (OnResolver op) h = h\<lparr>h_identity := resolver_apply op (h_identity h)\<rparr>"
| "server_apply lib L fqdn_of (OnInvalidate name) h =
     h\<lparr>h_cache := snd (Invalidate fqdn_of name (h_cache h))\<rparr>"
| "server_apply lib L fqdn_of (OnEvict now) h = h\<lparr>h_cache := evict now (h_cache h)\<rparr>"

text \<open>The server as \<open>main.go\<close> builds it, with a database (and so a logger).\<close>

definition new_handler :: "string list \<Rightarrow> 'r cache \<Rightarrow> engine \<Rightarrow> resolver \<Rightarrow> ip \<Rightarrow> ip \<Rightarrow> 'r handler" where
  "new_handler upstreams cache filt ident blockIP portalIP =
     \<lparr>h_upstreams = upstreams, h_cache = cache, h_filter = filt, h_identity = ident, h_logger = Some [],
      h_blockIP = blockIP, h_portalIP = portalIP, h_queryCount = 0, h_totalLatNs = 0\<rparr>"

lemma ServeDNS_other_fields [handler_simps]:
  "h_filter (snd (ServeDNS lib L exchange start stop addr r h)) = h_filter h"
  "h_identity (snd (ServeDNS lib L exchange start stop addr r h)) = h_identity h"
  "h_upstreams (snd (ServeDNS lib L exchange start stop addr r h)) = h_upstreams h"
  "h_logger (snd (ServeDNS lib L exchange start stop addr r h)) = None \<longleftrightarrow> h_logger h = None"
proof -
  have "h_filter (snd (ServeDNS lib L exchange start stop addr r h)) = h_filter h \<and>
    h_identity (snd (ServeDNS lib L exchange start stop addr r h)) = h_identity h \<and>
    h_upstreams (snd (ServeDNS lib L exchange start stop addr r h)) = h_upstreams h \<and>
    (h_logger (snd (ServeDNS lib L exchange start stop addr r h)) = None \<longleftrightarrow> h_logger h = None)"
  proof (cases "m_question r")
    case (Cons nq qs)
    obtain n q where nq: "nq = (n, q)" by fastforce
    show ?thesis
      by (rule serve_question_cases [of start "extractIP addr" h lib L exchange r n q])
         (simp_all add: ServeDNS_question [OF Cons [unfolded nq]] handler_simps)
  qed (simp add: ServeDNS_def)
  then show "h_filter (snd (ServeDNS lib L exchange start stop addr r h)) = h_filter h"
    "h_identity (snd (ServeDNS lib L exchange start stop addr r h)) = h_identity h"
    "h_upstreams (snd (ServeDNS lib L exchange start stop addr r h)) = h_upstreams h"
    "h_logger (snd (ServeDNS lib L exchange start stop addr r h)) = None \<longleftrightarrow> h_logger h = None"
    by blast+
qed

lemma logged_fields [handler_simps]:
  "logged (h\<lparr>h_queryCount := n\<rparr>) = logged h" "logged (h\<lparr>h_totalLatNs := l\<rparr>) = logged h"
  "logged (h\<lparr>h_cache := c\<rparr>) = logged h" "logged (h\<lparr>h_filter := f\<rparr>) = logged h"
  "logged (h\<lparr>h_identity := d\<rparr>) = logged h"
  by (simp_all add: logged_def)

lemma cache_Get_counts:
  "cache_Get L types now n q c = (answer, c') \<Longrightarrow>
   ca_hits c' = ca_hits c + (if answer = None then 0 else 1) \<and>
   ca_misses c' = ca_misses c + (if answer = None then 1 else 0)"
  by (auto simp: cache_Get_live cache_simps split: option.splits)

text \<open>The counters of the cache, the counter of queries and the log tell the same story.\<close>

definition counted :: "log_action \<Rightarrow> 'r handler \<Rightarrow> 64 word" where
  "counted x h = of_nat (length (filter (\<lambda>e. le_action e = x) (logged h)))"

definition books_balance :: "'r handler \<Rightarrow> bool" where
  "books_balance h \<longleftrightarrow> h_logger h \<noteq> None \<and> ca_hits (h_cache h) = counted ActionCached h \<and>
     h_queryCount h = ca_hits (h_cache h) + ca_misses (h_cache h) + counted ActionBlocked h"

lemma counted_log:
  "h_logger h \<noteq> None \<Longrightarrow> counted x (handler_log s a i n q act re ra u h) =
     counted x h + (if act = x then 1 else 0)"
  by (simp add: counted_def logged_filter)

lemma counted_fields [handler_simps]:
  "counted x (h\<lparr>h_queryCount := n\<rparr>) = counted x h" "counted x (h\<lparr>h_totalLatNs := l\<rparr>) = counted x h"
  "counted x (h\<lparr>h_cache := c\<rparr>) = counted x h" "counted x (h\<lparr>h_filter := f\<rparr>) = counted x h"
  "counted x (h\<lparr>h_identity := d\<rparr>) = counted x h"
  by (simp_all add: counted_def handler_simps)

lemma books_balance_query:
  assumes "books_balance h"
  shows "books_balance (snd (ServeDNS lib L exchange start stop addr r h))"
proof (cases "m_question r")
  case (Cons nq qs)
  obtain n q where nq: "nq = (n, q)" by fastforce
  note serve = ServeDNS_question [OF Cons [unfolded nq]]
  from assms have h: "h_logger h \<noteq> None" "ca_hits (h_cache h) = counted ActionCached h"
    "h_queryCount h = ca_hits (h_cache h) + ca_misses (h_cache h) + counted ActionBlocked h"
    by (simp_all add: books_balance_def)
  show ?thesis
    by (rule serve_question_cases [of start "extractIP addr" h lib L exchange r n q])
       (use h in \<open>auto simp: serve books_balance_def handler_simps counted_log cache_simps dest!: cache_Get_counts\<close>)
qed (use assms in \<open>simp add: ServeDNS_def\<close>)

lemma books_balance_apply: "books_balance h \<Longrightarrow> books_balance (server_apply lib L fqdn_of ev h)"
proof (cases ev)
  case (Query exchange start stop addr r)
  assume "books_balance h"
  then show ?thesis by (simp add: Query books_balance_query)
qed (simp_all add: books_balance_def handler_simps cache_simps)

text \<open>Where the messages in the cache come from: a property \<open>P\<close> that all replies of upstream servers to a query
  have holds of everything stored under the key of that query.\<close>

definition genuine :: "dns_lib \<Rightarrow> (string \<Rightarrow> msg \<Rightarrow> bool) \<Rightarrow> server_event \<Rightarrow> bool" where
  "genuine lib P ev \<longleftrightarrow>
     (case ev of
        Query exchange start stop addr r \<Rightarrow>
          (\<forall>n q qs u m. m_question r = (n, q) # qs \<longrightarrow> exchange r u = Some m \<longrightarrow> P (key (dl_types lib) n q) m)
      | _ \<Rightarrow> True)"

definition cache_genuine :: "(string \<Rightarrow> msg \<Rightarrow> bool) \<Rightarrow> 'r cache \<Rightarrow> bool" where
  "cache_genuine P c \<longleftrightarrow> ca_l2 c = None \<and> (\<forall>k e. ca_entries c k = Some e \<longrightarrow> P k (ce_msg e))"

lemma resolver_Resolve_Some: "resolver_Resolve exchange us r = Some m \<Longrightarrow> \<exists>u \<in> set us. exchange r u = Some m"
  by (auto simp: resolver_Resolve_def first_some_Some)

lemma cache_genuine_Get:
  assumes "cache_genuine P c" and "cache_Get L types now n q c = (answer, c')"
  shows "cache_genuine P c' \<and> (\<forall>m. answer = Some m \<longrightarrow> P (key types n q) m)"
  using assms by (auto simp: cache_Get_live live_def cache_genuine_def split: option.splits if_splits)

lemma cache_genuine_Set:
  "cache_genuine P c \<Longrightarrow> P (key types n q) m \<Longrightarrow> cache_genuine P (cache_Set L types now n q m c)"
  by (auto simp: cache_genuine_def cache_Set_def Let_def)

lemma cache_genuine_serve:
  assumes "cache_genuine P (h_cache h)"
    and up: "\<And>u m. exchange r u = Some m \<Longrightarrow> P (key (dl_types lib) n q) m"
    and serve: "serve_question lib L exchange start a r n q h = (replies, h')"
  shows "cache_genuine P (h_cache h')" and
    "replies = [sendCaptiveResponse lib r n q h] \<or> replies = [sendBlockResponse lib r n q h] \<or>
     replies = [dl_SetRcode lib new_msg r RcodeServerFailure] \<or>
     (\<exists>m. P (key (dl_types lib) n q) m \<and> replies = [dl_SetReply lib m r])"
proof -
  note get = cache_genuine_Get [OF assms(1), of L "dl_types lib" start n q]
  show "cache_genuine P (h_cache h')"
    by (rule serve_question_cases [of start a h lib L exchange r n q])
       (use assms(1) serve get up in \<open>auto simp: handler_simps cache_genuine_Set dest!: resolver_Resolve_Some\<close>)
  show "replies = [sendCaptiveResponse lib r n q h] \<or> replies = [sendBlockResponse lib r n q h] \<or>
     replies = [dl_SetRcode lib new_msg r RcodeServerFailure] \<or>
     (\<exists>m. P (key (dl_types lib) n q) m \<and> replies = [dl_SetReply lib m r])"
    by (rule serve_question_cases [of start a h lib L exchange r n q])
       (use serve get up in \<open>auto dest!: resolver_Resolve_Some\<close>)
qed

lemma cache_genuine_apply:
  assumes "cache_genuine P (h_cache h)" and "genuine lib P ev"
  shows "cache_genuine P (h_cache (server_apply lib L fqdn_of ev h))"
proof (cases ev)
  case (Query exchange start stop addr r)
  show ?thesis
  proof (cases "m_question r")
    case (Cons nq qs)
    obtain n q where nq: "nq = (n, q)" by fastforce
    obtain replies h' where serve: "serve_question lib L exchange start (extractIP addr) r n q h = (replies, h')"
      by fastforce
    have "cache_genuine P (h_cache h')"
      by (rule cache_genuine_serve(1) [OF assms(1) _ serve])
         (use assms(2) Query Cons nq in \<open>auto simp: genuine_def\<close>)
    with serve show ?thesis by (simp add: Query ServeDNS_question [OF Cons [unfolded nq]])
  qed (use assms(1) Query in \<open>simp add: ServeDNS_def\<close>)
next
  case (OnInvalidate name)
  with assms(1) show ?thesis by (auto simp: cache_genuine_def Invalidate_def Let_def split: if_splits)
next
  case (OnEvict now)
  with assms(1) show ?thesis by (auto simp: cache_genuine_def evict_def split: option.splits if_splits)
qed (use assms(1) in simp_all)

subsection \<open>An instance of the parameters\<close>

definition demo_lib :: dns_lib where
  "demo_lib =
     \<lparr>dl_SetReply = (\<lambda>m r. m\<lparr>m_question := m_question r\<rparr>), dl_SetRcode = (\<lambda>m r code. m\<lparr>m_rcode := code\<rparr>),
      dl_types = demo_types\<rparr>"

definition demo_query :: "string \<Rightarrow> msg" where
  "demo_query n = new_msg\<lparr>m_question := [(n, 1)]\<rparr>"

definition demo_exchange :: "msg \<Rightarrow> string \<Rightarrow> msg option" where
  "demo_exchange r u = (if u = ''8.8.4.4:53'' then Some (demo_msg 300) else None)"

definition demo_handler :: "engine_op list \<Rightarrow> (string \<rightharpoonup> msg \<times> int) handler" where
  "demo_handler ops = new_handler [''8.8.8.8:53'', ''8.8.4.4:53''] (NewCache (30 * second) (3600 * second))
     (server_engine ops) (NewResolver 1) (V4 0) (V4 0)"

lemma demo_query_question [simp]: "m_question (demo_query n) = [(n, 1)]"
  by (simp add: demo_query_def)

lemma demo_Resolve: "Resolve t a (NewResolver g) =
    \<lparr>id_user = 0, id_username = [], id_group = g, id_auth = AuthNone\<rparr>"
  by (simp add: Resolve_def NewResolver_def live_session_def)

lemma demo_allowed: "fr_action (EvaluateForGroup (server_engine []) d g) \<noteq> ActionBlock"
  using Contains_listed [of NewBlacklist d]
  by (simp add: EvaluateForGroup_def server_engine_def NewEngine_def list_contains_def category_blocked_def
      Let_def split: option.split)

lemma demo_fields [simp]:
  "h_filter (demo_handler ops) = server_engine ops" "h_identity (demo_handler ops) = NewResolver 1"
  "h_blockIP (demo_handler ops) = V4 0" "h_logger (demo_handler ops) = Some []"
  "h_cache (demo_handler ops) = NewCache (30 * second) (3600 * second)"
  "h_upstreams (demo_handler ops) = [''8.8.8.8:53'', ''8.8.4.4:53'']"
  by (simp_all add: demo_handler_def new_handler_def)

lemma demo_name: "normalize_domain ''a.com.'' = ''a.com.''" "normalize_domain ''com'' = ''com.''"
  "proper_name ''a.com.''"
proof -
  show "normalize_domain ''a.com.'' = ''a.com.''" and "normalize_domain ''com'' = ''com.''" by code_simp+
  moreover have "''a.com.'' = joinDomain [''a'', ''com'']" by code_simp
  ultimately show "proper_name ''a.com.''"
    unfolding proper_name_def by (intro exI [of _ "[''a'', ''com'']"]) simp
qed

subsection \<open>Properties\<close>



text \<open>Every query with a question gets exactly one reply and is counted; with a logger it also leaves exactly one
  log entry with its name, unless it is answered with a server failure, which leaves none.\<close>

theorem one_reply_one_entry:
  assumes "m_question r = (n, q) # qs" and "h_logger h \<noteq> None"
  shows "\<exists>reply h'. ServeDNS lib L exchange start stop addr r h = ([reply], h') \<and>
    h_queryCount h' = h_queryCount h + 1 \<and>
    (if logged h' = logged h then reply = dl_SetRcode lib new_msg r RcodeServerFailure
     else \<exists>e. logged h' = logged h @ [e] \<and> le_domain e = n)"
  by (rule serve_question_cases [of start "extractIP addr" h lib L exchange r n q])
     (use assms(2) in \<open>auto simp: ServeDNS_question [OF assms(1)] handler_simps logged_def handler_log_def\<close>)

theorem one_reply_one_entry_witness:
  "\<exists>reply h'. ServeDNS demo_lib demo_redis (\<lambda>r u. None) 0 1 (TCPAddr (V4 7)) (demo_query ''a.com.'')
     (demo_handler []) = ([reply], h') \<and> h_queryCount h' = 1"
  using one_reply_one_entry [of "demo_query ''a.com.''" "''a.com.''" 1 "[]" "demo_handler []" demo_lib demo_redis
      "\<lambda>r u. None" 0 1 "TCPAddr (V4 7)"]
  by (auto simp: demo_handler_def new_handler_def)

text \<open>The books balance in every history.\<close>

lemma books_balance_history:
  "books_balance (fold (server_apply lib L fqdn_of) events
     (new_handler upstreams (NewCache lower upper) filt ident blockIP portalIP))"
proof -
  let ?new = "new_handler upstreams (NewCache lower upper) filt ident blockIP portalIP"
  have "books_balance ?new"
    by (simp add: books_balance_def new_handler_def counted_def logged_def NewCache_def)
  then show ?thesis
    by (rule fold_invariant [where Q = "\<lambda>_. True", rotated]) (simp_all add: books_balance_apply)
qed

text \<open>The numbers of the dashboard agree with the log in every history of the server: the hits of the cache are
  the entries logged as cached, and every query counted is a hit, a miss or a logged block.\<close>

theorem counters_match_log:
  "let h = fold (server_apply lib L fqdn_of) events
             (new_handler upstreams (NewCache lower upper) filt ident blockIP portalIP)
   in ca_hits (h_cache h) = counted ActionCached h \<and>
      h_queryCount h = ca_hits (h_cache h) + ca_misses (h_cache h) + counted ActionBlocked h"
  using books_balance_history [of lib L fqdn_of events upstreams lower upper filt ident blockIP portalIP]
  by (simp add: books_balance_def Let_def)



text \<open>The upstream servers are asked in order and the first answer counts; it is kept, so the next client
  that may ask for the name gets it from the cache, without any upstream server, until its time to live is over.
  If none answers the reply is a server failure.\<close>

theorem forwarded_then_cached:
  assumes "m_question r = (n, q) # qs" and "m_question r' = (n', q) # qs'" and "ToLower n' = ToLower n"
    and "list_all (\<lambda>(t, a, x). let i = Resolve t (extractIP a) (h_identity h) in
           id_auth i \<noteq> AuthCaptivePortal \<and>
           fr_action (EvaluateForGroup (h_filter h) x (id_group i)) \<noteq> ActionBlock)
           [(start, addr, n), (start', addr', n')]"
    and "cache_Get L (dl_types lib) start n q (h_cache h) = (None, c)"
  shows "case resolver_Resolve exchange (h_upstreams h) r of
      None \<Rightarrow> fst (ServeDNS lib L exchange start stop addr r h) = [dl_SetRcode lib new_msg r RcodeServerFailure]
    | Some m \<Rightarrow>
        fst (ServeDNS lib L exchange start stop addr r h) = [dl_SetReply lib m r] \<and>
        (m_answer m \<noteq> [] \<and> start' < start + extractTTL m (h_cache h) \<longrightarrow>
         fst (ServeDNS lib L exchange' start' stop' addr' r' (snd (ServeDNS lib L exchange start stop addr r h)))
           = [dl_SetReply lib m r'])"
proof (cases "resolver_Resolve exchange (h_upstreams h) r")
  case None
  with assms show ?thesis
    by (simp add: ServeDNS_question serve_question_def serve_allowed_def Let_def)
next
  case (Some m)
  let ?h' = "snd (ServeDNS lib L exchange start stop addr r h)"
  have c: "c = (h_cache h)\<lparr>ca_misses := ca_misses (h_cache h) + 1\<rparr>"
    using assms(5) by (auto simp: cache_Get_live split: option.splits)
  have first: "fst (ServeDNS lib L exchange start stop addr r h) = [dl_SetReply lib m r]"
    and cache: "h_cache ?h' = cache_Set L (dl_types lib) start n q m c"
    using assms Some
    by (simp_all add: ServeDNS_question serve_question_def serve_allowed_def Let_def handler_simps)
  have "fst (ServeDNS lib L exchange' start' stop' addr' r' ?h') = [dl_SetReply lib m r']"
    if m: "m_answer m \<noteq> []" "start' < start + extractTTL m (h_cache h)"
  proof -
    have "extractTTL m c = extractTTL m (h_cache h)" by (rule extractTTL_cong) (simp_all add: c)
    then have "live start' (key (dl_types lib) n' q) (h_cache ?h') = Some m"
      unfolding cache using m assms(3) by (simp add: live_Set key_def)
    then have "\<exists>c'. cache_Get L (dl_types lib) start' n' q (h_cache ?h') = (Some m, c')"
      by (simp add: cache_Get_live)
    with assms(2,4) show ?thesis
      by (auto simp: ServeDNS_question serve_question_def serve_allowed_def Let_def handler_simps)
  qed
  with first Some show ?thesis by simp
qed

theorem forwarded_then_cached_witness:
  "fst (ServeDNS demo_lib demo_redis (\<lambda>r u. None) 5 6 (UDPAddr (V4 8)) (demo_query ''A.com.'')
     (snd (ServeDNS demo_lib demo_redis demo_exchange 0 1 (UDPAddr (V4 7)) (demo_query ''a.com.'') (demo_handler []))))
   = [dl_SetReply demo_lib (demo_msg 300) (demo_query ''A.com.'')]"
proof -
  let ?h = "demo_handler []"
  have "cache_Get demo_redis (dl_types demo_lib) 0 ''a.com.'' 1 (h_cache ?h) =
      (None, (h_cache ?h)\<lparr>ca_misses := ca_misses (h_cache ?h) + 1\<rparr>)"
    by (simp add: cache_Get_live live_def NewCache_def)
  moreover have "resolver_Resolve demo_exchange (h_upstreams ?h) (demo_query ''a.com.'') = Some (demo_msg 300)"
    by (simp add: resolver_Resolve_def demo_exchange_def)
  moreover have "extractTTL (demo_msg 300) (h_cache ?h) = 300 * second"
    using demo_ttl(1) by (simp add: demo_cache_def)
  ultimately show ?thesis
    using forwarded_then_cached [of "demo_query ''a.com.''" "''a.com.''" 1 "[]" "demo_query ''A.com.''" "''A.com.''" "[]"
        ?h 0 "UDPAddr (V4 7)" 5 "UDPAddr (V4 8)" demo_redis demo_lib _ demo_exchange 1 "\<lambda>r u. None" 6]
      demo_allowed demo_lower
    by (simp add: demo_Resolve AuthNone_def AuthCaptivePortal_def second_def)
qed

end
