(* ===== verification/Captive.thy ===== *)
theory Captive
  imports DnsHandler
begin

text \<open>
  The captive portal, \<open>internal/captive\<close>: the two authenticators (\<open>db_auth.go\<close> and the static one of
  \<open>server.go\<close>), the login form and the handler that turns a login into a session of the identity resolver. What
  a request carries is a record of the parts that the handler reads; \<open>pr_remote\<close> is the host of
  \<open>RemoteAddr\<close> and the address it parses to, \<^const>\<open>None\<close> if it has no port. The database row and the
  comparison of a password with its hash are parameters.
\<close>

subsection \<open>Authenticators\<close>

record user_info =
  ui_user :: int
  ui_group :: int

record static_user =
  su_password :: string
  su_user :: int
  su_group :: int

definition static_Authenticate :: "(string \<rightharpoonup> static_user) \<Rightarrow> string \<Rightarrow> string \<Rightarrow> user_info option" where
  "static_Authenticate users username password =
     (case users username of
        None \<Rightarrow> None
      | Some user \<Rightarrow>
          if su_password user \<noteq> password then None
          else Some \<lparr>ui_user = su_user user, ui_group = su_group user\<rparr>)"

text \<open>\<open>row\<close> is the active user of a name with the hash of the password.\<close>

definition db_Authenticate ::
  "(string \<Rightarrow> (int \<times> string) option) \<Rightarrow> (string \<Rightarrow> string \<Rightarrow> bool) \<Rightarrow> string \<Rightarrow> string \<Rightarrow> user_info option" where
  "db_Authenticate row matches username password =
     (case row username of
        None \<Rightarrow> None
      | Some (userID, hash) \<Rightarrow>
          if \<not> matches hash password then None else Some \<lparr>ui_user = userID, ui_group = 0\<rparr>)"

subsection \<open>The login form\<close>

fun escape_char :: "char \<Rightarrow> string" where
  "escape_char c =
     (if c = CHR ''<'' then ''&lt;'' else if c = CHR ''>'' then ''&gt;'' else if c = CHR ''&'' then ''&amp;''
      else if c = CHR 0x27 then ''&#39;'' else if c = CHR 0x22 then ''&#34;'' else [c])"

definition EscapeString :: "string \<Rightarrow> string" where
  "EscapeString s = concat (map escape_char s)"

text \<open>The two places of the page that depend on the request: the error message and the hidden field.\<close>

definition error_html :: "string \<Rightarrow> string" where
  "error_html message =
     (let errMsg = EscapeString message
      in if errMsg \<noteq> [] then ''<div class=\"error\">'' @ errMsg @ ''</div>'' else [])"

definition redirect_field :: "string \<Rightarrow> string" where
  "redirect_field redirect =
     ''<input type=\"hidden\" name=\"redirect\" value=\"'' @ EscapeString redirect @ ''\">''"

subsection \<open>Login\<close>

record portal_request =
  pr_post :: bool
  pr_username :: string
  pr_password :: string
  pr_redirect :: string
  pr_remote :: "(string \<times> ip) option"

datatype portal_reply = Redirect303 string | InternalError | SuccessPage

definition isValidRedirect :: "string \<Rightarrow> bool" where
  "isValidRedirect url =
     (if 0 < length url \<and> url ! 0 = CHR ''/''
      then \<not> (1 < length url \<and> url ! 1 = CHR ''/'')
      else 7 < length url \<and> (take 7 url = ''http://'' \<or> take 8 url = ''https://''))"

text \<open>\<open>Usu'ario ou senha inv'alidos\<close> in UTF-8.\<close>

definition login_failed :: string where
  "login_failed =
     ''Usu'' @ [CHR 0xC3, CHR 0xA1] @ ''rio ou senha inv'' @ [CHR 0xC3, CHR 0xA1] @ ''lidos''"

definition handleAuth ::
  "(string \<Rightarrow> string \<Rightarrow> user_info option) \<Rightarrow> int \<Rightarrow> int \<Rightarrow> portal_request \<Rightarrow> resolver \<Rightarrow>
   portal_reply \<times> resolver" where
  "handleAuth authenticate sessionTTL now r res =
     (if \<not> pr_post r then (Redirect303 ''/'', res)
      else case authenticate (pr_username r) (pr_password r) of
        None \<Rightarrow> (Redirect303 (''/?error='' @ login_failed @ ''&redirect='' @ pr_redirect r), res)
      | Some user \<Rightarrow>
          (case pr_remote r of
             None \<Rightarrow> (InternalError, res)
           | Some (host, clientIP) \<Rightarrow>
               (let groupID = GetRangeGroupID clientIP res;
                    groupID = (if groupID = 0 then ui_group user else groupID);
                    res = AddSession \<lparr>ss_ip = clientIP, ss_user = ui_user user, ss_username = pr_username r,
                                      ss_group = groupID, ss_expires = now + sessionTTL\<rparr> res
                in (if pr_redirect r \<noteq> [] \<and> isValidRedirect (pr_redirect r)
                    then Redirect303 (pr_redirect r) else SuccessPage, res))))"

subsection \<open>The contract of an authenticator\<close>

text \<open>What the portal needs of either authenticator: it accepts no pair of a name and a password but those it
  knows. \<open>known\<close> is the user that a pair belongs to.\<close>

locale authenticator =
  fixes authenticate :: "string \<Rightarrow> string \<Rightarrow> user_info option" and known :: "string \<Rightarrow> string \<Rightarrow> int \<Rightarrow> bool"
  assumes sound: "authenticate u p = Some info \<Longrightarrow> known u p (ui_user info)"
    and complete: "known u p i \<Longrightarrow> \<exists>info. authenticate u p = Some info"
begin

lemma session_only_for_known:
  assumes "handleAuth authenticate ttl now r res = (reply, res')"
    and "\<forall>i. \<not> (pr_post r \<and> known (pr_username r) (pr_password r) i)"
  shows "res' = res"
  using assms sound by (auto simp: handleAuth_def split: if_splits option.splits)

lemma known_gets_session:
  assumes "pr_post r" and "known (pr_username r) (pr_password r) i" and "pr_remote r = Some (host, a)"
  shows "\<exists>reply s. handleAuth authenticate ttl now r res = (reply, AddSession s res) \<and> ss_ip s = a \<and>
    ss_username s = pr_username r \<and> ss_expires s = now + ttl \<and> known (pr_username r) (pr_password r) (ss_user s)"
  using complete [OF assms(2)] sound assms(1,3) by (fastforce simp: handleAuth_def Let_def)

end

interpretation static_auth: authenticator "static_Authenticate users"
    "\<lambda>u p i. \<exists>user. users u = Some user \<and> su_password user = p \<and> su_user user = i" for users
  by unfold_locales (auto simp: static_Authenticate_def split: option.splits if_splits)

interpretation db_auth: authenticator "db_Authenticate row matches"
    "\<lambda>u p i. \<exists>hash. row u = Some (i, hash) \<and> matches hash p" for row matches
  by unfold_locales (auto simp: db_Authenticate_def split: option.splits if_splits)

lemma EscapeString_safe:
  "c \<in> set (EscapeString s) \<Longrightarrow> c \<noteq> CHR ''<'' \<and> c \<noteq> CHR ''>'' \<and> c \<noteq> CHR 0x22 \<and> c \<noteq> CHR 0x27"
  by (auto simp: EscapeString_def split: if_splits)

text \<open>The session that a login creates.\<close>

definition portal_session :: "portal_request \<Rightarrow> user_info \<Rightarrow> ip \<Rightarrow> int \<Rightarrow> resolver \<Rightarrow> session" where
  "portal_session r user a ends res =
     \<lparr>ss_ip = a, ss_user = ui_user user, ss_username = pr_username r,
      ss_group = (if GetRangeGroupID a res = 0 then ui_group user else GetRangeGroupID a res), ss_expires = ends\<rparr>"

lemma handleAuth_session:
  assumes "pr_post r" and "authenticate (pr_username r) (pr_password r) = Some user"
    and "pr_remote r = Some (host, a)"
  shows "snd (handleAuth authenticate ttl now r res) = AddSession (portal_session r user a (now + ttl) res) res"
  using assms by (simp add: handleAuth_def portal_session_def Let_def)

lemma take_eq_iff: "length p = n \<Longrightarrow> take n s = p \<longleftrightarrow> (\<exists>t. s = p @ t)"
  by (metis append_eq_conv_conj append_take_drop_id)

subsection \<open>Properties\<close>

text \<open>With the database, a login changes the resolver only if it is posted with the name of an active user and a
  password that matches its hash; every other request leaves all clients as they are. A successful one gives
  its client the identity of that user for the time of the session, and changes no other client.\<close>

theorem login_needs_password:
  "let res' = snd (handleAuth (db_Authenticate row matches) ttl now r res) in
     res' = res \<or>
     (\<exists>i hash host a. pr_post r \<and> row (pr_username r) = Some (i, hash) \<and> matches hash (pr_password r) \<and>
        pr_remote r = Some (host, a) \<and>
        (if t < now + ttl then id_user (Resolve t a res') = i \<and> id_auth (Resolve t a res') = AuthNone
         else Resolve t a res' = Resolve t a (RemoveSession a res)) \<and>
        list_all (\<lambda>b. b = a \<or> Resolve t b res' = Resolve t b res) others)"
proof (cases "pr_post r \<and> (\<exists>i hash. row (pr_username r) = Some (i, hash) \<and> matches hash (pr_password r)) \<and>
    pr_remote r \<noteq> None")
  case True
  then obtain i hash host a where r: "pr_post r" "row (pr_username r) = Some (i, hash)"
    "matches hash (pr_password r)" "pr_remote r = Some (host, a)" by auto
  let ?s = "portal_session r \<lparr>ui_user = i, ui_group = 0\<rparr> a (now + ttl) res"
  have res': "snd (handleAuth (db_Authenticate row matches) ttl now r res) = AddSession ?s res"
    using r by (intro handleAuth_session) (simp_all add: db_Authenticate_def)
  have "Resolve t a (AddSession ?s res) = Resolve t a (RemoveSession a res)" if "\<not> t < now + ttl"
    by (rule Resolve_cong) (use that in \<open>simp_all add: live_session_def AddSession_def RemoveSession_def portal_session_def\<close>)
  moreover have "Resolve t a (AddSession ?s res) =
      \<lparr>id_user = i, id_username = pr_username r, id_group = ss_group ?s, id_auth = AuthNone\<rparr>" if "t < now + ttl"
    using that by (simp add: Resolve_def live_session_def AddSession_def portal_session_def)
  moreover have "Resolve t b (AddSession ?s res) = Resolve t b res" if "b \<noteq> a" for b
    by (rule Resolve_cong) (use that in \<open>simp_all add: live_session_def AddSession_def portal_session_def\<close>)
  ultimately show ?thesis using r by (auto simp: res' Let_def list_all_iff)
next
  case False
  then have "snd (handleAuth (db_Authenticate row matches) ttl now r res) = res"
    by (auto simp: handleAuth_def db_Authenticate_def split: option.splits prod.splits if_splits)
  then show ?thesis by (simp add: Let_def)
qed

text \<open>C28: After a login the queries of the client are no longer answered with the portal but by the policy of the
  group of its range, until the session ends, whatever happens to the rest of the resolver in between.\<close>

theorem login_unlocks_queries:
  assumes "pr_post r" and "authenticate (pr_username r) (pr_password r) = Some user"
    and "pr_remote r = Some (host, extractIP addr)"
    and "s = portal_session r user (extractIP addr) (now + ttl) (h_identity h)"
    and "list_all (keeps_session s) ops" and "t < now + ttl" and "m_question q = (n, ty) # qs"
  shows "let h' = h\<lparr>h_identity := fold resolver_apply ops (snd (handleAuth authenticate ttl now r (h_identity h)))\<rparr>;
             i = \<lparr>id_user = ui_user user, id_username = pr_username r, id_group = ss_group s, id_auth = AuthNone\<rparr>
    in fst (ServeDNS lib L exchange t stop addr q h') =
      (if fr_action (EvaluateForGroup (h_filter h) n (ss_group s)) = ActionBlock
       then [fixed_answer lib (h_blockIP h) 60 q n ty]
       else fst (serve_allowed lib L exchange t (extractIP addr) i q n ty h'))"
proof -
  let ?res = "fold resolver_apply ops (AddSession s (h_identity h))"
  have ip: "ss_ip s = extractIP addr" and ends: "ss_expires s = now + ttl" using assms(4) by (simp_all add: portal_session_def)
  have "rs_sessions ?res (ss_ip s) = Some s"
    by (rule keeps_session_fold [OF assms(5)]) (simp add: AddSession_def)
  then have "Resolve t (extractIP addr) ?res =
      \<lparr>id_user = ui_user user, id_username = pr_username r, id_group = ss_group s, id_auth = AuthNone\<rparr>"
    using assms(6) ends by (simp add: Resolve_def live_session_def ip) (simp add: assms(4) portal_session_def)
  then show ?thesis
    using handleAuth_session [of r authenticate user host "extractIP addr" ttl now "h_identity h"] assms(1-3,7)
    by (simp add: assms(4) [symmetric] ServeDNS_question serve_question_def sendBlockResponse_def Let_def
        AuthNone_def AuthCaptivePortal_def split: prod.split)
qed

theorem login_unlocks_queries_witness:
  "let h = demo_handler [];
       r = \<lparr>pr_post = True, pr_username = ''ana'', pr_password = ''x'', pr_redirect = [],
            pr_remote = Some (''10.0.5.50'', V4 7)\<rparr>;
       res = LoadRanges [\<lparr>ir_network = Net4 0 8, ir_group = 4, ir_auth = 1\<rparr>] (NewResolver 1);
       auth = db_Authenticate [''ana'' \<mapsto> (20, ''hash'')] (\<lambda>hash p. p = ''x'')
   in id_auth (Resolve 0 (V4 7) res) = AuthCaptivePortal \<and>
      fst (ServeDNS demo_lib demo_redis (\<lambda>r u. None) 99 100 (UDPAddr (V4 7)) (demo_query ''a.com.'')
        (h\<lparr>h_identity := fold resolver_apply [OpEvict 50] (snd (handleAuth auth 100 0 r res))\<rparr>)) =
        [dl_SetRcode demo_lib new_msg (demo_query ''a.com.'') RcodeServerFailure]"
proof -
  let ?r = "\<lparr>pr_post = True, pr_username = ''ana'', pr_password = ''x'', pr_redirect = [],
            pr_remote = Some (''10.0.5.50'', V4 7)\<rparr>"
  let ?res = "LoadRanges [\<lparr>ir_network = Net4 0 8, ir_group = 4, ir_auth = 1\<rparr>] (NewResolver 1)"
  let ?h = "(demo_handler [])\<lparr>h_identity := ?res\<rparr>"
  let ?s = "portal_session ?r \<lparr>ui_user = 20, ui_group = 0\<rparr> (V4 7) 100 ?res"
  have "id_auth (Resolve 0 (V4 7) ?res) = AuthCaptivePortal"
    using demo_nets(3) by (simp add: Resolve_def live_session_def LoadRanges_def NewResolver_def AuthCaptivePortal_def)
  moreover have "list_all (keeps_session ?s) [OpEvict 50]" by (simp add: portal_session_def)
  ultimately show ?thesis
    using login_unlocks_queries [of ?r "db_Authenticate [''ana'' \<mapsto> (20, ''hash'')] (\<lambda>hash p. p = ''x'')"
        "\<lparr>ui_user = 20, ui_group = 0\<rparr>" "''10.0.5.50''" "UDPAddr (V4 7)" ?s 0 100 ?h "[OpEvict 50]" 99
        "demo_query ''a.com.''" "''a.com.''" 1 "[]" demo_lib demo_redis "\<lambda>r u. None" 100]
      demo_allowed
    by (simp add: db_Authenticate_def serve_allowed_def cache_Get_live live_def NewCache_def resolver_Resolve_def Let_def)
qed

text \<open>A client outside every range logs in to the default group, not to the group of its user: the fallback in the
  handler needs a group of 0, which \<open>GetRangeGroupID\<close> only returns if the default is 0.\<close>

theorem login_outside_ranges:
  assumes "pr_post r" and "authenticate (pr_username r) (pr_password r) = Some user"
    and "pr_remote r = Some (host, a)" and "find (\<lambda>rng. NetContains (ir_network rng) a) (rs_ranges res) = None"
    and "0 < ttl"
  shows "id_group (Resolve now a (snd (handleAuth authenticate ttl now r res))) =
    (if rs_defaultGroup res = 0 then ui_group user else rs_defaultGroup res)"
  using assms handleAuth_session [of r authenticate user host a ttl now res]
  by (simp add: Resolve_def live_session_def AddSession_def portal_session_def GetRangeGroupID_def)

theorem login_outside_ranges_witness:
  "let users = [''admin'' \<mapsto> \<lparr>su_password = ''admin123'', su_user = 1, su_group = 2\<rparr>];
       r = \<lparr>pr_post = True, pr_username = ''admin'', pr_password = ''admin123'', pr_redirect = [],
            pr_remote = Some (''192.168.1.50'', V4 0xC0A80132)\<rparr>
   in id_group (Resolve 0 (V4 0xC0A80132) (snd (handleAuth (static_Authenticate users) 8 0 r (NewResolver 1)))) = 1"
  using login_outside_ranges [of "\<lparr>pr_post = True, pr_username = ''admin'', pr_password = ''admin123'', pr_redirect = [],
            pr_remote = Some (''192.168.1.50'', V4 0xC0A80132)\<rparr>"
      "static_Authenticate [''admin'' \<mapsto> \<lparr>su_password = ''admin123'', su_user = 1, su_group = 2\<rparr>]"
      "\<lparr>ui_user = 1, ui_group = 2\<rparr>" "''192.168.1.50''" "V4 0xC0A80132" "NewResolver 1" 8 0]
  by (simp add: static_Authenticate_def NewResolver_def)

text \<open>The redirect after a login goes to a path of the portal that does not start with two slashes, or to any
  host whatever over http or https.\<close>

theorem redirect_targets:
  "isValidRedirect url \<longleftrightarrow>
     (\<exists>p. url = CHR ''/'' # p \<and> \<not> prefix ''/'' p) \<or>
     (\<exists>host. host \<noteq> [] \<and> url = ''http://'' @ host) \<or> (\<exists>host. url = ''https://'' @ host)"
proof (cases url)
  case (Cons c p)
  show ?thesis
  proof (cases "c = CHR ''/''")
    case True
    then show ?thesis by (cases p) (auto simp: isValidRedirect_def Cons)
  next
    case False
    have "take 7 url = ''http://'' \<and> 7 < length url \<longleftrightarrow> (\<exists>host. host \<noteq> [] \<and> url = ''http://'' @ host)"
      using take_eq_iff [of "''http://''" 7 url] by auto
    moreover have "take 8 url = ''https://'' \<and> 7 < length url \<longleftrightarrow> (\<exists>host. url = ''https://'' @ host)"
      using take_eq_iff [of "''https://''" 8 url] by auto
    ultimately show ?thesis using False Cons by (auto simp: isValidRedirect_def)
  qed
qed (simp add: isValidRedirect_def)

end
