(* ===== verification/ServerConfig.thy ===== *)
theory ServerConfig
  imports DnsHandler
begin

text \<open>
  How the configuration reaches the DNS server: the results of the queries in \<open>internal/store\<close>
  (\<open>blocklist.go\<close>, \<open>policies.go\<close>) turned into lists and maps, the reload on a notification of the database
  (\<open>cmd/dnsfilter/main.go\<close>) and the one of the API (\<open>ReloadLists\<close> in \<open>internal/api/handlers.go\<close>). PostgreSQL
  executes the statements, so the rows are inputs, \<^const>\<open>None\<close> for a query that failed. A reload is a
  sequence of operations on the engine, each under its own lock: queries can come between any two of them.
  The order in which Go iterates over the category map is an input too, any list that \<open>map_order\<close> accepts.
\<close>

subsection \<open>Rows\<close>

text \<open>Rows of a domain and the type of its list, 0 for black and 1 for white.\<close>

definition LoadActiveBlocklistEntries :: "(string \<times> int) list \<Rightarrow> string list \<times> string list" where
  "LoadActiveBlocklistEntries rows =
     (map fst (filter (\<lambda>(domain, listType). listType = 0) rows),
      map fst (filter (\<lambda>(domain, listType). listType = 1) rows))"

definition add_category_domain ::
  "int \<times> string \<Rightarrow> (int \<rightharpoonup> string list) \<Rightarrow> (int \<rightharpoonup> string list)" where
  "add_category_domain = (\<lambda>(catID, domain) result.
     result(catID \<mapsto> (case result catID of None \<Rightarrow> [] | Some domains \<Rightarrow> domains) @ [domain]))"

definition LoadCategoryDomains :: "(int \<times> string) list \<Rightarrow> (int \<rightharpoonup> string list)" where
  "LoadCategoryDomains rows = fold add_category_domain rows Map.empty"

definition add_policy :: "int \<times> int \<Rightarrow> (int \<rightharpoonup> (int \<rightharpoonup> bool)) \<Rightarrow> (int \<rightharpoonup> (int \<rightharpoonup> bool))" where
  "add_policy = (\<lambda>(groupID, catID) result.
     result(groupID \<mapsto> (case result groupID of None \<Rightarrow> Map.empty | Some cats \<Rightarrow> cats)(catID \<mapsto> True)))"

definition LoadGroupPolicies :: "(int \<times> int) list \<Rightarrow> (int \<rightharpoonup> (int \<rightharpoonup> bool))" where
  "LoadGroupPolicies rows = fold add_policy rows Map.empty"

definition map_order :: "(int \<rightharpoonup> 'v) \<Rightarrow> (int \<times> 'v) list \<Rightarrow> bool" where
  "map_order m entries \<longleftrightarrow> distinct (map fst entries) \<and> map_of entries = m"

subsection \<open>Reloads\<close>

record config =
  cf_entries :: "(string \<times> int) list option"
  cf_categories :: "(int \<times> string) list option"
  cf_policies :: "(int \<times> int) list option"
  cf_blockFile :: "string option"
  cf_allowFile :: "string option"

definition add_all :: "(list_op \<Rightarrow> engine_op) \<Rightarrow> string list \<Rightarrow> engine_op list" where
  "add_all on ds = map (\<lambda>d. on (OpAdd d)) ds"

text \<open>The domains that \<open>LoadFromFile\<close> adds; a missing file adds none.\<close>

definition file_domains :: "string option \<Rightarrow> string list" where
  "file_domains file = (case file of None \<Rightarrow> [] | Some body \<Rightarrow> fst (scan_entries body))"

text \<open>The callback of the listener in \<open>main.go\<close>, for any payload.\<close>

definition on_notify :: "config \<Rightarrow> (int \<times> string list) list \<Rightarrow> engine_op list" where
  "on_notify cfg order =
     (case cf_entries cfg of
        None \<Rightarrow> []
      | Some rows \<Rightarrow>
          (case LoadActiveBlocklistEntries rows of
             (blackDomains, whiteDomains) \<Rightarrow>
               [OnBlacklist OpClear, OnWhitelist OpClear] @
               add_all OnBlacklist blackDomains @ add_all OnWhitelist whiteDomains @
               add_all OnBlacklist (file_domains (cf_blockFile cfg)) @
               add_all OnWhitelist (file_domains (cf_allowFile cfg)) @
               (case cf_categories cfg of None \<Rightarrow> [] | Some _ \<Rightarrow> [Categories order]) @
               (case cf_policies cfg of None \<Rightarrow> [] | Some rows \<Rightarrow> [Policies (LoadGroupPolicies rows)])))"

text \<open>The handler \<open>ReloadLists\<close>: the reply is an error if the query fails.\<close>

definition ReloadLists :: "config \<Rightarrow> (nat \<times> nat) option \<times> engine_op list" where
  "ReloadLists cfg =
     (case cf_entries cfg of
        None \<Rightarrow> (None, [])
      | Some rows \<Rightarrow>
          (case LoadActiveBlocklistEntries rows of
             (blackDomains, whiteDomains) \<Rightarrow>
               (Some (length blackDomains, length whiteDomains),
                [OnBlacklist OpClear, OnWhitelist OpClear] @
                add_all OnBlacklist blackDomains @ add_all OnWhitelist whiteDomains)))"

lemma LoadFromFile_file_domains: "snd (LoadFromFile file b) = fold Add (file_domains file) b"
  by (auto simp: LoadFromFile_def file_domains_def split: option.splits prod.splits)

subsection \<open>What rows give\<close>

lemma LoadCategoryDomains_rows:
  "set (case LoadCategoryDomains rows c of None \<Rightarrow> [] | Some ds \<Rightarrow> ds) = {d. (c, d) \<in> set rows}"
proof -
  have "set (case fold add_category_domain rows m c of None \<Rightarrow> [] | Some ds \<Rightarrow> ds) =
      set (case m c of None \<Rightarrow> [] | Some ds \<Rightarrow> ds) \<union> {d. (c, d) \<in> set rows}" for m
  proof (induction rows arbitrary: m)
    case (Cons row rows)
    obtain c' d where "row = (c', d)" by fastforce
    with Cons show ?case by (auto simp: add_category_domain_def split: option.splits)
  qed simp
  then show ?thesis by (simp add: LoadCategoryDomains_def)
qed

lemma LoadGroupPolicies_rows:
  "(case LoadGroupPolicies rows g of None \<Rightarrow> False | Some cats \<Rightarrow> map_bool cats c) \<longleftrightarrow> (g, c) \<in> set rows"
proof -
  have "(case fold add_policy rows m g of None \<Rightarrow> False | Some cats \<Rightarrow> map_bool cats c) \<longleftrightarrow>
      (case m g of None \<Rightarrow> False | Some cats \<Rightarrow> map_bool cats c) \<or> (g, c) \<in> set rows" for m
  proof (induction rows arbitrary: m)
    case (Cons row rows)
    obtain g' c' where "row = (g', c')" by fastforce
    with Cons show ?case by (auto simp: add_policy_def map_bool_def split: option.splits)
  qed simp
  then show ?thesis by (simp add: LoadGroupPolicies_def)
qed

lemma order_entries:
  assumes "map_order (LoadCategoryDomains rows) order"
  shows "(\<exists>ds. (c, ds) \<in> set order \<and> d \<in> set ds) \<longleftrightarrow> (c, d) \<in> set rows"
proof -
  from assms have "(c, ds) \<in> set order \<longleftrightarrow> LoadCategoryDomains rows c = Some ds" for ds
    unfolding map_order_def by (metis map_of_eq_Some_iff)
  then have "(\<exists>ds. (c, ds) \<in> set order \<and> d \<in> set ds) \<longleftrightarrow>
      d \<in> set (case LoadCategoryDomains rows c of None \<Rightarrow> [] | Some ds \<Rightarrow> ds)"
    by (cases "LoadCategoryDomains rows c") simp_all
  then show ?thesis unfolding LoadCategoryDomains_rows by simp
qed

text \<open>No domain, in normal form, is listed under two categories.\<close>

definition one_category :: "(int \<times> string) list \<Rightarrow> bool" where
  "one_category rows \<longleftrightarrow>
     (\<forall>(c, d) \<in> set rows. \<forall>(c', d') \<in> set rows. normalize_domain d = normalize_domain d' \<longrightarrow> c = c')"

lemma categories_rows:
  assumes "map_order (LoadCategoryDomains rows) order" and "one_category rows"
  shows "e_categories (LoadCategories order e) k = Some c \<longleftrightarrow>
    (\<exists>d. (c, d) \<in> set rows \<and> normalize_domain d = k)"
proof -
  have row: "(\<exists>d. (b, d) \<in> set rows \<and> normalize_domain d = k) \<longleftrightarrow>
      (\<exists>x \<in> set (rev order). names_of k x = Some b)" for b
  proof -
    have "(\<exists>x \<in> set (rev order). names_of k x = Some b) \<longleftrightarrow>
        (\<exists>ds. (b, ds) \<in> set order \<and> (\<exists>d \<in> set ds. normalize_domain d = k))"
      by (auto simp: names_of_Some)
    then show ?thesis using order_entries [OF assms(1), of b] by blast
  qed
  have uniq: "a = b"
    if a: "\<exists>x \<in> set (rev order). names_of k x = Some a" and b: "\<exists>x \<in> set (rev order). names_of k x = Some b"
    for a b
  proof -
    from a obtain d where "(a, d) \<in> set rows" "normalize_domain d = k" unfolding row [symmetric] by blast
    moreover from b obtain d' where "(b, d') \<in> set rows" "normalize_domain d' = k"
      unfolding row [symmetric] by blast
    ultimately show ?thesis using assms(2) by (fastforce simp: one_category_def)
  qed
  show ?thesis unfolding LoadCategories_last row
  proof
    assume "first_some (names_of k) (rev order) = Some c"
    then show "\<exists>x \<in> set (rev order). names_of k x = Some c"
      unfolding first_some_Some using nth_mem by blast
  next
    assume c: "\<exists>x \<in> set (rev order). names_of k x = Some c"
    then have "first_some (names_of k) (rev order) \<noteq> None" unfolding first_some_None by force
    then obtain b where b: "first_some (names_of k) (rev order) = Some b" by blast
    then have "\<exists>x \<in> set (rev order). names_of k x = Some b" unfolding first_some_Some using nth_mem by blast
    with uniq [OF c] b show "first_some (names_of k) (rev order) = Some c" by simp
  qed
qed

subsection \<open>What a reload does to the engine\<close>

lemma add_all_apply:
  "fold engine_apply (add_all OnBlacklist ds) e = e\<lparr>e_blacklist := map_option (fold Add ds) (e_blacklist e)\<rparr>"
  "fold engine_apply (add_all OnWhitelist ds) e = e\<lparr>e_whitelist := map_option (fold Add ds) (e_whitelist e)\<rparr>"
  by (induction ds arbitrary: e)
     (simp_all add: add_all_def option.map_comp o_def option.map_ident id_def)

lemma listed_adds: "listed (fold Add ds b) = normalize_domain ` set ds \<union> listed b"
  by (rule blacklist.keys_adds)

lemma server_engine_append: "server_engine (ops @ xs) = fold engine_apply xs (server_engine ops)"
  by (simp add: server_engine_def)

lemma server_engine_lists:
  obtains b w where "e_blacklist (server_engine ops) = Some b" and "e_whitelist (server_engine ops) = Some w"
  using server_engine_normal [of ops] by (auto simp: engine_normal_def list_normal_def)

text \<open>The names of a list, if there is one.\<close>

definition names_in :: "blacklist option \<Rightarrow> string set" where
  "names_in l = (case l of None \<Rightarrow> {} | Some b \<Rightarrow> listed b)"

lemma covered_names: "covered l d \<longleftrightarrow> (\<exists>k \<in> names_in l. is_below (normalize_domain d) k)"
  by (cases l) (auto simp: covered_def names_in_def)

lemma notify_lists:
  assumes "cf_entries cfg = Some rows"
  shows "names_in (e_blacklist (server_engine (ops @ on_notify cfg order))) =
      normalize_domain ` (set (fst (LoadActiveBlocklistEntries rows)) \<union> set (file_domains (cf_blockFile cfg)))"
    and "names_in (e_whitelist (server_engine (ops @ on_notify cfg order))) =
      normalize_domain ` (set (snd (LoadActiveBlocklistEntries rows)) \<union> set (file_domains (cf_allowFile cfg)))"
  by (rule server_engine_lists [of ops]; auto simp: assms on_notify_def server_engine_append add_all_apply
      names_in_def listed_adds split: prod.split option.split)+

lemma notify_categories:
  assumes "cf_entries cfg = Some rows" and "cf_categories cfg = Some crows" and "cf_policies cfg = Some prows"
  shows "e_categories (server_engine (ops @ on_notify cfg order)) = e_categories (LoadCategories order e)"
    and "e_policies (server_engine (ops @ on_notify cfg order)) = LoadGroupPolicies prows"
  by (simp_all add: assms on_notify_def server_engine_append add_all_apply LoadCategories_last fun_eq_iff
      split: prod.split)

lemma reload_lists:
  assumes "cf_entries cfg = Some rows"
  shows "names_in (e_blacklist (server_engine (ops @ snd (ReloadLists cfg)))) =
      normalize_domain ` set (fst (LoadActiveBlocklistEntries rows))"
    and "names_in (e_whitelist (server_engine (ops @ snd (ReloadLists cfg)))) =
      normalize_domain ` set (snd (LoadActiveBlocklistEntries rows))"
  by (rule server_engine_lists [of ops]; auto simp: assms ReloadLists_def server_engine_append add_all_apply
      names_in_def listed_adds split: prod.split)+

text \<open>The rows of the category lists that apply to a name, and the most specific of them.\<close>

definition row_applies :: "string \<Rightarrow> string \<Rightarrow> bool" where
  "row_applies d x \<longleftrightarrow> normalize_domain x = normalize_domain d \<or>
     is_below (normalize_domain d) (normalize_domain x) \<and> CHR ''.'' \<in> set (butlast (normalize_domain x))"

definition nearest_row :: "(int \<times> string) list \<Rightarrow> string \<Rightarrow> int \<times> string \<Rightarrow> bool" where
  "nearest_row crows d row \<longleftrightarrow> row \<in> set crows \<and> row_applies d (snd row) \<and>
     (\<forall>row' \<in> set crows. row_applies d (snd row') \<longrightarrow>
        length (normalize_domain (snd row')) \<le> length (normalize_domain (snd row)))"

lemma nearest_category_rows:
  assumes "\<And>k c. e_categories e k = Some c \<longleftrightarrow> (\<exists>d. (c, d) \<in> set crows \<and> normalize_domain d = k)"
  shows "nearest_category e d c \<longleftrightarrow> (\<exists>x. nearest_row crows d (c, x))"
proof -
  have dom: "k \<in> dom (e_categories e) \<longleftrightarrow> (\<exists>row \<in> set crows. normalize_domain (snd row) = k)" for k
  proof -
    have "k \<in> dom (e_categories e) \<longleftrightarrow> (\<exists>c. e_categories e k = Some c)" by blast
    then show ?thesis unfolding assms by force
  qed
  have app: "applies e d k \<longleftrightarrow> (\<exists>row \<in> set crows. normalize_domain (snd row) = k \<and> row_applies d (snd row))" for k
    unfolding applies_def dom row_applies_def by blast
  show ?thesis
  proof
    assume "nearest_category e d c"
    then obtain k where k: "e_categories e k = Some c" "applies e d k"
      and long: "\<And>k'. applies e d k' \<Longrightarrow> length k' \<le> length k" by (auto simp: nearest_category_def)
    from k(1) obtain x where x: "(c, x) \<in> set crows" "normalize_domain x = k" unfolding assms by blast
    have "row_applies d x" using k(2) x(2) by (auto simp: applies_def row_applies_def)
    moreover have "length (normalize_domain (snd row)) \<le> length (normalize_domain x)"
      if "row \<in> set crows" "row_applies d (snd row)" for row
      using long [of "normalize_domain (snd row)"] that x(2) app by auto
    ultimately have "nearest_row crows d (c, x)" using x(1) by (auto simp: nearest_row_def)
    then show "\<exists>x. nearest_row crows d (c, x)" by blast
  next
    assume "\<exists>x. nearest_row crows d (c, x)"
    then obtain x where x: "nearest_row crows d (c, x)" by blast
    then have "e_categories e (normalize_domain x) = Some c" unfolding assms nearest_row_def by auto
    moreover from x have "applies e d (normalize_domain x)" by (force simp: app nearest_row_def)
    moreover have "length k' \<le> length (normalize_domain x)" if "applies e d k'" for k'
      using that x by (auto simp: app nearest_row_def)
    ultimately show "nearest_category e d c" by (auto simp: nearest_category_def)
  qed
qed

lemma config_decision:
  assumes "cf_entries cfg = Some rows" and "cf_categories cfg = Some crows" and "cf_policies cfg = Some prows"
    and "map_order (LoadCategoryDomains crows) order" and "one_category crows" and "proper_name d"
    and "black = set (fst (LoadActiveBlocklistEntries rows)) \<union> set (file_domains (cf_blockFile cfg))"
    and "white = set (snd (LoadActiveBlocklistEntries rows)) \<union> set (file_domains (cf_allowFile cfg))"
  shows "fr_action (EvaluateForGroup (server_engine (ops @ on_notify cfg order)) d g) = ActionBlock \<longleftrightarrow>
    \<not> (\<exists>x \<in> white. is_below (normalize_domain d) (normalize_domain x)) \<and>
    ((\<exists>x \<in> black. is_below (normalize_domain d) (normalize_domain x)) \<or>
     0 < g \<and> (\<exists>c x. nearest_row crows d (c, x) \<and> (g, c) \<in> set prows))"
proof -
  let ?e = "server_engine (ops @ on_notify cfg order)"
  have near: "nearest_category ?e d c \<longleftrightarrow> (\<exists>x. nearest_row crows d (c, x))" for c
    by (rule nearest_category_rows)
       (simp add: notify_categories(1) [OF assms(1-3), of ops order ?e] categories_rows [OF assms(4,5)])
  have pol: "category_blocked ?e g c \<longleftrightarrow> (g, c) \<in> set prows" for c
    unfolding category_blocked_def notify_categories(2) [OF assms(1-3)] by (rule LoadGroupPolicies_rows)
  show ?thesis
    unfolding engine_block [OF assms(6)] Let_def covered_names notify_lists [OF assms(1)] near pol
    by (simp add: assms(7,8) bex_Un image_Un flip: ex_simps)
qed

subsection \<open>Properties\<close>


lemma file_net:
  "file_domains (Some (file_text [DomainLine ''net''])) = [''net'']"
  "file_domains (Some (file_text [DomainLine ''com''])) = [''com'']" "file_domains None = []"
  using scan_entries_file [of "[DomainLine ''net'']"] scan_entries_file [of "[DomainLine ''com'']"]
  by (simp_all add: file_domains_def plain_name_def go_space_def max_token_def)

lemma nearest_only:
  assumes "set crows = {(c, x)}" and "row_applies d x"
  shows "nearest_row crows d (c, x)"
  using assms by (simp add: nearest_row_def)


text \<open>A reload is not atomic. Of the queries for a name below a black-listed row, one that is answered while the
  reload runs is allowed, because both lists are empty then, and a later one is blocked even if the name is
  white-listed, because the white list is filled last. The groups of the client do not matter for the second.\<close>

theorem reload_window:
  assumes "cf_entries cfg = Some rows" and "proper_name d"
    and "x \<in> set (fst (LoadActiveBlocklistEntries rows))" and "is_below (normalize_domain d) (normalize_domain x)"
  shows "\<exists>k k'. k < k' \<and>
    fr_action (EvaluateForGroup (server_engine (ops @ take k (on_notify cfg order))) d 0) \<noteq> ActionBlock \<and>
    fr_action (EvaluateForGroup (server_engine (ops @ take k' (on_notify cfg order))) d g) = ActionBlock"
proof (intro exI conjI)
  let ?black = "fst (LoadActiveBlocklistEntries rows)"
  let ?clears = "[OnBlacklist OpClear, OnWhitelist OpClear]"
  have "\<exists>rest. on_notify cfg order = ?clears @ add_all OnBlacklist ?black @ rest"
    by (cases "LoadActiveBlocklistEntries rows") (simp add: on_notify_def assms(1))
  then obtain rest where N: "on_notify cfg order = ?clears @ add_all OnBlacklist ?black @ rest" by blast
  have cleared: "names_in (e_blacklist (server_engine (ops @ ?clears))) = {}"
    "names_in (e_whitelist (server_engine (ops @ ?clears))) = {}"
    by (rule server_engine_lists [of ops]; auto simp: server_engine_append names_in_def)+
  have filled: "names_in (e_blacklist (server_engine (ops @ ?clears @ add_all OnBlacklist ?black))) =
      normalize_domain ` set ?black"
    "names_in (e_whitelist (server_engine (ops @ ?clears @ add_all OnBlacklist ?black))) = {}"
    by (rule server_engine_lists [of ops];
        auto simp: server_engine_append add_all_apply names_in_def listed_adds)+
  have k: "take 2 (on_notify cfg order) = ?clears" by (simp add: N)
  have k': "take (2 + length ?black) (on_notify cfg order) = ?clears @ add_all OnBlacklist ?black"
    by (simp add: N add_all_def)
  show "2 < 2 + length ?black" using assms(3) by auto
  show "fr_action (EvaluateForGroup (server_engine (ops @ take 2 (on_notify cfg order))) d 0) \<noteq> ActionBlock"
    unfolding k engine_block [OF assms(2)] Let_def covered_names cleared by simp
  show "fr_action (EvaluateForGroup (server_engine (ops @ take (2 + length ?black) (on_notify cfg order))) d g) =
      ActionBlock"
    unfolding k' engine_block [OF assms(2)] Let_def covered_names filled using assms(3,4) by auto
qed

theorem reload_window_witness:
  "\<exists>k k'. k < k' \<and>
    fr_action (EvaluateForGroup (server_engine ([] @ take k (on_notify
      \<lparr>cf_entries = Some [(''com'', 0), (''a.com'', 1)], cf_categories = None, cf_policies = None,
       cf_blockFile = None, cf_allowFile = None\<rparr> []))) ''a.com.'' 0) \<noteq> ActionBlock \<and>
    fr_action (EvaluateForGroup (server_engine ([] @ take k' (on_notify
      \<lparr>cf_entries = Some [(''com'', 0), (''a.com'', 1)], cf_categories = None, cf_policies = None,
       cf_blockFile = None, cf_allowFile = None\<rparr> []))) ''a.com.'' 0) = ActionBlock"
  by (rule reload_window [of _ "[(''com'', 0), (''a.com'', 1)]" _ "''com''"])
     (simp_all add: LoadActiveBlocklistEntries_def demo_name is_below_def suffix_def)

text \<open>The two ways to reload differ. A name that only the block file covers stays blocked after a notification of
  the database, unless it is white-listed, but is allowed after a call of the API, because \<open>ReloadLists\<close> clears the lists and does
  not read the files again.\<close>

theorem reload_paths_differ:
  assumes "cf_entries cfg = Some rows" and "proper_name d"
    and "x \<in> set (file_domains (cf_blockFile cfg))" and "is_below (normalize_domain d) (normalize_domain x)"
    and "list_all (\<lambda>(y, t). \<not> is_below (normalize_domain d) (normalize_domain y)) rows"
    and "list_all (\<lambda>y. \<not> is_below (normalize_domain d) (normalize_domain y)) (file_domains (cf_allowFile cfg))"
  shows "fr_action (EvaluateForGroup (server_engine (ops @ on_notify cfg order)) d 0) = ActionBlock"
    and "fr_action (EvaluateForGroup (server_engine (ops @ snd (ReloadLists cfg))) d 0) \<noteq> ActionBlock"
proof -
  have rows: "\<not> is_below (normalize_domain d) (normalize_domain y)"
    if "y \<in> set (fst (LoadActiveBlocklistEntries rows)) \<union> set (snd (LoadActiveBlocklistEntries rows))" for y
    using assms(5) that by (auto simp: list_all_iff LoadActiveBlocklistEntries_def)
  show "fr_action (EvaluateForGroup (server_engine (ops @ on_notify cfg order)) d 0) = ActionBlock"
    unfolding engine_block [OF assms(2)] Let_def covered_names notify_lists [OF assms(1)]
    using assms(3,4,6) rows by (auto simp: list_all_iff)
  show "fr_action (EvaluateForGroup (server_engine (ops @ snd (ReloadLists cfg))) d 0) \<noteq> ActionBlock"
    unfolding engine_block [OF assms(2)] Let_def covered_names reload_lists [OF assms(1)]
    using rows by auto
qed

theorem reload_paths_differ_witness:
  "fr_action (EvaluateForGroup (server_engine ([] @ snd (ReloadLists
      \<lparr>cf_entries = Some [], cf_categories = None, cf_policies = None,
       cf_blockFile = Some (file_text [DomainLine ''com'']), cf_allowFile = None\<rparr>))) ''a.com.'' 0) \<noteq> ActionBlock"
  by (rule reload_paths_differ(2) [of _ "[]" _ "''com''"])
     (simp_all add: demo_name is_below_def suffix_def file_net)

end
