(* ===== verification/LogPipeline.thy ===== *)
theory LogPipeline
  imports DnsHandler
begin

text \<open>
  The asynchronous writer of the query log (\<open>internal/logging/pipeline.go\<close>): a buffered channel that
  \<open>Send\<close> never waits for, and the goroutine \<open>consume\<close> that collects entries into batches and writes them. The
  goroutines run interleaved, so the pipeline is a machine in the sense of the prelude: any list of events that
  \<open>pipe_step\<close> accepts is a possible history, which covers Go's random choice between a full channel and the ticker.
  Which inserts of a batch succeed is PostgreSQL's answer, a part of the event. The capacity of the channel is positive
  (the configuration files and the default have 100000); \<open>make\<close> panics for a negative one.
\<close>

subsection \<open>The pipeline\<close>

text \<open>\<open>pi_running\<close> says that the consumer runs, \<open>pi_panicked\<close> that the process has ended by a panic. \<open>pi_flushed\<close>
  holds the batches given to \<open>flush\<close> so far and \<open>pi_rows\<close> the rows inserted.\<close>

record pipeline =
  pi_ch :: "log_event list"
  pi_capacity :: nat
  pi_closed :: bool
  pi_pool :: bool
  pi_running :: bool
  pi_batch :: "log_event list"
  pi_dropped :: "64 word"
  pi_flushed :: "log_event list list"
  pi_rows :: "log_event list"
  pi_panicked :: bool

definition batchSize :: nat where
  "batchSize = 5000"

definition NewPipeline :: "bool \<Rightarrow> nat \<Rightarrow> pipeline" where
  "NewPipeline pool bufferSize =
     \<lparr>pi_ch = [], pi_capacity = bufferSize, pi_closed = False, pi_pool = pool, pi_running = False, pi_batch = [],
      pi_dropped = 0, pi_flushed = [], pi_rows = [], pi_panicked = False\<rparr>"

definition pipeline_Start :: "pipeline \<Rightarrow> pipeline" where
  "pipeline_Start p = p\<lparr>pi_running := True\<rparr>"

text \<open>A send on a closed channel panics, also inside a \<open>select\<close> with a default.\<close>

definition Send :: "log_event \<Rightarrow> pipeline \<Rightarrow> pipeline" where
  "Send ev p =
     (if pi_closed p then p\<lparr>pi_panicked := True\<rparr>
      else if length (pi_ch p) < pi_capacity p then p\<lparr>pi_ch := pi_ch p @ [ev]\<rparr>
      else p\<lparr>pi_dropped := pi_dropped p + 1\<rparr>)"

definition close_channel :: "pipeline \<Rightarrow> pipeline" where
  "close_channel p = (if pi_closed p then p\<lparr>pi_panicked := True\<rparr> else p\<lparr>pi_closed := True\<rparr>)"

definition Pending :: "pipeline \<Rightarrow> nat" where
  "Pending p = length (pi_ch p)"

text \<open>\<open>ok i\<close> says that the insert of the \<open>i\<close>th entry of the batch gave no error.\<close>

definition flush :: "(nat \<Rightarrow> bool) \<Rightarrow> log_event list \<Rightarrow> pipeline \<Rightarrow> pipeline" where
  "flush ok batch p =
     p\<lparr>pi_flushed := pi_flushed p @ [batch],
       pi_rows := (if pi_pool p then pi_rows p @ nths batch {i. ok i} else pi_rows p)\<rparr>"

text \<open>The two cases of the loop in \<open>consume\<close>.\<close>

definition on_receive :: "(nat \<Rightarrow> bool) \<Rightarrow> pipeline \<Rightarrow> pipeline" where
  "on_receive ok p =
     (case pi_ch p of
        [] \<Rightarrow> (if pi_batch p \<noteq> [] then flush ok (pi_batch p) p else p)\<lparr>pi_batch := [], pi_running := False\<rparr>
      | ev # queue \<Rightarrow>
          (let batch = pi_batch p @ [ev]; p' = p\<lparr>pi_ch := queue, pi_batch := batch\<rparr>
           in if batchSize \<le> length batch then (flush ok batch p')\<lparr>pi_batch := []\<rparr> else p'))"

definition on_tick :: "(nat \<Rightarrow> bool) \<Rightarrow> pipeline \<Rightarrow> pipeline" where
  "on_tick ok p = (if pi_batch p \<noteq> [] then (flush ok (pi_batch p) p)\<lparr>pi_batch := []\<rparr> else p)"

datatype pipe_event = PSend log_event | PReceive "nat \<Rightarrow> bool" | PTick "nat \<Rightarrow> bool" | PClose

text \<open>The consumer can receive when the channel holds an entry or is closed.\<close>

fun pipe_step :: "pipe_event \<Rightarrow> pipeline \<Rightarrow> pipeline option" where
  "pipe_step (PSend ev) p = (if pi_panicked p then None else Some (Send ev p))"
| "pipe_step (PReceive ok) p =
     (if \<not> pi_panicked p \<and> pi_running p \<and> (pi_ch p \<noteq> [] \<or> pi_closed p) then Some (on_receive ok p) else None)"
| "pipe_step (PTick ok) p = (if \<not> pi_panicked p \<and> pi_running p then Some (on_tick ok p) else None)"
| "pipe_step PClose p = (if pi_panicked p then None else Some (close_channel p))"

definition started :: "bool \<Rightarrow> nat \<Rightarrow> pipeline" where
  "started pool n = pipeline_Start (NewPipeline pool n)"

subsection \<open>Invariants\<close>

text \<open>The entries that the pipeline has accepted, oldest first, and those that its clients have sent.\<close>

definition accepted :: "pipeline \<Rightarrow> log_event list" where
  "accepted p = concat (pi_flushed p) @ pi_batch p @ pi_ch p"

fun sent_by :: "pipe_event \<Rightarrow> log_event list" where
  "sent_by (PSend ev) = [ev]"
| "sent_by _ = []"

definition sends :: "pipe_event list \<Rightarrow> log_event list" where
  "sends events = concat (map sent_by events)"

definition pipe_inv :: "nat \<Rightarrow> pipeline \<Rightarrow> bool" where
  "pipe_inv n p \<longleftrightarrow> pi_capacity p = n \<and> length (pi_ch p) \<le> n \<and> length (pi_batch p) < batchSize \<and>
     list_all (\<lambda>b. b \<noteq> [] \<and> length b \<le> batchSize) (pi_flushed p) \<and> subseq (pi_rows p) (concat (pi_flushed p)) \<and>
     (pi_closed p \<or> pi_running p \<and> \<not> pi_panicked p) \<and> (\<not> pi_running p \<longrightarrow> pi_ch p = [] \<and> pi_batch p = [])"

lemmas pipe_ops = Send_def close_channel_def flush_def on_receive_def on_tick_def

lemma subseq_nths: "subseq (nths xs A) xs"
proof (induction xs arbitrary: A)
  case (Cons x xs)
  then show ?case by (simp add: nths_Cons list_emb_Cons)
qed simp

lemma pipe_step_inv: "pipe_inv n p \<Longrightarrow> pipe_step ev p = Some q \<Longrightarrow> pipe_inv n q"
  by (cases ev)
     (auto simp: pipe_inv_def pipe_ops Let_def list_emb_append_mono subseq_nths list_emb_append2 split: if_splits list.splits)

interpretation pipe: machine_invariant pipe_step "started pool n" "pipe_inv n" for pool n
proof unfold_locales
  show "pipe_inv n (started pool n)"
    by (simp add: pipe_inv_def started_def pipeline_Start_def NewPipeline_def batchSize_def)
qed (rule pipe_step_inv)

text \<open>A step accepts what is sent or counts it as dropped.\<close>

lemma pipe_step_accepts:
  assumes "pipe_step ev p = Some q" and "\<not> pi_panicked q"
  shows "accepted q = accepted p @ sent_by ev \<and> pi_dropped q = pi_dropped p \<or>
    accepted q = accepted p \<and> pi_dropped q = pi_dropped p + of_nat (length (sent_by ev))"
  using assms by (cases ev) (auto simp: accepted_def pipe_ops Let_def split: if_splits list.splits)

lemma panic_ends: "pi_panicked p \<Longrightarrow> pipe_step ev p = None"
  by (cases ev) simp_all

lemma run_accepts:
  "run pipe_step events p = Some q \<Longrightarrow> \<not> pi_panicked q \<Longrightarrow>
    \<exists>kept. accepted q = accepted p @ kept \<and> subseq kept (sends events) \<and>
      of_nat (length (sends events)) = of_nat (length kept) + (pi_dropped q - pi_dropped p)"
proof (induction events arbitrary: p)
  case (Cons ev events)
  from Cons.prems(1) obtain r where step: "pipe_step ev p = Some r" and rest: "run pipe_step events r = Some q"
    by (auto split: option.splits)
  from Cons.IH [OF rest Cons.prems(2)] obtain kept where kept: "accepted q = accepted r @ kept"
    "subseq kept (sends events)"
    "of_nat (length (sends events)) = of_nat (length kept) + (pi_dropped q - pi_dropped r)" by blast
  have "\<not> pi_panicked r"
    using rest Cons.prems(2) by (cases events) (auto simp: panic_ends)
  from pipe_step_accepts [OF step this] show ?case
  proof
    assume "accepted r = accepted p @ sent_by ev \<and> pi_dropped r = pi_dropped p"
    with kept show ?thesis
      by (intro exI [of _ "sent_by ev @ kept"]) (simp add: sends_def list_emb_append_mono algebra_simps)
  next
    assume "accepted r = accepted p \<and> pi_dropped r = pi_dropped p + of_nat (length (sent_by ev))"
    with kept show ?thesis
      by (intro exI [of _ kept]) (simp add: sends_def list_emb_append2 algebra_simps)
  qed
qed (simp add: sends_def)

text \<open>What the consumer does after the channel is closed.\<close>

fun receives :: "pipe_event list \<Rightarrow> nat" where
  "receives [] = 0"
| "receives (PReceive ok # events) = Suc (receives events)"
| "receives (ev # events) = receives events"

fun of_consumer :: "pipe_event \<Rightarrow> bool" where
  "of_consumer (PReceive ok) \<longleftrightarrow> True"
| "of_consumer (PTick ok) \<longleftrightarrow> True"
| "of_consumer _ \<longleftrightarrow> False"

lemma drain:
  assumes "pi_running p" "pi_closed p" "\<not> pi_panicked p" and "list_all of_consumer events"
    and "receives events = Suc (length (pi_ch p))"
  shows "\<exists>k q. k \<le> length events \<and> run pipe_step (take k events) p = Some q \<and> \<not> pi_running q \<and> \<not> pi_panicked q \<and>
    concat (pi_flushed q) = accepted p \<and> pi_dropped q = pi_dropped p"
  using assms
proof (induction events arbitrary: p)
  case (Cons ev events)
  have step: ?case if "pipe_step ev p = Some r" "pi_running r" "pi_closed r" "\<not> pi_panicked r"
      "receives events = Suc (length (pi_ch r))" "accepted r = accepted p" "pi_dropped r = pi_dropped p" for r
  proof -
    from Cons.IH [of r] that Cons.prems(4) obtain k q where "k \<le> length events"
      "run pipe_step (take k events) r = Some q" "\<not> pi_running q" "\<not> pi_panicked q"
      "concat (pi_flushed q) = accepted p" "pi_dropped q = pi_dropped p" by auto
    with that(1) show ?thesis by (intro exI [of _ "Suc k"] exI [of _ q]) simp
  qed
  from Cons.prems(4) consider (receive) ok where "ev = PReceive ok" | (tick) ok where "ev = PTick ok"
    by (cases ev) auto
  then show ?case
  proof cases
    case receive
    show ?thesis
    proof (cases "pi_ch p")
      case Nil
      with receive Cons.prems show ?thesis
        by (intro exI [of _ 1] exI [of _ "on_receive ok p"]) (auto simp: pipe_ops accepted_def)
    next
      case (Cons e queue)
      with receive Cons.prems show ?thesis
        by (intro step [of "on_receive ok p"]) (auto simp: pipe_ops accepted_def Let_def)
    qed
  next
    case tick
    with Cons.prems show ?thesis
      by (intro step [of "on_tick ok p"]) (auto simp: pipe_ops accepted_def)
  qed
qed simp

subsection \<open>Properties\<close>

definition demo_event :: "string \<Rightarrow> log_event" where
  "demo_event n =
     \<lparr>le_at = 0, le_client = V4 7, le_user = None, le_group = 1, le_domain = n, le_type = 1, le_action = ActionCached,
      le_reason = BlockReasonNone, le_category = None, le_response = NoIP, le_upstream = []\<rparr>"

lemma demo_start [simp]: "started True n =
    \<lparr>pi_ch = [], pi_capacity = n, pi_closed = False, pi_pool = True, pi_running = True, pi_batch = [],
     pi_dropped = 0, pi_flushed = [], pi_rows = [], pi_panicked = False\<rparr>"
  by (simp add: started_def pipeline_Start_def NewPipeline_def)





text \<open>A query that is logged after \<open>Stop\<close> ends the process: in every history in which an entry is sent after
  the close, the pipeline has panicked. The main program stops the pipeline before the DNS server.\<close>

theorem send_after_stop:
  assumes "run pipe_step (evs @ PClose # evs' @ [PSend e]) (started pool n) = Some p"
  shows "pi_panicked p"
proof -
  from assms obtain q r s where "pipe_step PClose q = Some r" and run: "run pipe_step evs' r = Some s"
    and p: "pipe_step (PSend e) s = Some p" by (auto simp: run_append split: option.splits)
  then have "pi_closed r" by (auto simp: close_channel_def split: if_splits)
  with run have "pi_closed s"
  proof (induction evs' arbitrary: r)
    case (Cons ev evs')
    then obtain r' where "pipe_step ev r = Some r'" "run pipe_step evs' r' = Some s" by (auto split: option.splits)
    moreover from this(1) Cons.prems(2) have "pi_closed r'"
      by (cases ev) (auto simp: pipe_ops Let_def split: if_splits list.splits)
    ultimately show ?case using Cons.IH by blast
  qed simp
  with p show ?thesis by (auto simp: Send_def split: if_splits)
qed

theorem send_after_stop_witness:
  "\<exists>p. run pipe_step ([] @ PClose # [PReceive (\<lambda>i. True)] @ [PSend (demo_event ''a'')]) (started True 1) = Some p \<and>
    pi_panicked p"
proof -
  obtain p where p: "run pipe_step ([] @ PClose # [PReceive (\<lambda>i. True)] @ [PSend (demo_event ''a'')]) (started True 1)
      = Some p"
    by (simp add: pipe_ops)
  from send_after_stop [OF p] p show ?thesis by blast
qed

end
