(* ===== verification/RateLimit.thy ===== *)
theory RateLimit
  imports Complex_Main GoText
begin

text \<open>
  The rate limiter of the API (\<open>internal/api/ratelimit.go\<close>): a token bucket per client, in a map that a
  goroutine cleans every minute. The bucket itself is \<open>golang.org/x/time/rate\<close>, a parameter: what
  \<open>NewLimiter\<close> returns for a rate and a burst, and \<open>Allow\<close> at a time, in nanoseconds. The server has two limiters, 5
  requests per second with bursts of 10 for the login and 30 with bursts of 60 for the rest (\<open>router.go\<close>).
\<close>

record 'l rate_lib =
  rate_NewLimiter :: "rat \<Rightarrow> int \<Rightarrow> 'l"
  rate_Allow :: "int \<Rightarrow> 'l \<Rightarrow> bool \<times> 'l"

record 'l visitor =
  vi_limiter :: 'l
  vi_lastSeen :: int

record 'l rate_limiter =
  rl_visitors :: "string \<rightharpoonup> 'l visitor"
  rl_rate :: rat
  rl_burst :: int

definition NewRateLimiter :: "rat \<Rightarrow> int \<Rightarrow> 'l rate_limiter" where
  "NewRateLimiter r burst = \<lparr>rl_visitors = Map.empty, rl_rate = r, rl_burst = burst\<rparr>"

definition getVisitor :: "'l rate_lib \<Rightarrow> int \<Rightarrow> string \<Rightarrow> 'l rate_limiter \<Rightarrow> 'l \<times> 'l rate_limiter" where
  "getVisitor L now ip rl =
     (case rl_visitors rl ip of
        None \<Rightarrow>
          (let limiter = rate_NewLimiter L (rl_rate rl) (rl_burst rl)
           in (limiter, rl\<lparr>rl_visitors := (rl_visitors rl)(ip \<mapsto> \<lparr>vi_limiter = limiter, vi_lastSeen = now\<rparr>)\<rparr>))
      | Some v \<Rightarrow> (vi_limiter v, rl\<lparr>rl_visitors := (rl_visitors rl)(ip \<mapsto> v\<lparr>vi_lastSeen := now\<rparr>)\<rparr>))"

definition three_minutes :: int where
  "three_minutes = 180 * 10 ^ 9"

definition cleanup :: "int \<Rightarrow> 'l rate_limiter \<Rightarrow> 'l rate_limiter" where
  "cleanup now rl =
     rl\<lparr>rl_visitors := (\<lambda>ip.
       case rl_visitors rl ip of
         None \<Rightarrow> None
       | Some v \<Rightarrow> if three_minutes < now - vi_lastSeen v then None else Some v)\<rparr>"

text \<open>A request carries the address of its connection and, if the client or a proxy sent it, a header
  \<open>X-Real-IP\<close>. The limiter is shared through a pointer, so \<open>Allow\<close> changes the one in the map.\<close>

definition client_key :: "string \<Rightarrow> string \<Rightarrow> string" where
  "client_key remoteAddr realIP = (if realIP \<noteq> [] then realIP else remoteAddr)"

definition set_limiter :: "string \<Rightarrow> 'l \<Rightarrow> 'l rate_limiter \<Rightarrow> 'l rate_limiter" where
  "set_limiter ip l rl = rl\<lparr>rl_visitors := (rl_visitors rl)(ip := map_option (\<lambda>v. v\<lparr>vi_limiter := l\<rparr>) (rl_visitors rl ip))\<rparr>"

text \<open>\<^const>\<open>True\<close>: the next handler serves the request, \<^const>\<open>False\<close>: status 429.\<close>

definition rate_Middleware ::
  "'l rate_lib \<Rightarrow> int \<Rightarrow> string \<Rightarrow> string \<Rightarrow> 'l rate_limiter \<Rightarrow> bool \<times> 'l rate_limiter" where
  "rate_Middleware L now remoteAddr realIP rl =
     (let ip = client_key remoteAddr realIP;
          (limiter, rl) = getVisitor L now ip rl;
          (ok, limiter) = rate_Allow L now limiter
      in (ok, set_limiter ip limiter rl))"

datatype rate_event = Arrives string string int | Cleanup int

text \<open>The answers in a history, each with the key that the request was counted under.\<close>

fun rate_answers :: "'l rate_lib \<Rightarrow> rate_event list \<Rightarrow> 'l rate_limiter \<Rightarrow> (string \<times> bool) list" where
  "rate_answers L [] rl = []"
| "rate_answers L (Arrives addr realIP now # events) rl =
     (case rate_Middleware L now addr realIP rl of
        (ok, rl) \<Rightarrow> (client_key addr realIP, ok) # rate_answers L events rl)"
| "rate_answers L (Cleanup now # events) rl = rate_answers L events (cleanup now rl)"

subsection \<open>A single bucket\<close>

text \<open>The reference: the answers of one limiter to requests at the given times.\<close>

fun bucket_answers :: "'l rate_lib \<Rightarrow> int list \<Rightarrow> 'l \<Rightarrow> bool list" where
  "bucket_answers L [] l = []"
| "bucket_answers L (t # ts) l = (case rate_Allow L t l of (ok, l) \<Rightarrow> ok # bucket_answers L ts l)"

definition answers_to :: "string \<Rightarrow> (string \<times> bool) list \<Rightarrow> bool list" where
  "answers_to k = (\<lambda>answers. map snd (filter (\<lambda>(k', ok). k' = k) answers))"

fun arrivals :: "string \<Rightarrow> rate_event list \<Rightarrow> int list" where
  "arrivals k [] = []"
| "arrivals k (Arrives addr realIP now # events) =
     (if client_key addr realIP = k then [now] else []) @ arrivals k events"
| "arrivals k (Cleanup now # events) = arrivals k events"

text \<open>No clean-up comes more than three minutes after the last request of the client.\<close>

fun kept_alive :: "string \<Rightarrow> int option \<Rightarrow> rate_event list \<Rightarrow> bool" where
  "kept_alive k seen [] \<longleftrightarrow> True"
| "kept_alive k seen (Arrives addr realIP now # events) \<longleftrightarrow>
     kept_alive k (if client_key addr realIP = k then Some now else seen) events"
| "kept_alive k seen (Cleanup now # events) \<longleftrightarrow>
     (case seen of None \<Rightarrow> True | Some t \<Rightarrow> now - t \<le> three_minutes) \<and> kept_alive k seen events"

definition bucket_of :: "'l rate_lib \<Rightarrow> string \<Rightarrow> 'l rate_limiter \<Rightarrow> 'l" where
  "bucket_of L k rl =
     (case rl_visitors rl k of
        None \<Rightarrow> rate_NewLimiter L (rl_rate rl) (rl_burst rl)
      | Some v \<Rightarrow> vi_limiter v)"

lemma Middleware_bucket:
  obtains ok l new where "rate_Middleware L now addr realIP rl = (ok, new)"
    and "rate_Allow L now (bucket_of L (client_key addr realIP) rl) = (ok, l)"
    and "rl_visitors new = (rl_visitors rl)(client_key addr realIP \<mapsto> \<lparr>vi_limiter = l, vi_lastSeen = now\<rparr>)"
    and "rl_rate new = rl_rate rl" and "rl_burst new = rl_burst rl"
proof -
  let ?k = "client_key addr realIP"
  obtain ok l where allow: "rate_Allow L now (bucket_of L ?k rl) = (ok, l)" by fastforce
  have "rate_Middleware L now addr realIP rl =
      (ok, rl\<lparr>rl_visitors := (rl_visitors rl)(?k \<mapsto> \<lparr>vi_limiter = l, vi_lastSeen = now\<rparr>)\<rparr>)"
  proof (cases "rl_visitors rl ?k")
    case None
    with allow show ?thesis
      by (simp add: rate_Middleware_def getVisitor_def set_limiter_def bucket_of_def Let_def)
  next
    case (Some v)
    with allow show ?thesis
      by (cases v) (simp add: rate_Middleware_def getVisitor_def set_limiter_def bucket_of_def Let_def)
  qed
  from that [OF this allow] show ?thesis by simp
qed

lemma rate_answers_bucket:
  "kept_alive k (map_option vi_lastSeen (rl_visitors rl k)) events \<Longrightarrow>
   answers_to k (rate_answers L events rl) = bucket_answers L (arrivals k events) (bucket_of L k rl)"
proof (induction L events rl rule: rate_answers.induct)
  case (2 L addr realIP now events rl)
  obtain ok l new where step: "rate_Middleware L now addr realIP rl = (ok, new)"
    and allow: "rate_Allow L now (bucket_of L (client_key addr realIP) rl) = (ok, l)"
    and new: "rl_visitors new = (rl_visitors rl)(client_key addr realIP \<mapsto> \<lparr>vi_limiter = l, vi_lastSeen = now\<rparr>)"
      "rl_rate new = rl_rate rl" "rl_burst new = rl_burst rl"
    by (rule Middleware_bucket)
  have IH: "answers_to k (rate_answers L events new) = bucket_answers L (arrivals k events) (bucket_of L k new)"
    by (rule "2.IH" [OF step [symmetric]]) (use "2.prems" new in \<open>simp split: if_splits\<close>)
  show ?case
  proof (cases "client_key addr realIP = k")
    case True
    then show ?thesis using IH allow new step by (simp add: answers_to_def bucket_of_def)
  next
    case False
    then show ?thesis using IH new step by (simp add: answers_to_def bucket_of_def cong: option.case_cong)
  qed
next
  case (3 L now events rl)
  have "rl_visitors (cleanup now rl) k = rl_visitors rl k"
    using "3.prems" by (auto simp: cleanup_def split: option.splits)
  moreover have "rl_rate (cleanup now rl) = rl_rate rl" "rl_burst (cleanup now rl) = rl_burst rl"
    by (simp_all add: cleanup_def)
  ultimately show ?case using 3 by (simp add: bucket_of_def cong: option.case_cong)
qed (simp add: answers_to_def)

lemma rate_answers_fresh:
  assumes "\<And>t. fst (rate_Allow L t (rate_NewLimiter L (rl_rate rl) (rl_burst rl)))"
    and "distinct (map fst (rate_answers L events rl))"
    and "\<And>k. k \<in> set (map fst (rate_answers L events rl)) \<Longrightarrow> rl_visitors rl k = None"
  shows "list_all snd (rate_answers L events rl)"
  using assms
proof (induction L events rl rule: rate_answers.induct)
  case (2 L addr realIP now events rl)
  obtain ok l new where step: "rate_Middleware L now addr realIP rl = (ok, new)"
    and allow: "rate_Allow L now (bucket_of L (client_key addr realIP) rl) = (ok, l)"
    and new: "rl_visitors new = (rl_visitors rl)(client_key addr realIP \<mapsto> \<lparr>vi_limiter = l, vi_lastSeen = now\<rparr>)"
      "rl_rate new = rl_rate rl" "rl_burst new = rl_burst rl"
    by (rule Middleware_bucket)
  have answers: "rate_answers L (Arrives addr realIP now # events) rl =
      (client_key addr realIP, ok) # rate_answers L events new" using step by simp
  have "rl_visitors rl (client_key addr realIP) = None"
    by (rule "2.prems"(3)) (simp only: answers, simp)
  then have ok using "2.prems"(1) [of now] allow by (simp add: bucket_of_def)
  moreover have "list_all snd (rate_answers L events new)"
  proof (rule "2.IH" [OF step [symmetric]])
    show "fst (rate_Allow L t (rate_NewLimiter L (rl_rate new) (rl_burst new)))" for t
      unfolding new by (rule "2.prems")
    show "distinct (map fst (rate_answers L events new))" using "2.prems"(2) unfolding answers by simp
    show "rl_visitors new k = None" if "k \<in> set (map fst (rate_answers L events new))" for k
      using that "2.prems"(2,3) unfolding answers by (cases "k = client_key addr realIP") (simp_all add: new)
  qed
  ultimately show ?case unfolding answers by simp
next
  case (3 L now events rl)
  have "list_all snd (rate_answers L events (cleanup now rl))"
  proof (rule "3.IH")
    show "fst (rate_Allow L t (rate_NewLimiter L (rl_rate (cleanup now rl)) (rl_burst (cleanup now rl))))" for t
      using "3.prems"(1) [of t] by (simp add: cleanup_def)
    show "distinct (map fst (rate_answers L events (cleanup now rl)))" using "3.prems"(2) by simp
    show "rl_visitors (cleanup now rl) k = None" if "k \<in> set (map fst (rate_answers L events (cleanup now rl)))" for k
      using that "3.prems"(3) [of k] by (simp add: cleanup_def)
  qed
  then show ?case by simp
qed simp

subsection \<open>Properties\<close>

text \<open>C38: Each client has its own bucket. While a client is not idle for more than three minutes, the requests counted
  under its key get the answers of one token bucket fed with these requests alone, whatever other clients do and
  whenever the map is cleaned.\<close>

theorem one_bucket_per_client:
  assumes "kept_alive k None events"
  shows "answers_to k (rate_answers L events (NewRateLimiter r burst)) =
    bucket_answers L (arrivals k events) (rate_NewLimiter L r burst)"
  using rate_answers_bucket [of k "NewRateLimiter r burst" events L] assms
  by (simp add: NewRateLimiter_def bucket_of_def)

text \<open>The limit can be evaded. The key is the header \<open>X-Real-IP\<close>, or else the address with the port of the
  connection, so requests that never repeat a header value or a port are all served, however many and however fast,
  provided that a new bucket allows its first request.\<close>

theorem limit_evaded:
  assumes "\<And>t. fst (rate_Allow L t (rate_NewLimiter L r burst))"
    and "distinct (map fst (rate_answers L events (NewRateLimiter r burst)))"
  shows "list_all snd (rate_answers L events (NewRateLimiter r burst))"
  by (rule rate_answers_fresh) (use assms in \<open>simp_all add: NewRateLimiter_def\<close>)

text \<open>An instance of the parameter: a bucket that is never refilled.\<close>

definition demo_bucket :: "int rate_lib" where
  "demo_bucket = \<lparr>rate_NewLimiter = (\<lambda>r burst. burst), rate_Allow = (\<lambda>t l. (0 < l, if 0 < l then l - 1 else l))\<rparr>"

theorem one_bucket_per_client_witness:
  "answers_to ''a'' (rate_answers demo_bucket
      [Arrives ''a'' '''' 0, Arrives ''b'' '''' 1, Cleanup 2, Arrives ''x'' ''a'' 3, Arrives ''a'' '''' 4]
      (NewRateLimiter 1 2)) = [True, True, False]"
  using one_bucket_per_client [of "''a''"
      "[Arrives ''a'' '''' 0, Arrives ''b'' '''' 1, Cleanup 2, Arrives ''x'' ''a'' 3, Arrives ''a'' '''' 4]"
      demo_bucket 1 2]
  by (simp add: client_key_def three_minutes_def demo_bucket_def)

theorem limit_evaded_witness:
  "list_all snd (rate_answers demo_bucket
      [Arrives ''1.2.3.4:50000'' '''' 0, Arrives ''1.2.3.4:50001'' '''' 0, Arrives ''1.2.3.4:50002'' '''' 0]
      (NewRateLimiter 5 1))"
  by (rule limit_evaded)
     (simp_all add: demo_bucket_def rate_Middleware_def getVisitor_def set_limiter_def NewRateLimiter_def client_key_def)

end
