(* ===== verification/Tables.thy ===== *)
theory Tables
  imports Backend Identity
begin

text \<open>
  The tables of the configuration with the constraints of \<open>migrations\<close>, what the handlers of
  \<open>internal/api/handlers.go\<close> decode from a request, and the statements of \<open>internal/store\<close> (\<open>policies.go\<close>,
  \<open>blocklist.go\<close>, \<open>ranges.go\<close>) that replace the categories of a group or list or add entries to a list. A
  statement that violates a constraint ends its transaction: the value is \<open>None\<close> and the tables stay as they were.
\<close>

subsection \<open>Decoding a request\<close>

text \<open>\<open>strconv.Atoi\<close> of a path segment and the fields that the handlers decode. A missing field and a \<open>null\<close> leave the
  zero value, an unknown field is ignored, and of two fields with the same name the last one counts.\<close>

definition in_int64 :: "int \<Rightarrow> bool" where
  "in_int64 n \<longleftrightarrow> - (2 ^ 63) \<le> n \<and> n < 2 ^ 63"

definition in_int32 :: "int \<Rightarrow> bool" where
  "in_int32 n \<longleftrightarrow> - (2 ^ 31) \<le> n \<and> n < 2 ^ 31"

definition Atoi :: "jsstr \<Rightarrow> int option" where
  "Atoi s =
     (let (sign, digits) = (case s of
              [] \<Rightarrow> (1, [])
            | u # t \<Rightarrow> if u = 45 then (- 1, t) else if u = 43 then (1, t) else (1, s));
          n = sign * int (digits_value digits)
      in if digits \<noteq> [] \<and> list_all is_digit digits \<and> in_int64 n then Some n else None)"

fun decode_all :: "('a \<Rightarrow> 'b option) \<Rightarrow> 'a list \<Rightarrow> 'b list option" where
  "decode_all f [] = Some []"
| "decode_all f (x # xs) =
     (case (f x, decode_all f xs) of (Some y, Some ys) \<Rightarrow> Some (y # ys) | _ \<Rightarrow> None)"

fun decode_int :: "json \<Rightarrow> int option" where
  "decode_int (JNum n) = (if in_int64 n then Some n else None)"
| "decode_int JNull = Some 0"
| "decode_int _ = None"

definition go_string :: "jsstr \<Rightarrow> string" where
  "go_string s = map (\<lambda>b. char_of (unat b)) (utf8 s)"

fun decode_string :: "json \<Rightarrow> string option" where
  "decode_string (JStr s) = Some (go_string s)"
| "decode_string JNull = Some []"
| "decode_string _ = None"

fun decode_slice :: "(json \<Rightarrow> 'b option) \<Rightarrow> json \<Rightarrow> 'b list option" where
  "decode_slice f (JArr xs) = decode_all f xs"
| "decode_slice f JNull = Some []"
| "decode_slice f _ = None"

fun decode_field :: "(json \<Rightarrow> 'b option) \<Rightarrow> jsstr \<Rightarrow> json option \<Rightarrow> 'b list option" where
  "decode_field f name (Some (JObj kvs)) =
     map_option (\<lambda>vs. if vs = [] then [] else last vs)
       (decode_all (\<lambda>(k, v). decode_slice f v) (filter (\<lambda>(k, v). toLowerCase k = name) kvs))"
| "decode_field f name (Some JNull) = Some []"
| "decode_field f name _ = None"

fun decode_bool :: "json \<Rightarrow> bool option" where
  "decode_bool (JBool b) = Some b"
| "decode_bool _ = None"

fun decode_value :: "(json \<Rightarrow> 'b option) \<Rightarrow> 'b \<Rightarrow> jsstr \<Rightarrow> json option \<Rightarrow> 'b option" where
  "decode_value f zero name (Some (JObj kvs)) =
     map_option (\<lambda>vs. if vs = [] then zero else last vs)
       (decode_all (\<lambda>(k, v). f v) (filter (\<lambda>(k, v). toLowerCase k = name \<and> v \<noteq> JNull) kvs))"
| "decode_value f zero name (Some JNull) = Some zero"
| "decode_value f zero name _ = None"

text \<open>The numbers that the pages put into a path are read back.\<close>

lemma Atoi_num_str:
  assumes "in_int64 n"
  shows "Atoi (num_str n) = Some n"
proof (cases "n < 0")
  case True
  with assms show ?thesis by (simp add: Atoi_def num_str_def nat_str_digits)
next
  case False
  obtain u t where ut: "nat_str (nat n) = u # t" by (meson nat_str_nonempty neq_Nil_conv)
  with nat_str_digits [of "nat n"] have "is_digit u" by simp
  then have "u \<noteq> 45" "u \<noteq> 43" by (auto simp: is_digit_def)
  with False ut nat_str_digits [of "nat n"] digits_value_nat_str [of "nat n"] assms show ?thesis
    by (simp add: Atoi_def num_str_def)
qed

lemma int32_int64: "in_int32 n \<Longrightarrow> in_int64 n"
  by (simp add: in_int32_def in_int64_def)

text \<open>Plain ASCII is the same text in JavaScript and Go.\<close>

lemma js_ascii_text: "list_all (\<lambda>c. (of_char c :: nat) < 128 \<and> c \<noteq> CHR ''%'') s \<Longrightarrow> js s = map of_char s"
  by (induction s) (simp_all add: js.simps)

lemma unat_char: "unat (of_char c :: 16 word) = of_char c"
proof -
  have eq: "(of_char c :: 16 word) = of_nat (of_char c)" by (simp add: of_nat_of_char)
  have "(of_char c :: nat) < 256" using of_char_mod_256 [of c] by (metis mod_less_divisor zero_less_numeral)
  then have "(of_char c :: nat) < 2 ^ LENGTH(16)" by (rule less_le_trans) simp
  then show ?thesis by (simp only: eq unat_of_nat mod_less)
qed

lemma go_string_plain:
  assumes "list_all (\<lambda>c. (of_char c :: nat) < 128 \<and> c \<noteq> CHR ''%'') s"
  shows "go_string (js s) = s"
proof -
  have "utf8 (js s) = map ucast (js s)"
    using assms by (intro utf8_ascii) (auto simp: js_ascii_text unat_char list_all_iff)
  moreover have "char_of (unat (ucast (of_char c :: 16 word) :: 8 word)) = c" if "c \<in> set s" for c
  proof -
    have "(of_char c :: nat) < 256" using assms that by (auto simp: list_all_iff)
    then show ?thesis by (simp add: unsigned_ucast_eq unat_char take_bit_eq_mod)
  qed
  ultimately show ?thesis
    unfolding go_string_def by (simp add: js_ascii_text [OF assms] map_idI)
qed

subsection \<open>Tables\<close>

record group_row =
  gr_id :: int
  gr_name :: string
  gr_description :: string

record list_row =
  lr_id :: int
  lr_name :: string
  lr_sourceURL :: string
  lr_type :: int
  lr_active :: bool
  lr_domainCount :: nat

record range_row =
  rr_id :: int
  rr_cidr :: string
  rr_group :: int
  rr_mode :: int
  rr_description :: string

record tables =
  tb_groups :: "group_row list"
  tb_categories :: "int list"
  tb_policies :: "(int \<times> int) list"
  tb_lists :: "list_row list"
  tb_entries :: "(int \<times> string) list"
  tb_listCategories :: "(int \<times> int) list"
  tb_ranges :: "range_row list"

definition group_ids :: "tables \<Rightarrow> int set" where
  "group_ids T = gr_id ` set (tb_groups T)"

definition list_ids :: "tables \<Rightarrow> int set" where
  "list_ids T = lr_id ` set (tb_lists T)"

definition range_ids :: "tables \<Rightarrow> int set" where
  "range_ids T = rr_id ` set (tb_ranges T)"

text \<open>The constraints of the migrations: keys are unique and in the range of \<open>SERIAL\<close>, names of groups are unique, and
  references exist.\<close>

definition is_serial :: "int \<Rightarrow> bool" where
  "is_serial n \<longleftrightarrow> 0 < n \<and> n < 2 ^ 31"

definition tables_ok :: "tables \<Rightarrow> bool" where
  "tables_ok T \<longleftrightarrow>
     (\<forall>i \<in> group_ids T \<union> set (tb_categories T) \<union> list_ids T \<union> range_ids T. is_serial i) \<and>
     distinct (map gr_id (tb_groups T)) \<and> distinct (map gr_name (tb_groups T)) \<and>
     distinct (map lr_id (tb_lists T)) \<and> distinct (map rr_id (tb_ranges T)) \<and>
     distinct (tb_policies T) \<and> distinct (tb_entries T) \<and> distinct (tb_listCategories T) \<and>
     set (tb_policies T) \<subseteq> group_ids T \<times> set (tb_categories T) \<and>
     fst ` set (tb_entries T) \<subseteq> list_ids T \<and>
     set (tb_listCategories T) \<subseteq> list_ids T \<times> set (tb_categories T) \<and>
     rr_group ` set (tb_ranges T) \<subseteq> group_ids T"

text \<open>\<open>ON CONFLICT DO NOTHING\<close>\<close>

definition insert_row :: "'a \<Rightarrow> 'a list \<Rightarrow> 'a list" where
  "insert_row x xs = (if x \<in> set xs then xs else xs @ [x])"

text \<open>A text column accepts no zero byte, and \<open>VARCHAR(n)\<close> at most n characters, where the bytes that continue a
  character of UTF-8 do not count. (PostgreSQL would cut blanks beyond the limit; here they are refused.)\<close>

definition text_fits :: "string \<Rightarrow> bool" where
  "text_fits d \<longleftrightarrow> CHR 0x00 \<notin> set d"

definition varchar_fits :: "nat \<Rightarrow> string \<Rightarrow> bool" where
  "varchar_fits n d \<longleftrightarrow> text_fits d \<and>
     length (filter (\<lambda>c. \<not> (0x80 \<le> (of_char c :: nat) \<and> (of_char c :: nat) < 0xC0)) d) \<le> n"

abbreviation domain_fits :: "string \<Rightarrow> bool" where
  "domain_fits \<equiv> varchar_fits 253"

definition active_list :: "tables \<Rightarrow> int \<Rightarrow> int \<Rightarrow> bool" where
  "active_list T listID listType \<longleftrightarrow>
     (\<exists>l \<in> set (tb_lists T). lr_id l = listID \<and> lr_active l \<and> lr_type l = listType)"

text \<open>The keys depend on their own table only.\<close>

lemma ids_update [simp]:
  "group_ids (T\<lparr>tb_policies := v0policies\<rparr>) = group_ids T"
  "group_ids (T\<lparr>tb_categories := v0categories\<rparr>) = group_ids T"
  "group_ids (T\<lparr>tb_lists := v0lists\<rparr>) = group_ids T"
  "group_ids (T\<lparr>tb_entries := v0entries\<rparr>) = group_ids T"
  "group_ids (T\<lparr>tb_listCategories := v0listCategories\<rparr>) = group_ids T"
  "group_ids (T\<lparr>tb_ranges := v0ranges\<rparr>) = group_ids T"
  "list_ids (T\<lparr>tb_policies := v1policies\<rparr>) = list_ids T"
  "list_ids (T\<lparr>tb_categories := v1categories\<rparr>) = list_ids T"
  "list_ids (T\<lparr>tb_groups := v1groups\<rparr>) = list_ids T"
  "list_ids (T\<lparr>tb_entries := v1entries\<rparr>) = list_ids T"
  "list_ids (T\<lparr>tb_listCategories := v1listCategories\<rparr>) = list_ids T"
  "list_ids (T\<lparr>tb_ranges := v1ranges\<rparr>) = list_ids T"
  "range_ids (T\<lparr>tb_policies := v2policies\<rparr>) = range_ids T"
  "range_ids (T\<lparr>tb_categories := v2categories\<rparr>) = range_ids T"
  "range_ids (T\<lparr>tb_groups := v2groups\<rparr>) = range_ids T"
  "range_ids (T\<lparr>tb_entries := v2entries\<rparr>) = range_ids T"
  "range_ids (T\<lparr>tb_listCategories := v2listCategories\<rparr>) = range_ids T"
  "range_ids (T\<lparr>tb_lists := v2lists\<rparr>) = range_ids T"
  by (simp_all add: group_ids_def list_ids_def range_ids_def)

subsection \<open>The store\<close>

fun insert_policies :: "int \<Rightarrow> int list \<Rightarrow> tables \<Rightarrow> tables option" where
  "insert_policies groupID [] T = Some T"
| "insert_policies groupID (catID # catIDs) T =
     (if groupID \<in> group_ids T \<and> catID \<in> set (tb_categories T)
      then insert_policies groupID catIDs (T\<lparr>tb_policies := insert_row (groupID, catID) (tb_policies T)\<rparr>)
      else None)"

definition store_SetGroupPolicy :: "int \<Rightarrow> int list \<Rightarrow> tables \<Rightarrow> tables option" where
  "store_SetGroupPolicy groupID categoryIDs T =
     (if in_int32 groupID
      then insert_policies groupID categoryIDs
             (T\<lparr>tb_policies := filter (\<lambda>(g, _). g \<noteq> groupID) (tb_policies T)\<rparr>)
      else None)"

definition GetGroupBlockedCategories :: "int \<Rightarrow> tables \<Rightarrow> int list option" where
  "GetGroupBlockedCategories groupID T =
     (if in_int32 groupID then Some (map snd (filter (\<lambda>(g, _). g = groupID) (tb_policies T))) else None)"

fun insert_list_categories :: "int \<Rightarrow> int list \<Rightarrow> tables \<Rightarrow> tables option" where
  "insert_list_categories listID [] T = Some T"
| "insert_list_categories listID (catID # catIDs) T =
     (if listID \<in> list_ids T \<and> catID \<in> set (tb_categories T)
      then insert_list_categories listID catIDs
             (T\<lparr>tb_listCategories := insert_row (listID, catID) (tb_listCategories T)\<rparr>)
      else None)"

definition store_SetBlocklistCategories :: "int \<Rightarrow> int list \<Rightarrow> tables \<Rightarrow> tables option" where
  "store_SetBlocklistCategories listID categoryIDs T =
     (if in_int32 listID
      then insert_list_categories listID categoryIDs
             (T\<lparr>tb_listCategories := filter (\<lambda>(l, _). l \<noteq> listID) (tb_listCategories T)\<rparr>)
      else None)"

definition store_GetBlocklistCategories :: "int \<Rightarrow> tables \<Rightarrow> int list option" where
  "store_GetBlocklistCategories listID T =
     (if in_int32 listID then Some (map snd (filter (\<lambda>(l, _). l = listID) (tb_listCategories T))) else None)"

fun insert_entries :: "int \<Rightarrow> string list \<Rightarrow> tables \<Rightarrow> tables option" where
  "insert_entries listID [] T = Some T"
| "insert_entries listID (domain # domains) T =
     (if listID \<in> list_ids T \<and> domain_fits domain
      then insert_entries listID domains (T\<lparr>tb_entries := insert_row (listID, domain) (tb_entries T)\<rparr>)
      else None)"

definition set_domain_count :: "int \<Rightarrow> nat \<Rightarrow> tables \<Rightarrow> tables" where
  "set_domain_count listID n T =
     T\<lparr>tb_lists := map (\<lambda>l. if lr_id l = listID then l\<lparr>lr_domainCount := n\<rparr> else l) (tb_lists T)\<rparr>"

text \<open>The count is the one of the domains given, also of those that were in the list before.\<close>

definition store_InsertBlocklistEntries :: "int \<Rightarrow> string list \<Rightarrow> tables \<Rightarrow> (nat \<times> tables) option" where
  "store_InsertBlocklistEntries listID domains T =
     (if domains = [] then Some (0, T)
      else map_option (\<lambda>T'. (length domains, set_domain_count listID (length domains) T'))
             (insert_entries listID domains T))"

subsection \<open>What the store does\<close>

lemma insert_rows:
  "set (fold insert_row ys xs) = set ys \<union> set xs"
  "distinct xs \<Longrightarrow> distinct (fold insert_row ys xs)"
  "distinct ys \<Longrightarrow> set ys \<inter> set xs = {} \<Longrightarrow> fold insert_row ys xs = xs @ ys"
  by (induction ys arbitrary: xs) (auto simp: insert_row_def)

lemma insert_policies_fold:
  "insert_policies g cats T =
     (if cats = [] \<or> g \<in> group_ids T \<and> set cats \<subseteq> set (tb_categories T)
      then Some (T\<lparr>tb_policies := fold insert_row (map (Pair g) cats) (tb_policies T)\<rparr>) else None)"
  by (induction cats arbitrary: T) auto

lemma insert_list_categories_fold:
  "insert_list_categories l cats T =
     (if cats = [] \<or> l \<in> list_ids T \<and> set cats \<subseteq> set (tb_categories T)
      then Some (T\<lparr>tb_listCategories := fold insert_row (map (Pair l) cats) (tb_listCategories T)\<rparr>) else None)"
  by (induction cats arbitrary: T) (auto simp: list_ids_def)

lemma insert_entries_fold:
  "insert_entries l ds T =
     (if ds = [] \<or> l \<in> list_ids T \<and> list_all domain_fits ds
      then Some (T\<lparr>tb_entries := fold insert_row (map (Pair l) ds) (tb_entries T)\<rparr>) else None)"
  by (induction ds arbitrary: T) (auto simp: list_ids_def)

text \<open>The three changes in closed form.\<close>

definition put_policy :: "int \<Rightarrow> int list \<Rightarrow> tables \<Rightarrow> tables" where
  "put_policy g cats T =
     T\<lparr>tb_policies := fold insert_row (map (Pair g) cats) (filter (\<lambda>(g', _). g' \<noteq> g) (tb_policies T))\<rparr>"

definition put_list_categories :: "int \<Rightarrow> int list \<Rightarrow> tables \<Rightarrow> tables" where
  "put_list_categories l cats T =
     T\<lparr>tb_listCategories :=
        fold insert_row (map (Pair l) cats) (filter (\<lambda>(l', _). l' \<noteq> l) (tb_listCategories T))\<rparr>"

definition put_entries :: "int \<Rightarrow> string list \<Rightarrow> tables \<Rightarrow> tables" where
  "put_entries l ds T =
     set_domain_count l (length ds) (T\<lparr>tb_entries := fold insert_row (map (Pair l) ds) (tb_entries T)\<rparr>)"

lemma store_changes:
  "store_SetGroupPolicy g cats T =
     (if in_int32 g \<and> (cats = [] \<or> g \<in> group_ids T \<and> set cats \<subseteq> set (tb_categories T))
      then Some (put_policy g cats T) else None)"
  "store_SetBlocklistCategories l cats T =
     (if in_int32 l \<and> (cats = [] \<or> l \<in> list_ids T \<and> set cats \<subseteq> set (tb_categories T))
      then Some (put_list_categories l cats T) else None)"
  "store_InsertBlocklistEntries l ds T =
     (if ds = [] then Some (0, T)
      else if l \<in> list_ids T \<and> list_all domain_fits ds then Some (length ds, put_entries l ds T) else None)"
  by (simp_all add: store_SetGroupPolicy_def store_SetBlocklistCategories_def store_InsertBlocklistEntries_def
      insert_policies_fold insert_list_categories_fold insert_entries_fold put_policy_def put_list_categories_def
      put_entries_def list_ids_def)

text \<open>The rows that belong to one key, and the others.\<close>

lemma keyed_rows:
  "set (fold insert_row (map (Pair k) ys) (filter (\<lambda>(k', _). k' \<noteq> k) xs)) =
     {k} \<times> set ys \<union> {(k', y). (k', y) \<in> set xs \<and> k' \<noteq> k}"
  by (auto simp: insert_rows)

lemma put_policy_rows:
  "set (tb_policies (put_policy g cats T)) = {g} \<times> set cats \<union> {(g', c). (g', c) \<in> set (tb_policies T) \<and> g' \<noteq> g}"
  unfolding put_policy_def by (simp add: keyed_rows)

lemma put_list_categories_rows:
  "set (tb_listCategories (put_list_categories l cats T)) =
     {l} \<times> set cats \<union> {(l', c). (l', c) \<in> set (tb_listCategories T) \<and> l' \<noteq> l}"
  unfolding put_list_categories_def by (simp add: keyed_rows)

lemma set_domain_count_ids [simp]:
  "map lr_id (tb_lists (set_domain_count l n T)) = map lr_id (tb_lists T)"
  "list_ids (set_domain_count l n T) = list_ids T"
  "active_list (set_domain_count l n T) l' t = active_list T l' t"
  "group_ids (set_domain_count l n T) = group_ids T" "range_ids (set_domain_count l n T) = range_ids T"
proof -
  let ?f = "\<lambda>row. if lr_id row = l then row\<lparr>lr_domainCount := n\<rparr> else row"
  have f: "lr_id (?f row) = lr_id row" "lr_active (?f row) = lr_active row" "lr_type (?f row) = lr_type row" for row
    by simp_all
  have rows: "tb_lists (set_domain_count l n T) = map ?f (tb_lists T)" by (simp add: set_domain_count_def)
  show ids: "map lr_id (tb_lists (set_domain_count l n T)) = map lr_id (tb_lists T)"
    unfolding rows by simp
  then show "list_ids (set_domain_count l n T) = list_ids T" by (metis list_ids_def list.set_map)
  show "active_list (set_domain_count l n T) l' t = active_list T l' t"
    unfolding active_list_def rows set_map bex_simps f by (rule refl)
qed (simp_all add: set_domain_count_def)

lemma put_entries_fields [simp]:
  "set (tb_entries (put_entries l ds T)) = {l} \<times> set ds \<union> set (tb_entries T)"
  "tb_groups (put_entries l ds T) = tb_groups T" "tb_categories (put_entries l ds T) = tb_categories T"
  "tb_policies (put_entries l ds T) = tb_policies T"
  "tb_listCategories (put_entries l ds T) = tb_listCategories T" "tb_ranges (put_entries l ds T) = tb_ranges T"
  "group_ids (put_entries l ds T) = group_ids T" "range_ids (put_entries l ds T) = range_ids T"
  by (auto simp: put_entries_def set_domain_count_def insert_rows)

lemma put_entries_lists [simp]:
  "active_list (put_entries l ds T) l' t = active_list T l' t"
  "list_ids (put_entries l ds T) = list_ids T"
  by (simp_all add: put_entries_def) (simp_all add: active_list_def list_ids_def)

lemma put_fields [simp]:
  "tb_groups (put_policy g cats T) = tb_groups T" "tb_categories (put_policy g cats T) = tb_categories T"
  "tb_lists (put_policy g cats T) = tb_lists T" "tb_entries (put_policy g cats T) = tb_entries T"
  "tb_listCategories (put_policy g cats T) = tb_listCategories T"
  "tb_groups (put_list_categories l cats T) = tb_groups T"
  "tb_categories (put_list_categories l cats T) = tb_categories T"
  "tb_lists (put_list_categories l cats T) = tb_lists T" "tb_entries (put_list_categories l cats T) = tb_entries T"
  "tb_policies (put_list_categories l cats T) = tb_policies T"
  "group_ids (put_policy g cats T) = group_ids T" "list_ids (put_policy g cats T) = list_ids T" "range_ids (put_policy g cats T) = range_ids T" "tb_ranges (put_policy g cats T) = tb_ranges T"
  "group_ids (put_list_categories l cats T) = group_ids T" "list_ids (put_list_categories l cats T) = list_ids T" "range_ids (put_list_categories l cats T) = range_ids T" "tb_ranges (put_list_categories l cats T) = tb_ranges T"
  by (simp_all add: put_policy_def put_list_categories_def)

lemma tables_ok_put:
  assumes "tables_ok T"
  shows "cats = [] \<or> g \<in> group_ids T \<and> set cats \<subseteq> set (tb_categories T) \<Longrightarrow> tables_ok (put_policy g cats T)"
    and "cats = [] \<or> l \<in> list_ids T \<and> set cats \<subseteq> set (tb_categories T) \<Longrightarrow>
      tables_ok (put_list_categories l cats T)"
    and "l \<in> list_ids T \<Longrightarrow> tables_ok (put_entries l ds T)"
proof -
  show "tables_ok (put_policy g cats T)"
    if "cats = [] \<or> g \<in> group_ids T \<and> set cats \<subseteq> set (tb_categories T)"
  proof -
    have "distinct (tb_policies (put_policy g cats T))"
      using assms by (simp add: put_policy_def tables_ok_def insert_rows)
    moreover have "set (tb_policies (put_policy g cats T)) \<subseteq> group_ids T \<times> set (tb_categories T)"
      using assms that by (auto simp: put_policy_rows tables_ok_def)
    ultimately show ?thesis using assms by (simp add: tables_ok_def)
  qed
  show "tables_ok (put_list_categories l cats T)"
    if "cats = [] \<or> l \<in> list_ids T \<and> set cats \<subseteq> set (tb_categories T)"
  proof -
    have "distinct (tb_listCategories (put_list_categories l cats T))"
      using assms by (simp add: put_list_categories_def tables_ok_def insert_rows)
    moreover have "set (tb_listCategories (put_list_categories l cats T)) \<subseteq> list_ids T \<times> set (tb_categories T)"
      using assms that by (auto simp: put_list_categories_rows tables_ok_def)
    ultimately show ?thesis using assms by (simp add: tables_ok_def)
  qed
  show "tables_ok (put_entries l ds T)" if "l \<in> list_ids T"
  proof -
    have "distinct (tb_entries (put_entries l ds T))"
      using assms by (simp add: put_entries_def set_domain_count_def tables_ok_def insert_rows)
    moreover have "fst ` set (tb_entries (put_entries l ds T)) \<subseteq> list_ids T"
      using assms that by (auto simp: tables_ok_def)
    moreover have "map lr_id (tb_lists (put_entries l ds T)) = map lr_id (tb_lists T)"
      by (simp add: put_entries_def)
    ultimately show ?thesis using assms by (simp add: tables_ok_def)
  qed
qed

end
