(* ===== verification/AdminStore.thy ===== *)
theory AdminStore
  imports Tables
begin

text \<open>
  Groups, lists and ranges: the statements of \<open>internal/store\<close> (\<open>groups.go\<close>, \<open>ranges.go\<close>, \<open>blocklist.go\<close>) and the
  handlers of \<open>internal/api/handlers.go\<close> that create, change, list and delete them. The foreign keys of the migrations
  delete what refers to a deleted row. A handler gives the status of the reply, the tables, and whether a
  trigger of \<open>migrations/007\<close> notifies the DNS server; \<open>CreateRange\<close> also gives the range that it adds to the
  identity resolver.
\<close>

text \<open>Two readers of the text of a network: \<open>net.ParseCIDR\<close>, and PostgreSQL's type \<open>cidr\<close> with the text it gives back.\<close>

record net_lib =
  nl_ParseCIDR :: "string \<Rightarrow> ipnet option"
  nl_cidr :: "string \<Rightarrow> string option"

definition in_int16 :: "int \<Rightarrow> bool" where
  "in_int16 n \<longleftrightarrow> - (2 ^ 15) \<le> n \<and> n < 2 ^ 15"

subsection \<open>Groups\<close>

definition store_ListGroups :: "tables \<Rightarrow> group_row list" where
  "store_ListGroups T = sort_key gr_id (tb_groups T)"

definition store_CreateGroup :: "int \<Rightarrow> string \<Rightarrow> string \<Rightarrow> tables \<Rightarrow> tables option" where
  "store_CreateGroup newID name description T =
     (if is_serial newID \<and> newID \<notin> group_ids T \<and> name \<notin> gr_name ` set (tb_groups T) \<and>
         varchar_fits 100 name \<and> text_fits description
      then Some (T\<lparr>tb_groups := tb_groups T @ [\<lparr>gr_id = newID, gr_name = name, gr_description = description\<rparr>]\<rparr>)
      else None)"

definition store_UpdateGroup :: "int \<Rightarrow> string \<Rightarrow> string \<Rightarrow> tables \<Rightarrow> tables option" where
  "store_UpdateGroup groupID name description T =
     (if in_int32 groupID \<and> text_fits name \<and> text_fits description \<and>
         (groupID \<notin> group_ids T \<or>
          varchar_fits 100 name \<and> name \<notin> gr_name ` {g \<in> set (tb_groups T). gr_id g \<noteq> groupID})
      then Some (T\<lparr>tb_groups := map (\<lambda>g. if gr_id g = groupID
              then g\<lparr>gr_name := name, gr_description := description\<rparr> else g) (tb_groups T)\<rparr>)
      else None)"

text \<open>The policies and ranges of the group are deleted with it.\<close>

definition store_DeleteGroup :: "int \<Rightarrow> tables \<Rightarrow> tables option" where
  "store_DeleteGroup groupID T =
     (if in_int32 groupID
      then Some (T\<lparr>tb_groups := filter (\<lambda>g. gr_id g \<noteq> groupID) (tb_groups T),
              tb_policies := filter (\<lambda>(g, _). g \<noteq> groupID) (tb_policies T),
              tb_ranges := filter (\<lambda>r. rr_group r \<noteq> groupID) (tb_ranges T)\<rparr>)
      else None)"

subsection \<open>Lists\<close>

definition store_ListBlocklists :: "tables \<Rightarrow> list_row list" where
  "store_ListBlocklists T = sort_key lr_id (tb_lists T)"

definition store_InsertBlocklist :: "int \<Rightarrow> string \<Rightarrow> string \<Rightarrow> int \<Rightarrow> tables \<Rightarrow> tables option" where
  "store_InsertBlocklist newID name sourceURL listType T =
     (if is_serial newID \<and> newID \<notin> list_ids T \<and> varchar_fits 200 name \<and> text_fits sourceURL \<and> in_int16 listType
      then Some (T\<lparr>tb_lists := tb_lists T @ [\<lparr>lr_id = newID, lr_name = name, lr_sourceURL = sourceURL,
              lr_type = listType, lr_active = True, lr_domainCount = 0\<rparr>]\<rparr>)
      else None)"

definition store_UpdateBlocklist :: "int \<Rightarrow> string \<Rightarrow> bool \<Rightarrow> tables \<Rightarrow> tables option" where
  "store_UpdateBlocklist listID name active T =
     (if in_int32 listID \<and> text_fits name \<and> (listID \<notin> list_ids T \<or> varchar_fits 200 name)
      then Some (T\<lparr>tb_lists := map (\<lambda>l. if lr_id l = listID
              then l\<lparr>lr_name := name, lr_active := active\<rparr> else l) (tb_lists T)\<rparr>)
      else None)"

text \<open>The entries are deleted by a statement, the categories of the list by the foreign key.\<close>

definition store_DeleteBlocklist :: "int \<Rightarrow> tables \<Rightarrow> tables option" where
  "store_DeleteBlocklist listID T =
     (if in_int32 listID
      then Some (T\<lparr>tb_entries := filter (\<lambda>(l, _). l \<noteq> listID) (tb_entries T),
              tb_lists := filter (\<lambda>l. lr_id l \<noteq> listID) (tb_lists T),
              tb_listCategories := filter (\<lambda>(l, _). l \<noteq> listID) (tb_listCategories T)\<rparr>)
      else None)"

subsection \<open>Ranges\<close>

definition store_ListIPRanges :: "tables \<Rightarrow> range_row list" where
  "store_ListIPRanges T = sort_key rr_id (tb_ranges T)"

definition store_CreateIPRange ::
  "net_lib \<Rightarrow> int \<Rightarrow> string \<Rightarrow> int \<Rightarrow> int \<Rightarrow> string \<Rightarrow> tables \<Rightarrow> tables option" where
  "store_CreateIPRange lib newID cidr groupID authMode description T =
     (case nl_cidr lib cidr of
        None \<Rightarrow> None
      | Some net \<Rightarrow>
          if is_serial newID \<and> newID \<notin> range_ids T \<and> groupID \<in> group_ids T \<and> in_int16 authMode \<and> text_fits description
          then Some (T\<lparr>tb_ranges := tb_ranges T @ [\<lparr>rr_id = newID, rr_cidr = net, rr_group = groupID,
                  rr_mode = authMode, rr_description = description\<rparr>]\<rparr>)
          else None)"

definition store_UpdateIPRange ::
  "net_lib \<Rightarrow> int \<Rightarrow> string \<Rightarrow> int \<Rightarrow> int \<Rightarrow> string \<Rightarrow> tables \<Rightarrow> tables option" where
  "store_UpdateIPRange lib rangeID cidr groupID authMode description T =
     (case nl_cidr lib cidr of
        None \<Rightarrow> None
      | Some net \<Rightarrow>
          if in_int32 rangeID \<and> in_int32 groupID \<and> in_int16 authMode \<and> text_fits description \<and>
             (rangeID \<notin> range_ids T \<or> groupID \<in> group_ids T)
          then Some (T\<lparr>tb_ranges := map (\<lambda>r. if rr_id r = rangeID
                  then r\<lparr>rr_cidr := net, rr_group := groupID, rr_mode := authMode, rr_description := description\<rparr>
                  else r) (tb_ranges T)\<rparr>)
          else None)"

definition store_DeleteIPRange :: "int \<Rightarrow> tables \<Rightarrow> tables option" where
  "store_DeleteIPRange rangeID T =
     (if in_int32 rangeID then Some (T\<lparr>tb_ranges := filter (\<lambda>r. rr_id r \<noteq> rangeID) (tb_ranges T)\<rparr>) else None)"

subsection \<open>Handlers\<close>

definition respond :: "nat \<Rightarrow> bool \<Rightarrow> tables \<Rightarrow> tables option \<Rightarrow> nat \<times> tables \<times> bool" where
  "respond status notified T r = (case r of None \<Rightarrow> (500, T, False) | Some T' \<Rightarrow> (status, T', notified))"

definition with_id :: "jsstr \<Rightarrow> tables \<Rightarrow> (int \<Rightarrow> nat \<times> tables \<times> bool) \<Rightarrow> nat \<times> tables \<times> bool" where
  "with_id idParam T f = (case Atoi idParam of None \<Rightarrow> (400, T, False) | Some n \<Rightarrow> f n)"

text \<open>There is no trigger on groups: a deleted group is notified by the deletion of its policies and ranges.\<close>

definition handle_CreateGroup :: "int \<Rightarrow> json option \<Rightarrow> tables \<Rightarrow> nat \<times> tables \<times> bool" where
  "handle_CreateGroup newID body T =
     (case (decode_value decode_string [] (js ''name'') body, decode_value decode_string [] (js ''description'') body) of
        (Some name, Some description) \<Rightarrow> respond 201 False T (store_CreateGroup newID name description T)
      | _ \<Rightarrow> (400, T, False))"

definition handle_UpdateGroup :: "jsstr \<Rightarrow> json option \<Rightarrow> tables \<Rightarrow> nat \<times> tables \<times> bool" where
  "handle_UpdateGroup idParam body T = with_id idParam T (\<lambda>groupID.
     case (decode_value decode_string [] (js ''name'') body, decode_value decode_string [] (js ''description'') body) of
        (Some name, Some description) \<Rightarrow> respond 200 False T (store_UpdateGroup groupID name description T)
      | _ \<Rightarrow> (400, T, False))"

definition handle_DeleteGroup :: "jsstr \<Rightarrow> tables \<Rightarrow> nat \<times> tables \<times> bool" where
  "handle_DeleteGroup idParam T = with_id idParam T (\<lambda>groupID.
     respond 200 (groupID \<in> group_ids T) T (store_DeleteGroup groupID T))"

definition handle_CreateBlocklist :: "int \<Rightarrow> json option \<Rightarrow> tables \<Rightarrow> nat \<times> tables \<times> bool" where
  "handle_CreateBlocklist newID body T =
     (case (decode_value decode_string [] (js ''name'') body, decode_value decode_string [] (js ''source_url'') body,
            decode_value decode_int 0 (js ''list_type'') body) of
        (Some name, Some sourceURL, Some listType) \<Rightarrow>
          respond 201 True T (store_InsertBlocklist newID name sourceURL listType T)
      | _ \<Rightarrow> (400, T, False))"

definition handle_UpdateBlocklist :: "jsstr \<Rightarrow> json option \<Rightarrow> tables \<Rightarrow> nat \<times> tables \<times> bool" where
  "handle_UpdateBlocklist idParam body T = with_id idParam T (\<lambda>listID.
     case (decode_value decode_string [] (js ''name'') body, decode_value decode_bool False (js ''active'') body) of
        (Some name, Some active) \<Rightarrow> respond 200 True T (store_UpdateBlocklist listID name active T)
      | _ \<Rightarrow> (400, T, False))"

definition handle_DeleteBlocklist :: "jsstr \<Rightarrow> tables \<Rightarrow> nat \<times> tables \<times> bool" where
  "handle_DeleteBlocklist idParam T = with_id idParam T (\<lambda>listID.
     respond 200 True T (store_DeleteBlocklist listID T))"

definition decode_range :: "json option \<Rightarrow> (string \<times> int \<times> int \<times> string) option" where
  "decode_range body =
     (case (decode_value decode_string [] (js ''cidr'') body, decode_value decode_int 0 (js ''group_id'') body,
            decode_value decode_int 0 (js ''auth_mode'') body, decode_value decode_string [] (js ''description'') body) of
        (Some cidr, Some groupID, Some authMode, Some description) \<Rightarrow> Some (cidr, groupID, authMode, description)
      | _ \<Rightarrow> None)"

definition handle_CreateRange ::
  "net_lib \<Rightarrow> int \<Rightarrow> json option \<Rightarrow> tables \<Rightarrow> (nat \<times> tables \<times> bool) \<times> identity_range option" where
  "handle_CreateRange lib newID body T =
     (case decode_range body of
        None \<Rightarrow> ((400, T, False), None)
      | Some (cidr, groupID, authMode, description) \<Rightarrow>
          (case nl_ParseCIDR lib cidr of
             None \<Rightarrow> ((400, T, False), None)
           | Some cidrNet \<Rightarrow>
               (case store_CreateIPRange lib newID cidr groupID authMode description T of
                  None \<Rightarrow> ((500, T, False), None)
                | Some T' \<Rightarrow>
                    ((201, T', True), Some \<lparr>ir_network = cidrNet, ir_group = groupID, ir_auth = authMode\<rparr>))))"

definition handle_UpdateRange :: "net_lib \<Rightarrow> jsstr \<Rightarrow> json option \<Rightarrow> tables \<Rightarrow> nat \<times> tables \<times> bool" where
  "handle_UpdateRange lib idParam body T = with_id idParam T (\<lambda>rangeID.
     case decode_range body of
       None \<Rightarrow> (400, T, False)
     | Some (cidr, groupID, authMode, description) \<Rightarrow>
         respond 200 True T (store_UpdateIPRange lib rangeID cidr groupID authMode description T))"

definition handle_DeleteRange :: "jsstr \<Rightarrow> tables \<Rightarrow> nat \<times> tables \<times> bool" where
  "handle_DeleteRange idParam T = with_id idParam T (\<lambda>rangeID.
     respond 200 True T (store_DeleteIPRange rangeID T))"

subsection \<open>Constraints are kept\<close>

text \<open>What every answer of a handler promises: the tables are well formed, and unless it is a success they are
  the same and nobody is notified.\<close>

definition answered :: "tables \<Rightarrow> nat \<times> tables \<times> bool \<Rightarrow> bool" where
  "answered T r =
     (case r of (status, T', notified) \<Rightarrow>
        tables_ok T' \<and> status \<in> {200, 201, 400, 500} \<and> (status \<notin> {200, 201} \<longrightarrow> T' = T \<and> \<not> notified))"

lemma answered_refused: "tables_ok T \<Longrightarrow> status \<in> {400, 500} \<Longrightarrow> answered T (status, T, False)"
  by (auto simp: answered_def)

lemma with_id_answered: "tables_ok T \<Longrightarrow> (\<And>n. answered T (f n)) \<Longrightarrow> answered T (with_id idParam T f)"
  by (simp add: with_id_def answered_refused split: option.split)

text \<open>The contract of a statement of the store, with its arguments \<open>x\<close>.\<close>

locale transaction =
  fixes statement :: "'a \<Rightarrow> tables \<Rightarrow> tables option"
  assumes keeps: "tables_ok T \<Longrightarrow> statement x T = Some T' \<Longrightarrow> tables_ok T'"
begin

lemma respond_answered:
  "tables_ok T \<Longrightarrow> status \<in> {200, 201} \<Longrightarrow> answered T (respond status notified T (statement x T))"
  by (auto simp: respond_def answered_def dest: keeps split: option.split)

end

lemma group_names_update:
  assumes "distinct (map gr_id gs)" and "distinct (map gr_name gs)" and "name \<notin> gr_name ` {g \<in> set gs. gr_id g \<noteq> i}"
  shows "distinct (map (\<lambda>g. if gr_id g = i then name else gr_name g) gs)"
  using assms
proof (induction gs)
  case (Cons g gs)
  then have "distinct (map (\<lambda>g. if gr_id g = i then name else gr_name g) gs)" by auto
  with Cons.prems show ?case by (auto simp: image_iff)
qed simp

lemma update_rows:
  "map gr_id (map (\<lambda>g. if gr_id g = i then g\<lparr>gr_name := n, gr_description := d\<rparr> else g) gs) = map gr_id gs"
  "map gr_name (map (\<lambda>g. if gr_id g = i then g\<lparr>gr_name := n, gr_description := d\<rparr> else g) gs) =
     map (\<lambda>g. if gr_id g = i then n else gr_name g) gs"
  "map lr_id (map (\<lambda>l. if lr_id l = i then l\<lparr>lr_name := n, lr_active := a\<rparr> else l) ls) = map lr_id ls"
  "map rr_id (map (\<lambda>r. if rr_id r = i then r\<lparr>rr_cidr := c, rr_group := g, rr_mode := m, rr_description := d\<rparr> else r)
     rs) = map rr_id rs"
  by simp_all

lemma ids_of_rows:
  "group_ids T = set (map gr_id (tb_groups T))" "list_ids T = set (map lr_id (tb_lists T))"
  "range_ids T = set (map rr_id (tb_ranges T))"
  by (simp_all add: group_ids_def list_ids_def range_ids_def)

text \<open>New rows and fewer rows.\<close>

lemma new_row_ids:
  "group_ids (T\<lparr>tb_groups := tb_groups T @ [g]\<rparr>) = insert (gr_id g) (group_ids T)"
  "list_ids (T\<lparr>tb_lists := tb_lists T @ [l]\<rparr>) = insert (lr_id l) (list_ids T)"
  "range_ids (T\<lparr>tb_ranges := tb_ranges T @ [r]\<rparr>) = insert (rr_id r) (range_ids T)"
  by (simp_all add: group_ids_def list_ids_def range_ids_def)

lemma distinct_new: "distinct (map f (xs @ [x])) \<longleftrightarrow> distinct (map f xs) \<and> f x \<notin> f ` set xs"
  by auto

lemma create_group_keeps:
  assumes "tables_ok T" and "store_CreateGroup newID name description T = Some T'"
  shows "tables_ok T'"
proof -
  let ?T = "T\<lparr>tb_groups := tb_groups T @ [\<lparr>gr_id = newID, gr_name = name, gr_description = description\<rparr>]\<rparr>"
  have new: "is_serial newID" "newID \<notin> gr_id ` set (tb_groups T)" "name \<notin> gr_name ` set (tb_groups T)" and T: "T' = ?T"
    using assms(2) by (simp_all add: store_CreateGroup_def group_ids_def split: if_splits)
  have "distinct (map gr_id (tb_groups ?T))" "distinct (map gr_name (tb_groups ?T))"
    using assms(1) new by (simp_all add: tables_ok_def distinct_new del: map_append)
  with assms(1) new(1) show ?thesis
    unfolding T tables_ok_def new_row_ids ids_update by (simp add: subset_insertI2 subset_iff)
qed

lemma create_list_keeps:
  assumes "tables_ok T" and "store_InsertBlocklist newID name sourceURL listType T = Some T'"
  shows "tables_ok T'"
proof -
  let ?row = "\<lparr>lr_id = newID, lr_name = name, lr_sourceURL = sourceURL, lr_type = listType, lr_active = True,
      lr_domainCount = 0\<rparr>"
  let ?T = "T\<lparr>tb_lists := tb_lists T @ [?row]\<rparr>"
  have new: "is_serial newID" "newID \<notin> lr_id ` set (tb_lists T)" and T: "T' = ?T"
    using assms(2) by (simp_all add: store_InsertBlocklist_def list_ids_def split: if_splits)
  have "distinct (map lr_id (tb_lists ?T))"
    using assms(1) new by (simp add: tables_ok_def distinct_new del: map_append)
  with assms(1) new(1) show ?thesis
    unfolding T tables_ok_def new_row_ids ids_update by (simp add: subset_iff)
qed

lemma create_range_keeps:
  assumes "tables_ok T" and "store_CreateIPRange lib newID cidr groupID authMode description T = Some T'"
  shows "tables_ok T'"
proof -
  from assms(2) obtain net where new: "is_serial newID" "newID \<notin> rr_id ` set (tb_ranges T)" "groupID \<in> group_ids T"
    and T: "T' = T\<lparr>tb_ranges := tb_ranges T @ [\<lparr>rr_id = newID, rr_cidr = net, rr_group = groupID, rr_mode = authMode,
        rr_description = description\<rparr>]\<rparr>"
    by (auto simp: store_CreateIPRange_def range_ids_def split: if_splits option.splits)
  have "distinct (map rr_id (tb_ranges T'))"
    using assms(1) new unfolding T by (simp add: tables_ok_def distinct_new del: map_append)
  with assms(1) new(1,3) show ?thesis
    unfolding T tables_ok_def new_row_ids ids_update by simp
qed

lemma deleted_ids:
  "group_ids (T\<lparr>tb_groups := filter (\<lambda>g. gr_id g \<noteq> i) (tb_groups T), tb_policies := p, tb_ranges := r\<rparr>) = group_ids T - {i}"
  "list_ids (T\<lparr>tb_entries := e, tb_lists := filter (\<lambda>l. lr_id l \<noteq> i) (tb_lists T), tb_listCategories := c\<rparr>) =
     list_ids T - {i}"
  "range_ids (T\<lparr>tb_groups := g, tb_policies := p, tb_ranges := filter P (tb_ranges T)\<rparr>) \<subseteq> range_ids T"
  "range_ids (T\<lparr>tb_ranges := filter P (tb_ranges T)\<rparr>) \<subseteq> range_ids T"
  by (auto simp: group_ids_def list_ids_def range_ids_def)

lemma delete_group_keeps:
  assumes "tables_ok T" and "store_DeleteGroup i T = Some T'"
  shows "tables_ok T'"
proof -
  have T: "T' = T\<lparr>tb_groups := filter (\<lambda>g. gr_id g \<noteq> i) (tb_groups T),
      tb_policies := filter (\<lambda>(g, _). g \<noteq> i) (tb_policies T), tb_ranges := filter (\<lambda>r. rr_group r \<noteq> i) (tb_ranges T)\<rparr>"
    using assms(2) by (simp add: store_DeleteGroup_def split: if_splits)
  have "range_ids T' \<subseteq> range_ids T" unfolding T by (rule deleted_ids(3))
  moreover have "set (tb_policies T') \<subseteq> (group_ids T - {i}) \<times> set (tb_categories T')"
    "rr_group ` set (tb_ranges T') \<subseteq> group_ids T - {i}"
    using assms(1) by (auto simp: T tables_ok_def)
  moreover have "distinct (map gr_id (tb_groups T'))" "distinct (map gr_name (tb_groups T'))"
    "distinct (map rr_id (tb_ranges T'))" "distinct (tb_policies T')"
    using assms(1) by (simp_all add: T tables_ok_def distinct_map_filter)
  moreover have "group_ids T' = group_ids T - {i}" unfolding T by (rule deleted_ids(1))
  moreover have "list_ids T' = list_ids T" unfolding T by simp
  ultimately show ?thesis using assms(1) unfolding tables_ok_def by (auto simp: T)
qed

lemma delete_list_keeps:
  assumes "tables_ok T" and "store_DeleteBlocklist i T = Some T'"
  shows "tables_ok T'"
proof -
  have T: "T' = T\<lparr>tb_entries := filter (\<lambda>(l, _). l \<noteq> i) (tb_entries T), tb_lists := filter (\<lambda>l. lr_id l \<noteq> i) (tb_lists T),
      tb_listCategories := filter (\<lambda>(l, _). l \<noteq> i) (tb_listCategories T)\<rparr>"
    using assms(2) by (simp add: store_DeleteBlocklist_def split: if_splits)
  have "fst ` set (tb_entries T') \<subseteq> list_ids T - {i}"
    "set (tb_listCategories T') \<subseteq> (list_ids T - {i}) \<times> set (tb_categories T')"
    using assms(1) by (auto simp: T tables_ok_def)
  moreover have "distinct (map lr_id (tb_lists T'))" "distinct (tb_entries T')" "distinct (tb_listCategories T')"
    using assms(1) by (simp_all add: T tables_ok_def distinct_map_filter)
  moreover have "list_ids T' = list_ids T - {i}" unfolding T by (rule deleted_ids(2))
  moreover have "group_ids T' = group_ids T" "range_ids T' = range_ids T" unfolding T by simp_all
  moreover have "tb_groups T' = tb_groups T" "tb_categories T' = tb_categories T" "tb_policies T' = tb_policies T"
    "tb_ranges T' = tb_ranges T" by (simp_all add: T)
  ultimately show ?thesis using assms(1) unfolding tables_ok_def by auto
qed

lemma delete_range_keeps:
  assumes "tables_ok T" and "store_DeleteIPRange i T = Some T'"
  shows "tables_ok T'"
proof -
  have T: "T' = T\<lparr>tb_ranges := filter (\<lambda>r. rr_id r \<noteq> i) (tb_ranges T)\<rparr>"
    using assms(2) by (simp add: store_DeleteIPRange_def split: if_splits)
  have "range_ids T' \<subseteq> range_ids T" unfolding T by (rule deleted_ids(4))
  moreover have "rr_group ` set (tb_ranges T') \<subseteq> group_ids T" "distinct (map rr_id (tb_ranges T'))"
    using assms(1) by (auto simp: T tables_ok_def distinct_map_filter)
  moreover have "group_ids T' = group_ids T" "list_ids T' = list_ids T" unfolding T by simp_all
  ultimately show ?thesis using assms(1) unfolding tables_ok_def by (auto simp: T)
qed

text \<open>A row that is changed keeps its key.\<close>

lemma update_group_keeps:
  assumes "tables_ok T" and "store_UpdateGroup i name description T = Some T'"
  shows "tables_ok T'"
proof -
  let ?f = "\<lambda>g. if gr_id g = i then g\<lparr>gr_name := name, gr_description := description\<rparr> else g"
  have T: "T' = T\<lparr>tb_groups := map ?f (tb_groups T)\<rparr>"
    and free: "i \<notin> group_ids T \<or> name \<notin> gr_name ` {g \<in> set (tb_groups T). gr_id g \<noteq> i}"
    using assms(2) by (auto simp: store_UpdateGroup_def split: if_splits)
  have keys: "map gr_id (tb_groups T') = map gr_id (tb_groups T)"
    unfolding T using update_rows(1) by simp
  then have ids: "group_ids T' = group_ids T" by (simp only: ids_of_rows)
  have ok: "distinct (map gr_id (tb_groups T))" "distinct (map gr_name (tb_groups T))"
    using assms(1) by (simp_all add: tables_ok_def)
  have names: "map gr_name (tb_groups T') = map (\<lambda>g. if gr_id g = i then name else gr_name g) (tb_groups T)"
    unfolding T using update_rows(2) by simp
  have "distinct (map gr_name (tb_groups T'))"
  proof (cases "i \<in> group_ids T")
    case True
    with free show ?thesis unfolding names using group_names_update [OF ok] by blast
  next
    case False
    then have same: "map (\<lambda>g. if gr_id g = i then name else gr_name g) (tb_groups T) = map gr_name (tb_groups T)"
      by (auto simp: group_ids_def)
    show ?thesis unfolding names same by (rule ok)
  qed
  moreover have "tb_categories T' = tb_categories T" "tb_lists T' = tb_lists T" "tb_ranges T' = tb_ranges T"
    "tb_policies T' = tb_policies T" "tb_entries T' = tb_entries T" "tb_listCategories T' = tb_listCategories T"
    "list_ids T' = list_ids T" "range_ids T' = range_ids T" by (simp_all add: T)
  ultimately show ?thesis using assms(1) unfolding tables_ok_def keys ids by simp
qed

lemma update_list_keeps:
  assumes "tables_ok T" and "store_UpdateBlocklist i name active T = Some T'"
  shows "tables_ok T'"
proof -
  have T: "T' = T\<lparr>tb_lists := map (\<lambda>l. if lr_id l = i then l\<lparr>lr_name := name, lr_active := active\<rparr> else l) (tb_lists T)\<rparr>"
    using assms(2) by (auto simp: store_UpdateBlocklist_def split: if_splits)
  have keys: "map lr_id (tb_lists T') = map lr_id (tb_lists T)"
    unfolding T using update_rows(3) by simp
  then have ids: "list_ids T' = list_ids T" by (simp only: ids_of_rows)
  have "tb_categories T' = tb_categories T" "tb_groups T' = tb_groups T" "tb_ranges T' = tb_ranges T"
    "tb_policies T' = tb_policies T" "tb_entries T' = tb_entries T" "tb_listCategories T' = tb_listCategories T"
    "group_ids T' = group_ids T" "range_ids T' = range_ids T" by (simp_all add: T)
  then show ?thesis using assms(1) unfolding tables_ok_def keys ids by simp
qed

lemma update_range_keeps:
  assumes "tables_ok T" and "store_UpdateIPRange lib i cidr groupID authMode description T = Some T'"
  shows "tables_ok T'"
proof -
  from assms(2) obtain net where
    T: "T' = T\<lparr>tb_ranges := map (\<lambda>r. if rr_id r = i then r\<lparr>rr_cidr := net, rr_group := groupID, rr_mode := authMode,
        rr_description := description\<rparr> else r) (tb_ranges T)\<rparr>" and g: "i \<notin> range_ids T \<or> groupID \<in> group_ids T"
    by (auto simp: store_UpdateIPRange_def split: if_splits option.splits)
  have keys: "map rr_id (tb_ranges T') = map rr_id (tb_ranges T)"
    unfolding T using update_rows(4) by simp
  then have ids: "range_ids T' = range_ids T" by (simp only: ids_of_rows)
  have "rr_group ` set (tb_ranges T') \<subseteq> group_ids T"
    using assms(1) g by (auto simp: T tables_ok_def range_ids_def)
  moreover have "tb_categories T' = tb_categories T" "tb_groups T' = tb_groups T" "tb_lists T' = tb_lists T"
    "tb_policies T' = tb_policies T" "tb_entries T' = tb_entries T" "tb_listCategories T' = tb_listCategories T"
    "group_ids T' = group_ids T" "list_ids T' = list_ids T" by (simp_all add: T)
  ultimately show ?thesis using assms(1) unfolding tables_ok_def keys ids by simp
qed

interpretation create_group: transaction "\<lambda>(newID, name, description). store_CreateGroup newID name description"
  by unfold_locales (auto intro: create_group_keeps)

interpretation update_group: transaction "\<lambda>(i, name, description). store_UpdateGroup i name description"
  by unfold_locales (auto intro: update_group_keeps)

interpretation delete_group: transaction store_DeleteGroup
  by unfold_locales (rule delete_group_keeps)

interpretation create_list: transaction "\<lambda>(newID, name, url, listType). store_InsertBlocklist newID name url listType"
  by unfold_locales (auto intro: create_list_keeps)

interpretation update_list: transaction "\<lambda>(i, name, active). store_UpdateBlocklist i name active"
  by unfold_locales (auto intro: update_list_keeps)

interpretation delete_list: transaction store_DeleteBlocklist
  by unfold_locales (rule delete_list_keeps)

interpretation create_range: transaction
  "\<lambda>(lib, newID, cidr, groupID, authMode, description). store_CreateIPRange lib newID cidr groupID authMode description"
  by unfold_locales (auto intro: create_range_keeps)

interpretation update_range: transaction
  "\<lambda>(lib, i, cidr, groupID, authMode, description). store_UpdateIPRange lib i cidr groupID authMode description"
  by unfold_locales (auto intro: update_range_keeps)

interpretation delete_range: transaction store_DeleteIPRange
  by unfold_locales (rule delete_range_keeps)

interpretation set_policy: transaction "\<lambda>(g, cats). store_SetGroupPolicy g cats"
  by unfold_locales (auto simp: store_changes tables_ok_put split: if_splits)

interpretation set_categories: transaction "\<lambda>(l, cats). store_SetBlocklistCategories l cats"
  by unfold_locales (auto simp: store_changes tables_ok_put split: if_splits)

interpretation add_entries: transaction "\<lambda>(l, ds) T. map_option snd (store_InsertBlocklistEntries l ds T)"
  by unfold_locales (auto simp: store_changes tables_ok_put split: if_splits)

end
