(* ===== verification/ConfigStore.thy ===== *)
theory ConfigStore
  imports AdminStore ServerConfig
begin

text \<open>
  The handlers of \<open>internal/api/handlers.go\<close> for policies, categories and entries, the way of a request through the
  routes to the handlers, and what a reload of the DNS server reads from the tables. A
  query without an order may return its rows in any order, so what a reload reads is a relation.
\<close>

subsection \<open>Handlers\<close>

text \<open>The status of the reply, the tables, and whether a trigger sends a notification when the transaction ends. The
  triggers are on \<open>blocklists\<close>, \<open>blocklist_entries\<close>, \<open>policies\<close> and \<open>ip_ranges\<close>, once per statement.\<close>

definition handle_SetGroupPolicy :: "jsstr \<Rightarrow> json option \<Rightarrow> tables \<Rightarrow> nat \<times> tables \<times> bool" where
  "handle_SetGroupPolicy idParam body T =
     (case Atoi idParam of
        None \<Rightarrow> (400, T, False)
      | Some groupID \<Rightarrow>
          (case decode_field decode_int (js ''categories'') body of
             None \<Rightarrow> (400, T, False)
           | Some categories \<Rightarrow>
               (case store_SetGroupPolicy groupID categories T of
                  None \<Rightarrow> (500, T, False)
                | Some T' \<Rightarrow> (200, T', True))))"

definition handle_SetBlocklistCategories :: "jsstr \<Rightarrow> json option \<Rightarrow> tables \<Rightarrow> nat \<times> tables \<times> bool" where
  "handle_SetBlocklistCategories idParam body T =
     (case Atoi idParam of
        None \<Rightarrow> (400, T, False)
      | Some listID \<Rightarrow>
          (case decode_field decode_int (js ''categories'') body of
             None \<Rightarrow> (400, T, False)
           | Some categories \<Rightarrow>
               (case store_SetBlocklistCategories listID categories T of
                  None \<Rightarrow> (500, T, False)
                | Some T' \<Rightarrow> (200, T', False))))"

definition handle_AddEntries :: "jsstr \<Rightarrow> json option \<Rightarrow> tables \<Rightarrow> nat \<times> tables \<times> bool" where
  "handle_AddEntries idParam body T =
     (case Atoi idParam of
        None \<Rightarrow> (400, T, False)
      | Some listID \<Rightarrow>
          (case decode_field decode_string (js ''domains'') body of
             None \<Rightarrow> (400, T, False)
           | Some domains \<Rightarrow>
               (case store_InsertBlocklistEntries listID domains T of
                  None \<Rightarrow> (500, T, False)
                | Some (count, T') \<Rightarrow> (200, T', domains \<noteq> []))))"

definition policy_reply :: "int \<Rightarrow> int list \<Rightarrow> json" where
  "policy_reply groupID cats =
     JObj [(js ''blocked_categories'', JArr (map JNum cats)), (js ''group_id'', JNum groupID)]"

definition list_categories_reply :: "int \<Rightarrow> int list \<Rightarrow> json" where
  "list_categories_reply listID cats =
     JObj [(js ''categories'', JArr (map JNum cats)), (js ''list_id'', JNum listID)]"

definition handle_GetGroupPolicy :: "jsstr \<Rightarrow> tables \<Rightarrow> nat \<times> json option" where
  "handle_GetGroupPolicy idParam T =
     (case Atoi idParam of
        None \<Rightarrow> (400, None)
      | Some groupID \<Rightarrow>
          (case GetGroupBlockedCategories groupID T of
             None \<Rightarrow> (500, None)
           | Some cats \<Rightarrow> (200, Some (policy_reply groupID cats))))"

definition handle_GetBlocklistCategories :: "jsstr \<Rightarrow> tables \<Rightarrow> nat \<times> json option" where
  "handle_GetBlocklistCategories idParam T =
     (case Atoi idParam of
        None \<Rightarrow> (400, None)
      | Some listID \<Rightarrow>
          (case store_GetBlocklistCategories listID T of
             None \<Rightarrow> (500, None)
           | Some cats \<Rightarrow> (200, Some (list_categories_reply listID cats))))"

text \<open>The request of a page at the router: the first route that matches, with the segment in place of its
  parameter. A new row takes \<open>newID\<close>, the next value of the sequence of its table. \<open>None\<close> stands for the other
  endpoints, which do not change these tables.\<close>

definition url_param :: "seg list \<Rightarrow> jsstr \<Rightarrow> jsstr" where
  "url_param p url = (case find (\<lambda>(s, _). s = Param) (zip p (path_segments url)) of None \<Rightarrow> [] | Some (_, x) \<Rightarrow> x)"

definition route_of :: "request \<Rightarrow> route option" where
  "route_of q =
     find (\<lambda>rt. rt_method rt = req_method q \<and> instance_of (rt_pattern rt) (js ''/api'' @ req_url q)) NewRouter"

definition api_change :: "net_lib \<Rightarrow> int \<Rightarrow> request \<Rightarrow> tables \<Rightarrow> (nat \<times> tables \<times> bool) option" where
  "api_change lib newID q T =
     Option.bind (route_of q) (\<lambda>rt.
       let idParam = url_param (rt_pattern rt) (js ''/api'' @ req_url q)
       in case rt_endpoint rt of
            Backend.SetGroupPolicy \<Rightarrow> Some (handle_SetGroupPolicy idParam (req_body q) T)
          | Backend.SetBlocklistCategories \<Rightarrow> Some (handle_SetBlocklistCategories idParam (req_body q) T)
          | Backend.AddEntries \<Rightarrow> Some (handle_AddEntries idParam (req_body q) T)
          | Backend.CreateGroup \<Rightarrow> Some (handle_CreateGroup newID (req_body q) T)
          | Backend.UpdateGroup \<Rightarrow> Some (handle_UpdateGroup idParam (req_body q) T)
          | Backend.DeleteGroup \<Rightarrow> Some (handle_DeleteGroup idParam T)
          | Backend.CreateBlocklist \<Rightarrow> Some (handle_CreateBlocklist newID (req_body q) T)
          | Backend.UpdateBlocklist \<Rightarrow> Some (handle_UpdateBlocklist idParam (req_body q) T)
          | Backend.DeleteBlocklist \<Rightarrow> Some (handle_DeleteBlocklist idParam T)
          | Backend.CreateRange \<Rightarrow> Some (fst (handle_CreateRange lib newID (req_body q) T))
          | Backend.UpdateRange \<Rightarrow> Some (handle_UpdateRange lib idParam (req_body q) T)
          | Backend.DeleteRange \<Rightarrow> Some (handle_DeleteRange idParam T)
          | _ \<Rightarrow> None)"

definition api_read :: "request \<Rightarrow> tables \<Rightarrow> (nat \<times> json option) option" where
  "api_read q T =
     Option.bind (route_of q) (\<lambda>rt.
       let idParam = url_param (rt_pattern rt) (js ''/api'' @ req_url q)
       in case rt_endpoint rt of
            Backend.GetGroupPolicy \<Rightarrow> Some (handle_GetGroupPolicy idParam T)
          | Backend.GetBlocklistCategories \<Rightarrow> Some (handle_GetBlocklistCategories idParam T)
          | _ \<Rightarrow> None)"

subsection \<open>What a reload reads\<close>

definition entry_rows :: "tables \<Rightarrow> (string \<times> int) set" where
  "entry_rows T =
     {(d, t). \<exists>listID. (listID, d) \<in> set (tb_entries T) \<and> active_list T listID t \<and>
        listID \<notin> fst ` set (tb_listCategories T)}"

definition category_rows :: "tables \<Rightarrow> (int \<times> string) set" where
  "category_rows T =
     {(c, d). \<exists>listID t. (listID, c) \<in> set (tb_listCategories T) \<and> (listID, d) \<in> set (tb_entries T) \<and>
        active_list T listID t}"

definition reads_tables :: "tables \<Rightarrow> config \<Rightarrow> (int \<times> string list) list \<Rightarrow> bool" where
  "reads_tables T cfg order \<longleftrightarrow>
     (\<exists>rows crows prows. cf_entries cfg = Some rows \<and> set rows = entry_rows T \<and>
        cf_categories cfg = Some crows \<and> set crows = category_rows T \<and>
        cf_policies cfg = Some prows \<and> set prows = set (tb_policies T) \<and>
        map_order (LoadCategoryDomains crows) order)"

text \<open>What the tables and the two files say about a name: a white row wins, then a black one, then a policy of the
  group against the category of the most specific row.\<close>

definition nearest_listed :: "tables \<Rightarrow> string \<Rightarrow> int \<Rightarrow> string \<Rightarrow> bool" where
  "nearest_listed T d c x \<longleftrightarrow> (c, x) \<in> category_rows T \<and> row_applies d x \<and>
     (\<forall>(c', x') \<in> category_rows T. row_applies d x' \<longrightarrow>
        length (normalize_domain x') \<le> length (normalize_domain x))"

definition rows_cover :: "int \<Rightarrow> string option \<Rightarrow> tables \<Rightarrow> string \<Rightarrow> bool" where
  "rows_cover listType file T d \<longleftrightarrow>
     (\<exists>x. ((x, listType) \<in> entry_rows T \<or> x \<in> set (file_domains file)) \<and>
        is_below (normalize_domain d) (normalize_domain x))"

definition tables_block :: "tables \<Rightarrow> config \<Rightarrow> string \<Rightarrow> int \<Rightarrow> bool" where
  "tables_block T cfg d g \<longleftrightarrow>
     \<not> rows_cover 1 (cf_allowFile cfg) T d \<and>
     (rows_cover 0 (cf_blockFile cfg) T d \<or>
      0 < g \<and> (\<exists>c x. nearest_listed T d c x \<and> (g, c) \<in> set (tb_policies T)))"

definition category_unique :: "tables \<Rightarrow> bool" where
  "category_unique T \<longleftrightarrow>
     (\<forall>(c, x) \<in> category_rows T. \<forall>(c', x') \<in> category_rows T. normalize_domain x = normalize_domain x' \<longrightarrow> c = c')"

subsection \<open>From a page to the tables\<close>

lemma decode_all_map: "(\<And>x. x \<in> set xs \<Longrightarrow> f (g x) = Some (h x)) \<Longrightarrow> decode_all f (map g xs) = Some (map h xs)"
  by (induction xs) simp_all

lemma decode_categories:
  assumes "list_all in_int64 cats"
  shows "decode_field decode_int (js ''categories'') (Some (JObj [(js ''categories'', JArr (map JNum cats))])) = Some cats"
proof -
  have "toLowerCase (js ''categories'') = js ''categories''"
    by (simp add: toLowerCase_def lower_unit_def js.simps)
  then show ?thesis
    using assms decode_all_map [of cats decode_int JNum id] by (simp add: list_all_iff)
qed

lemma decode_domains:
  "decode_field decode_string (js ''domains'') (Some (JObj [(js ''domains'', JArr (map JStr ds))])) =
     Some (map go_string ds)"
proof -
  have "toLowerCase (js ''domains'') = js ''domains''"
    by (simp add: toLowerCase_def lower_unit_def js.simps)
  then show ?thesis
    using decode_all_map [of ds decode_string JStr go_string] by simp
qed

lemma sub_segments:
  "path_segments (js ''/api'' @ js ''/groups/'' @ num_str n @ js ''/policy'') =
     [js ''api'', js ''groups'', num_str n, js ''policy'']"
  "path_segments (js ''/api'' @ js ''/lists/'' @ num_str n @ js ''/entries'') =
     [js ''api'', js ''lists'', num_str n, js ''entries'']"
  "path_segments (js ''/api'' @ js ''/lists/'' @ num_str n @ js ''/categories'') =
     [js ''api'', js ''lists'', num_str n, js ''categories'']"
  using segments_id(2) [of "js ''/api/groups''" "js ''policy''", OF _ _ refl refl, of n]
    segments_id(2) [of "js ''/api/lists''" "js ''entries''", OF _ _ refl refl, of n]
    segments_id(2) [of "js ''/api/lists''" "js ''categories''", OF _ _ refl refl, of n]
  by (simp_all add: js.simps)

lemma request_segments:
  "path_segments (js ''/api'' @ req_url (policy_put n cats)) = [js ''api'', js ''groups'', num_str n, js ''policy'']"
  "path_segments (js ''/api'' @ req_url (entries_post n ds)) = [js ''api'', js ''lists'', num_str n, js ''entries'']"
  "path_segments (js ''/api'' @ req_url (list_cats_put n cats)) =
     [js ''api'', js ''lists'', num_str n, js ''categories'']"
  "path_segments (js ''/api'' @ req_url (policy_get n)) = [js ''api'', js ''groups'', num_str n, js ''policy'']"
  "path_segments (js ''/api'' @ req_url (list_cats_get n)) = [js ''api'', js ''lists'', num_str n, js ''categories'']"
  by (simp_all add: policy_put_def entries_post_def list_cats_put_def policy_get_def list_cats_get_def sub_segments)

lemma request_methods:
  "req_method (policy_get n) = GET" "req_method (list_cats_get n) = GET"
  "req_method (policy_put n cats) = PUT" "req_method (entries_post n ds) = POST"
  "req_method (list_cats_put n cats) = PUT"
  by (simp_all add: policy_put_def entries_post_def list_cats_put_def policy_get_def list_cats_get_def)

lemma route_of_sub:
  "route_of (policy_put n cats) =
     Some (api_route PUT [Lit (js ''groups''), Param, Lit (js ''policy'')] Admin Backend.SetGroupPolicy)"
  "route_of (entries_post n ds) =
     Some (api_route POST [Lit (js ''lists''), Param, Lit (js ''entries'')] Admin Backend.AddEntries)"
  "route_of (list_cats_put n cats) =
     Some (api_route PUT [Lit (js ''lists''), Param, Lit (js ''categories'')] Admin Backend.SetBlocklistCategories)"
  "route_of (policy_get n) =
     Some (api_route GET [Lit (js ''groups''), Param, Lit (js ''policy'')] Admin Backend.GetGroupPolicy)"
  "route_of (list_cats_get n) =
     Some (api_route GET [Lit (js ''lists''), Param, Lit (js ''categories'')] Admin Backend.GetBlocklistCategories)"
  unfolding route_of_def instance_of_def request_segments request_methods table_defs
  by (simp_all add: route_defs js.simps)

lemma url_param_sub:
  "url_param (Lit (js ''api'') # [Lit (js ''groups''), Param, Lit (js ''policy'')])
     (js ''/api'' @ req_url (policy_put n cats)) = num_str n"
  "url_param (Lit (js ''api'') # [Lit (js ''lists''), Param, Lit (js ''entries'')])
     (js ''/api'' @ req_url (entries_post n ds)) = num_str n"
  "url_param (Lit (js ''api'') # [Lit (js ''lists''), Param, Lit (js ''categories'')])
     (js ''/api'' @ req_url (list_cats_put n cats)) = num_str n"
  "url_param (Lit (js ''api'') # [Lit (js ''groups''), Param, Lit (js ''policy'')])
     (js ''/api'' @ req_url (policy_get n)) = num_str n"
  "url_param (Lit (js ''api'') # [Lit (js ''lists''), Param, Lit (js ''categories'')])
     (js ''/api'' @ req_url (list_cats_get n)) = num_str n"
  by (simp_all add: url_param_def request_segments)

text \<open>What the three requests of the pages do to the tables.\<close>

lemma api_change_requests:
  "api_change lib newID (policy_put n cats) T = Some (handle_SetGroupPolicy (num_str n) (req_body (policy_put n cats)) T)"
  "api_change lib newID (entries_post n ds) T = Some (handle_AddEntries (num_str n) (req_body (entries_post n ds)) T)"
  "api_change lib newID (list_cats_put n cats) T =
     Some (handle_SetBlocklistCategories (num_str n) (req_body (list_cats_put n cats)) T)"
  "api_read (policy_get n) T = Some (handle_GetGroupPolicy (num_str n) T)"
  "api_read (list_cats_get n) T = Some (handle_GetBlocklistCategories (num_str n) T)"
  using url_param_sub by (simp_all add: api_change_def api_read_def route_of_sub route_defs Let_def)

lemma request_bodies:
  "req_body (policy_put n cats) = Some (JObj [(js ''categories'', JArr (map JNum cats))])"
  "req_body (list_cats_put n cats) = Some (JObj [(js ''categories'', JArr (map JNum cats))])"
  "req_body (entries_post n ds) = Some (JObj [(js ''domains'', JArr (map JStr ds))])"
  by (simp_all add: policy_put_def entries_post_def list_cats_put_def)

text \<open>The answers to the three requests that the pages send.\<close>

lemma api_change_effects:
  assumes "in_int32 n" and "list_all in_int64 cats"
  shows "api_change lib newID (policy_put n cats) T = Some
      (if cats = [] \<or> n \<in> group_ids T \<and> set cats \<subseteq> set (tb_categories T)
       then (200, put_policy n cats T, True) else (500, T, False))"
    and "api_change lib newID (list_cats_put n cats) T = Some
      (if cats = [] \<or> n \<in> list_ids T \<and> set cats \<subseteq> set (tb_categories T)
       then (200, put_list_categories n cats T, False) else (500, T, False))"
    and "api_change lib newID (entries_post n ds) T = Some
      (if ds = [] then (200, T, False)
       else if n \<in> list_ids T \<and> list_all (domain_fits \<circ> go_string) ds
       then (200, put_entries n (map go_string ds) T, True) else (500, T, False))"
  unfolding api_change_requests handle_SetGroupPolicy_def handle_SetBlocklistCategories_def handle_AddEntries_def
    request_bodies Atoi_num_str [OF int32_int64 [OF assms(1)]] decode_categories [OF assms(2)] decode_domains store_changes
  by (simp_all add: list.pred_map assms(1))

lemma serial_int: "is_serial n \<Longrightarrow> in_int32 n \<and> in_int64 n"
  by (simp add: is_serial_def in_int64_def in_int32_def)

lemma tables_ok_serial:
  assumes "tables_ok T"
  shows "g \<in> group_ids T \<Longrightarrow> is_serial g" "c \<in> set (tb_categories T) \<Longrightarrow> is_serial c"
    "l \<in> list_ids T \<Longrightarrow> is_serial l"
  using assms by (auto simp: tables_ok_def)

lemma active_list_id: "active_list T l t \<Longrightarrow> l \<in> list_ids T"
  by (auto simp: active_list_def list_ids_def)

lemma blocked_categories_put:
  assumes "distinct cats"
  shows "in_int32 g' \<Longrightarrow>
      GetGroupBlockedCategories g' (put_policy g cats T) = (if g' = g then Some cats else GetGroupBlockedCategories g' T)"
    and "in_int32 l' \<Longrightarrow> store_GetBlocklistCategories l' (put_list_categories l cats T) =
      (if l' = l then Some cats else store_GetBlocklistCategories l' T)"
proof -
  have rows: "map snd (filter (\<lambda>(k', _). k' = k'') (fold insert_row (map (Pair k) cats) (filter (\<lambda>(k', _). k' \<noteq> k) xs))) =
      (if k'' = k then cats else map snd (filter (\<lambda>(k', _). k' = k'') xs))" for k k'' :: int and xs
  proof -
    let ?others = "filter (\<lambda>(k', _). k' \<noteq> k) xs"
    have "fold insert_row (map (Pair k) cats) ?others = ?others @ map (Pair k) cats"
      by (rule insert_rows(3)) (use assms in \<open>auto simp: distinct_map inj_on_def\<close>)
    moreover have "filter (\<lambda>(k', _). k' = k) ?others = []" by (auto simp: filter_empty_conv)
    moreover have "filter (\<lambda>(k', _). k' = k'') ?others = filter (\<lambda>(k', _). k' = k'') xs" if "k'' \<noteq> k"
      using that by (auto simp: intro: filter_cong)
    ultimately show ?thesis by (auto simp: filter_map o_def)
  qed
  show "in_int32 g' \<Longrightarrow>
      GetGroupBlockedCategories g' (put_policy g cats T) = (if g' = g then Some cats else GetGroupBlockedCategories g' T)"
    by (simp add: GetGroupBlockedCategories_def put_policy_def rows)
  show "in_int32 l' \<Longrightarrow> store_GetBlocklistCategories l' (put_list_categories l cats T) =
      (if l' = l then Some cats else store_GetBlocklistCategories l' T)"
    by (simp add: store_GetBlocklistCategories_def put_list_categories_def rows)
qed

subsection \<open>Every answer\<close>

lemma handlers_answered:
  assumes "tables_ok T"
  shows "answered T (handle_SetGroupPolicy idParam body T)" "answered T (handle_SetBlocklistCategories idParam body T)"
    "answered T (handle_AddEntries idParam body T)" "answered T (handle_CreateGroup newID body T)"
    "answered T (handle_UpdateGroup idParam body T)" "answered T (handle_DeleteGroup idParam T)"
    "answered T (handle_CreateBlocklist newID body T)" "answered T (handle_UpdateBlocklist idParam body T)"
    "answered T (handle_DeleteBlocklist idParam T)" "answered T (fst (handle_CreateRange lib newID body T))"
    "answered T (handle_UpdateRange lib idParam body T)" "answered T (handle_DeleteRange idParam T)"
proof -
  note refused = answered_refused [OF assms] and ok = assms
  show "answered T (handle_SetGroupPolicy idParam body T)"
    unfolding handle_SetGroupPolicy_def
    by (auto simp: refused answered_def [of _ "(200, _)"] dest: set_policy.keeps [OF ok, of "(_, _)", simplified]
        split: option.split)
  show "answered T (handle_SetBlocklistCategories idParam body T)"
    unfolding handle_SetBlocklistCategories_def
    by (auto simp: refused answered_def [of _ "(200, _)"] dest: set_categories.keeps [OF ok, of "(_, _)", simplified]
        split: option.split)
  have entries: "tables_ok T'" if "store_InsertBlocklistEntries l ds T = Some (n, T')" for l ds n T'
    using add_entries.keeps [OF ok, of "(l, ds)" T'] that by simp
  show "answered T (handle_AddEntries idParam body T)"
    unfolding handle_AddEntries_def
    by (auto simp: refused answered_def [of _ "(200, _)"] dest: entries split: option.split)
  show "answered T (handle_CreateGroup newID body T)"
    using create_group.respond_answered [OF ok, of 201 _ "(newID, _, _)"]
    by (auto simp: handle_CreateGroup_def refused split: option.split)
  show "answered T (handle_UpdateGroup idParam body T)"
    using update_group.respond_answered [OF ok, of 200 _ "(_, _, _)"]
    by (auto simp: handle_UpdateGroup_def refused intro!: with_id_answered ok split: option.split)
  show "answered T (handle_DeleteGroup idParam T)"
    using delete_group.respond_answered [OF ok, of 200]
    by (auto simp: handle_DeleteGroup_def intro!: with_id_answered ok)
  show "answered T (handle_CreateBlocklist newID body T)"
    using create_list.respond_answered [OF ok, of 201 _ "(newID, _, _, _)"]
    by (auto simp: handle_CreateBlocklist_def refused split: option.split)
  show "answered T (handle_UpdateBlocklist idParam body T)"
    using update_list.respond_answered [OF ok, of 200 _ "(_, _, _)"]
    by (auto simp: handle_UpdateBlocklist_def refused intro!: with_id_answered ok split: option.split)
  show "answered T (handle_DeleteBlocklist idParam T)"
    using delete_list.respond_answered [OF ok, of 200]
    by (auto simp: handle_DeleteBlocklist_def intro!: with_id_answered ok)
  show "answered T (fst (handle_CreateRange lib newID body T))"
    using create_range.keeps [OF ok, of "(lib, newID, _, _, _, _)"]
    by (auto simp: handle_CreateRange_def refused answered_def [of _ "(201, _)"] split: option.split)
  show "answered T (handle_UpdateRange lib idParam body T)"
    using update_range.respond_answered [OF ok, of 200 _ "(lib, _, _, _, _, _)"]
    by (auto simp: handle_UpdateRange_def refused intro!: with_id_answered ok split: option.split)
  show "answered T (handle_DeleteRange idParam T)"
    using delete_range.respond_answered [OF ok, of 200]
    by (auto simp: handle_DeleteRange_def intro!: with_id_answered ok)
qed

lemma api_change_answered:
  assumes "tables_ok T" and "api_change lib newID q T = Some r"
  shows "answered T r"
proof (cases "route_of q")
  case None
  with assms show ?thesis by (simp add: api_change_def)
next
  case (Some rt)
  with assms(2) handlers_answered [OF assms(1)] show ?thesis
    by (cases "rt_endpoint rt") (auto simp: api_change_def Let_def)
qed

end
