(* ===== verification/ConfigApi.thy ===== *)
theory ConfigApi
  imports ConfigStore
begin

text \<open>
  What a change of the configuration means for the answers of the DNS server: the tables of \<open>ConfigStore\<close> and the files
  decide each query after a reload, and a click on the groups page or the lists page ends in the tables and so in that
  decision. Also what is refused, what is read back, and three places where the code surprises.
\<close>

subsection \<open>From the tables to a decision\<close>

lemma reads_decide:
  assumes "reads_tables T cfg order" and "category_unique T" and "proper_name d"
  shows "fr_action (EvaluateForGroup (server_engine (ops @ on_notify cfg order)) d g) = ActionBlock \<longleftrightarrow>
    tables_block T cfg d g"
proof -
  from assms(1) obtain rows crows prows where cfg: "cf_entries cfg = Some rows" "cf_categories cfg = Some crows"
      "cf_policies cfg = Some prows" "map_order (LoadCategoryDomains crows) order"
    and rows: "set rows = entry_rows T" "set crows = category_rows T" "set prows = set (tb_policies T)"
    by (auto simp: reads_tables_def)
  have "one_category crows"
    using assms(2) unfolding one_category_def category_unique_def rows(2) [symmetric] by force
  note dec = config_decision [OF cfg this assms(3) refl refl, of ops g]
  have listed: "x \<in> set (fst (LoadActiveBlocklistEntries rows)) \<longleftrightarrow> (x, 0) \<in> entry_rows T"
    "x \<in> set (snd (LoadActiveBlocklistEntries rows)) \<longleftrightarrow> (x, 1) \<in> entry_rows T" for x
    unfolding rows(1) [symmetric] by (force simp: LoadActiveBlocklistEntries_def)+
  have near: "nearest_row crows d (c, x) \<longleftrightarrow> nearest_listed T d c x" for c x
    by (auto simp: nearest_row_def nearest_listed_def rows(2))
  show ?thesis
    unfolding dec tables_block_def rows_cover_def near rows(3) bex_Un Bex_def listed Un_iff by blast
qed

lemma reads_black:
  assumes "reads_tables T cfg order" and "(x, 0) \<in> entry_rows T"
    and "is_below (normalize_domain d) (normalize_domain x)"
  shows "covered (e_blacklist (server_engine (ops @ on_notify cfg order))) d"
proof -
  from assms(1) obtain rows where rows: "cf_entries cfg = Some rows" "set rows = entry_rows T"
    by (auto simp: reads_tables_def)
  with assms(2) have "x \<in> set (fst (LoadActiveBlocklistEntries rows))"
    by (force simp: LoadActiveBlocklistEntries_def)
  with assms(3) show ?thesis unfolding covered_names notify_lists(1) [OF rows(1)] by blast
qed

lemma read_effects:
  assumes "in_int32 n"
  shows "api_read (policy_get n) T =
      Some (200, Some (policy_reply n (map snd (filter (\<lambda>(g, _). g = n) (tb_policies T)))))"
    and "api_read (list_cats_get n) T =
      Some (200, Some (list_categories_reply n (map snd (filter (\<lambda>(l, _). l = n) (tb_listCategories T)))))"
  by (simp_all add: api_change_requests handle_GetGroupPolicy_def handle_GetBlocklistCategories_def
      Atoi_num_str [OF int32_int64 [OF assms]] GetGroupBlockedCategories_def store_GetBlocklistCategories_def assms)

text \<open>What the page is given for each group when the server answers from the tables.\<close>

definition answers_from :: "tables \<Rightarrow> (int \<Rightarrow> int payload) \<Rightarrow> bool" where
  "answers_from T P \<longleftrightarrow>
     (\<forall>g cats. api_read (policy_get g) T = Some (200, Some (policy_reply g cats)) \<longrightarrow> P g = Arr cats)"

lemma answers_policy:
  assumes "answers_from T P" and "in_int32 g"
  shows "c \<in> set (array_or_empty (P g)) \<longleftrightarrow> (g, c) \<in> set (tb_policies T)"
proof -
  from assms(1) read_effects(1) [OF assms(2), of T]
  have "P g = Arr (map snd (filter (\<lambda>(g', _). g' = g) (tb_policies T)))"
    unfolding answers_from_def by blast
  then show ?thesis by force
qed

subsection \<open>Properties\<close>


text \<open>A small database: list 5 belongs to category 2, and group 7 has a policy against category 4.\<close>

definition demo_tables :: tables where
  "demo_tables =
     \<lparr>tb_groups = [\<lparr>gr_id = 1, gr_name = ''default'', gr_description = []\<rparr>,
        \<lparr>gr_id = 7, gr_name = ''lab'', gr_description = []\<rparr>],
      tb_categories = [2, 4], tb_policies = [(7, 4)],
      tb_lists = [\<lparr>lr_id = 1, lr_name = ''local'', lr_sourceURL = [], lr_type = 0, lr_active = True,
          lr_domainCount = 0\<rparr>,
        \<lparr>lr_id = 5, lr_name = ''bets'', lr_sourceURL = [], lr_type = 0, lr_active = True, lr_domainCount = 1\<rparr>],
      tb_entries = [(5, ''bet.org'')], tb_listCategories = [(5, 2)], tb_ranges = []\<rparr>"

text \<open>The requests of the demonstrations create no range.\<close>

definition demo_net :: net_lib where
  "demo_net = \<lparr>nl_ParseCIDR = (\<lambda>_. None), nl_cidr = (\<lambda>_. None)\<rparr>"

lemma demo_tables_rows:
  "tables_ok demo_tables" "category_rows demo_tables = {(2, ''bet.org'')}" "entry_rows demo_tables = {}"
  "category_unique demo_tables" "active_list demo_tables 1 0"
proof -
  show rows: "category_rows demo_tables = {(2, ''bet.org'')}" "entry_rows demo_tables = {}"
    by (auto simp: demo_tables_def category_rows_def entry_rows_def active_list_def)
  show "tables_ok demo_tables" by (auto simp: demo_tables_def tables_ok_def list_ids_def group_ids_def range_ids_def is_serial_def)
  show "category_unique demo_tables" by (simp add: category_unique_def rows)
  show "active_list demo_tables 1 0" by (simp add: demo_tables_def active_list_def)
qed

lemma demo_answers: "answers_from T (\<lambda>g. Arr (map snd (filter (\<lambda>(g', _). g' = g) (tb_policies T))))"
  by (auto simp: answers_from_def api_change_requests handle_GetGroupPolicy_def GetGroupBlockedCategories_def
      policy_reply_def simp flip: map_map split: option.splits if_splits)

lemma demo_bet:
  "normalize_domain ''bet.org'' = ''bet.org.''" "proper_name ''www.bet.org''" "row_applies ''www.bet.org'' ''bet.org''"
  "\<not> rows_cover 1 None demo_tables ''www.bet.org''"
proof -
  have n: "normalize_domain ''www.bet.org'' = ''www.bet.org.''" by code_simp
  show b: "normalize_domain ''bet.org'' = ''bet.org.''" by code_simp
  have "''www.bet.org.'' = joinDomain [''www'', ''bet'', ''org'']" by code_simp
  with n show "proper_name ''www.bet.org''"
    unfolding proper_name_def by (intro exI [of _ "[''www'', ''bet'', ''org'']"]) simp
  show "row_applies ''www.bet.org'' ''bet.org''" by (simp add: row_applies_def n b is_below_def suffix_def)
  show "\<not> rows_cover 1 None demo_tables ''www.bet.org''"
    by (simp add: rows_cover_def file_domains_def demo_tables_rows)
qed


text \<open>C10: Adding domains works: when an administrator saves valid domains for an active black list without
  categories, the request is accepted and notified, the entries of the list grow by exactly these domains, and
  after the reload every saved name and every name below one is blocked for every client, unless the
  tables or the allow file white-list it.\<close>

theorem domains_reach_dns:
  assumes "tables_ok T" and "lists_step (Click LSaveDomains ok) s = Some t" and "l_addingDomains s = Some lid"
    and "valid_domains (l_domainsText s) \<noteq> []"
    and "list_all (domain_fits \<circ> go_string) (valid_domains (l_domainsText s))"
    and "active_list T lid 0" and "lid \<notin> fst ` set (tb_listCategories T)"
  shows "\<exists>q k T2. inflight t = inflight s @ [(q, k)] \<and> api_change lib newID q T = Some (200, T2, True) \<and> tables_ok T2 \<and>
    entry_rows T2 = entry_rows T \<union> {(go_string x, 0) |x. x \<in> set (valid_domains (l_domainsText s))} \<and>
    category_rows T2 = category_rows T \<and> tb_policies T2 = tb_policies T \<and>
    (\<forall>cfg order ops d g x. reads_tables T2 cfg order \<longrightarrow> proper_name d \<longrightarrow> x \<in> set (valid_domains (l_domainsText s)) \<longrightarrow>
       is_below (normalize_domain d) (normalize_domain (go_string x)) \<longrightarrow>
       fr_action (EvaluateForGroup (server_engine (ops @ on_notify cfg order)) d g) = ActionBlock \<or>
       covered (e_whitelist (server_engine (ops @ on_notify cfg order))) d)"
proof -
  let ?ds = "valid_domains (l_domainsText s)"
  let ?T2 = "put_entries lid (map go_string ?ds) T"
  have lid: "lid \<in> list_ids T" using assms(6) by (rule active_list_id)
  then have int: "in_int32 lid" using tables_ok_serial(3) [OF assms(1)] serial_int by blast
  have sent: "inflight t = inflight s @ [(entries_post lid ?ds, LKSaveDomains)]"
    using save_domains_click [OF assms(2)] assms(3,4) by (simp add: saveDomains_def issue_def)
  have put: "api_change lib newID (entries_post lid ?ds) T = Some (200, ?T2, True)"
    using api_change_effects(3) [OF int, where cats = "[]"] assms(4,5) lid by simp
  have only: "t = 0" if "active_list T lid t" for t
    using that assms(1,6) by (auto simp: active_list_def tables_ok_def distinct_map inj_on_def)
  have rows: "entry_rows ?T2 = entry_rows T \<union> {(go_string x, 0) |x. x \<in> set ?ds}"
    using assms(6,7) only by (auto simp: entry_rows_def)
  have cats: "category_rows ?T2 = category_rows T"
    using assms(7) by (force simp: category_rows_def)
  have block: "fr_action (EvaluateForGroup (server_engine (ops @ on_notify cfg order)) d g) = ActionBlock \<or>
      covered (e_whitelist (server_engine (ops @ on_notify cfg order))) d"
    if "reads_tables ?T2 cfg order" "proper_name d" "x \<in> set ?ds"
      "is_below (normalize_domain d) (normalize_domain (go_string x))" for cfg order ops d g x
  proof -
    have "(go_string x, 0) \<in> entry_rows ?T2" using that(3) by (auto simp: rows)
    with that show ?thesis using reads_black by (simp add: engine_block Let_def)
  qed
  show ?thesis
    using sent put tables_ok_put(3) [OF assms(1) lid] rows cats put_entries_fields(4) block by blast
qed

theorem domains_reach_dns_witness:
  "\<exists>(s :: lists_state) (t :: lists_state) q k T2. inflight t = inflight s @ [(q, k)] \<and>
     api_change demo_net 0 q demo_tables = Some (200, T2, True) \<and>
     fr_action (EvaluateForGroup (server_engine ([] @ on_notify
       \<lparr>cf_entries = Some [(''a.com'', 0)], cf_categories = Some [(2, ''bet.org'')], cf_policies = Some [(7, 4)],
        cf_blockFile = None, cf_allowFile = None\<rparr> [(2, [''bet.org''])])) ''x.a.com'' 1) = ActionBlock"
proof -
  let ?cfg = "\<lparr>cf_entries = Some [(''a.com'', 0)], cf_categories = Some [(2, ''bet.org'')], cf_policies = Some [(7, 4)],
        cf_blockFile = None, cf_allowFile = None\<rparr>"
  let ?order = "[(2, [''bet.org''])]"
  have go: "go_string (js ''a.com'') = ''a.com''"
    by (rule go_string_plain) code_simp
  obtain s t where st: "lists_step (Click LSaveDomains True) s = Some t" "l_addingDomains s = Some 1"
    and typed: "l_domainsText s = js '' A.com%0Ab''" using lists_domains_demo_run by blast
  have valid: "valid_domains (l_domainsText s) = [js ''a.com'']"
    by (simp add: typed valid_domains_def js.simps trim_by_def is_space_def hex_digit_def
        toLowerCase_def lower_unit_def)
  then have fits: "list_all (domain_fits \<circ> go_string) (valid_domains (l_domainsText s))"
    by (simp add: go varchar_fits_def text_fits_def)
  have free: "1 \<notin> fst ` set (tb_listCategories demo_tables)" by (simp add: demo_tables_def)
  have policies: "tb_policies demo_tables = [(7, 4)]" by (simp add: demo_tables_def)
  have some: "valid_domains (l_domainsText s) \<noteq> []" by (simp add: valid)
  let ?ds = "valid_domains (l_domainsText s)"
  from domains_reach_dns [OF demo_tables_rows(1) st some fits demo_tables_rows(5) free,
      where lib = demo_net and newID = 0]
  obtain q k T2 where q: "inflight t = inflight s @ [(q, k)]" "api_change demo_net 0 q demo_tables = Some (200, T2, True)"
    and read: "entry_rows T2 = entry_rows demo_tables \<union> {(go_string x, 0) |x. x \<in> set ?ds}"
      "category_rows T2 = category_rows demo_tables" "tb_policies T2 = tb_policies demo_tables"
    and dec: "\<forall>cfg order ops d g x. reads_tables T2 cfg order \<longrightarrow> proper_name d \<longrightarrow> x \<in> set ?ds \<longrightarrow>
       is_below (normalize_domain d) (normalize_domain (go_string x)) \<longrightarrow>
       fr_action (EvaluateForGroup (server_engine (ops @ on_notify cfg order)) d g) = ActionBlock \<or>
       covered (e_whitelist (server_engine (ops @ on_notify cfg order))) d"
    by (elim exE conjE) (rule that)
  from read have rows: "entry_rows T2 = {(''a.com'', 0)}" "category_rows T2 = {(2, ''bet.org'')}"
      "tb_policies T2 = [(7, 4)]"
    by (simp_all add: valid go demo_tables_rows policies)
  have reads: "reads_tables T2 ?cfg ?order"
    by (simp add: reads_tables_def rows map_order_def LoadCategoryDomains_def add_category_domain_def)
  have n: "normalize_domain ''x.a.com'' = ''x.a.com.''" "normalize_domain ''a.com'' = ''a.com.''" by code_simp+
  have "''x.a.com.'' = joinDomain [''x'', ''a'', ''com'']" by code_simp
  with n have "proper_name ''x.a.com''"
    unfolding proper_name_def by (intro exI [of _ "[''x'', ''a'', ''com'']"]) simp
  with dec [rule_format, OF reads, of "''x.a.com''" "js ''a.com''" "[]" 1] n have
    "fr_action (EvaluateForGroup (server_engine ([] @ on_notify ?cfg ?order)) ''x.a.com'' 1) = ActionBlock \<or>
     covered (e_whitelist (server_engine ([] @ on_notify ?cfg ?order))) ''x.a.com''"
    by (simp add: is_below_def suffix_def valid go)
  moreover have "\<not> covered (e_whitelist (server_engine ([] @ on_notify ?cfg ?order))) ''x.a.com''"
    using notify_lists(2) [of ?cfg "[(''a.com'', 0)]" "[]" ?order]
    by (simp add: covered_names LoadActiveBlocklistEntries_def file_domains_def)
  ultimately show ?thesis using q by blast
qed





text \<open>Saving the categories of a list does not reach the DNS server: the change is accepted and the reads of
  the next reload differ, but no trigger is on the table, so no notification asks for that reload.\<close>

theorem list_categories_unnotified:
  assumes "tables_ok T" and "active_list T lid t" and "lid \<notin> fst ` set (tb_listCategories T)"
    and "(lid, x) \<in> set (tb_entries T)" and "\<And>l. (l, x) \<in> set (tb_entries T) \<Longrightarrow> l = lid" and "c \<in> set (tb_categories T)"
  shows "\<exists>T'. api_change lib newID (list_cats_put lid [c]) T = Some (200, T', False) \<and>
    (x, t) \<in> entry_rows T \<and> (x, t) \<notin> entry_rows T' \<and> (c, x) \<notin> category_rows T \<and> (c, x) \<in> category_rows T'"
proof -
  let ?T' = "put_list_categories lid [c] T"
  have lid: "lid \<in> list_ids T" "in_int32 lid" "list_all in_int64 [c]"
    using active_list_id [OF assms(2)] tables_ok_serial [OF assms(1)] assms(6) serial_int by auto
  have "api_change lib newID (list_cats_put lid [c]) T = Some (200, ?T', False)"
    using api_change_effects(2) [OF lid(2,3)] lid(1) assms(6) by simp
  moreover have "(x, t) \<in> entry_rows T" using assms(2,3,4) by (auto simp: entry_rows_def)
  moreover have "(x, t) \<notin> entry_rows ?T'" "(c, x) \<notin> category_rows T"
    using assms(3,5) by (force simp: entry_rows_def category_rows_def put_list_categories_rows)+
  moreover have "active_list ?T' lid t" using assms(2) by (simp add: active_list_def)
  then have "(c, x) \<in> category_rows ?T'"
    using assms(4) by (auto simp: category_rows_def put_list_categories_rows)
  ultimately show ?thesis by blast
qed

text \<open>A white list with a category blocks: the query for the category domains does not look at the type of the list,
  so that a name on such a list is blocked for the groups with a policy against the category.\<close>

theorem white_list_blocks:
  assumes "reads_tables T cfg order" and "category_unique T" and "proper_name d"
    and "active_list T lid 1" and "(lid, x) \<in> set (tb_entries T)" and "(lid, c) \<in> set (tb_listCategories T)"
    and "normalize_domain x = normalize_domain d" and "(g, c) \<in> set (tb_policies T)" and "0 < g"
    and "\<not> rows_cover 1 (cf_allowFile cfg) T d"
  shows "fr_action (EvaluateForGroup (server_engine (ops @ on_notify cfg order)) d g) = ActionBlock"
proof -
  have "(c, x) \<in> category_rows T" using assms(4,5,6) by (auto simp: category_rows_def)
  moreover have "row_applies d x" using assms(7) by (simp add: row_applies_def)
  moreover have "length (normalize_domain x') \<le> length (normalize_domain x)" if "row_applies d x'" for x'
  proof -
    have "is_below (normalize_domain d) (normalize_domain x')" using that by (auto simp: row_applies_def)
    from is_below_length [OF this] show ?thesis by (elim disjE) (simp_all add: assms(7))
  qed
  ultimately have "nearest_listed T d c x" unfolding nearest_listed_def by blast
  with assms(8-10) show ?thesis unfolding reads_decide [OF assms(1-3)] tables_block_def by blast
qed

text \<open>The number of domains that a list shows is the number given in the last request, whatever was in the list.\<close>

theorem count_of_last_request:
  assumes "in_int32 lid" and "lid \<in> list_ids T" and "ds \<noteq> []" and "list_all (domain_fits \<circ> go_string) ds"
  shows "\<exists>T'. api_change lib newID (entries_post lid ds) T = Some (200, T', True) \<and>
    (\<forall>l \<in> set (tb_lists T'). lr_id l = lid \<longrightarrow> lr_domainCount l = length ds) \<and>
    set (tb_entries T') = {lid} \<times> set (map go_string ds) \<union> set (tb_entries T)"
proof -
  have put: "api_change lib newID (entries_post lid ds) T = Some (200, put_entries lid (map go_string ds) T, True)"
    using api_change_effects(3) [OF assms(1), where cats = "[]"] assms(2-4) by simp
  have rows: "tb_lists (put_entries lid (map go_string ds) T) =
      map (\<lambda>l. if lr_id l = lid then l\<lparr>lr_domainCount := length ds\<rparr> else l) (tb_lists T)"
    by (simp add: put_entries_def set_domain_count_def)
  have "\<forall>l \<in> set (tb_lists (put_entries lid (map go_string ds) T)). lr_id l = lid \<longrightarrow> lr_domainCount l = length ds"
    unfolding rows set_map ball_simps by simp
  with put show ?thesis by (intro exI conjI) (assumption | rule put_entries_fields(1))+
qed

end
