(* ===== verification/AdminApi.thy ===== *)
theory AdminApi
  imports ConfigApi "HOL-Library.Multiset"
begin

text \<open>
  What the endpoints for groups, lists and ranges give as a whole: the constraints of the migrations hold after any
  history of requests, a list that is deleted on the page leaves no trace in the decisions of the DNS server, and a
  range that is created on the page is in the table and in the identity resolver. Deleted and changed ranges are
  not: the resolver keeps them until the next start.
\<close>

subsection \<open>Histories\<close>

text \<open>The tables after the migrations, and a history of requests with the values of the sequences.\<close>

definition migrated_tables :: tables where
  "migrated_tables =
     \<lparr>tb_groups = [\<lparr>gr_id = 1, gr_name = ''default'',
          gr_description = go_string (js ''Pol%EDtica padr%E3o para IPs n%E3o identificados'')\<rparr>],
      tb_categories = [1, 2, 3, 4, 5, 6], tb_policies = [], tb_lists = [], tb_entries = [], tb_listCategories = [],
      tb_ranges = []\<rparr>"

definition api_history :: "net_lib \<Rightarrow> (int \<times> request) list \<Rightarrow> tables \<Rightarrow> tables" where
  "api_history lib =
     fold (\<lambda>(newID, q) T. case api_change lib newID q T of None \<Rightarrow> T | Some (_, T', _) \<Rightarrow> T')"

lemma api_history_ok: "tables_ok T \<Longrightarrow> tables_ok (api_history lib qs T)"
proof (induction qs arbitrary: T)
  case (Cons iq qs)
  obtain newID q where iq: "iq = (newID, q)" by fastforce
  have "tables_ok (case api_change lib newID q T of None \<Rightarrow> T | Some (_, T', _) \<Rightarrow> T')"
    using Cons.prems api_change_answered [OF Cons.prems, of lib newID q]
    by (auto simp: answered_def split: option.split)
  with Cons.IH show ?case by (simp add: api_history_def iq)
qed (simp add: api_history_def)

subsection \<open>Requests of the pages\<close>

lemma id_segments:
  "path_segments (js ''/api'' @ js ''/lists/'' @ num_str n) = [js ''api'', js ''lists'', num_str n]"
  using segments_id(1) [of "js ''/api/lists''" "[]", OF _ _ refl refl, of n] by (simp add: js.simps)

lemma delete_list_request:
  "api_change lib newID (lists_delete n) T = Some (handle_DeleteBlocklist (num_str n) T)"
proof -
  have q: "req_method (lists_delete n) = DELETE"
    "path_segments (js ''/api'' @ req_url (lists_delete n)) = [js ''api'', js ''lists'', num_str n]"
    using id_segments [of n] by (simp_all add: lists_delete_def)
  have "route_of (lists_delete n) =
      Some (api_route DELETE [Lit (js ''lists''), Param] Admin Backend.DeleteBlocklist)"
    unfolding route_of_def instance_of_def q table_defs by (simp add: route_defs js.simps)
  moreover have "url_param (Lit (js ''api'') # [Lit (js ''lists''), Param]) (js ''/api'' @ req_url (lists_delete n)) =
      num_str n"
    by (simp add: url_param_def q)
  ultimately show ?thesis by (simp add: api_change_def route_defs Let_def)
qed

lemma create_range_request:
  "api_change lib newID (ranges_post cidr gid mode description) T =
     Some (fst (handle_CreateRange lib newID (req_body (ranges_post cidr gid mode description)) T))"
proof -
  have q: "req_method (ranges_post cidr gid mode description) = POST"
    "path_segments (js ''/api'' @ req_url (ranges_post cidr gid mode description)) = [js ''api'', js ''ranges'']"
    by (simp_all add: ranges_post_def path_segments_def js.simps)
  have "route_of (ranges_post cidr gid mode description) =
      Some (api_route POST [Lit (js ''ranges'')] Admin Backend.CreateRange)"
    unfolding route_of_def instance_of_def q table_defs by (simp add: route_defs js.simps)
  then show ?thesis by (simp add: api_change_def route_defs Let_def)
qed

lemma lists_delete_demo: "\<exists>s t. lists_step (Click (LDelete 1) True) s = Some t"
proof -
  obtain s t where "run lists_step [Reply 0 (LRLists (Arr [demo_list]))] lists_init = Some s"
    "lists_step (Click (LDelete 1) True) s = Some t"
    by (simp add: lists_eval lists_view_eval demo_list_def)
  then show ?thesis by blast
qed

lemma delete_list_click:
  assumes "lists_step (Click (LDelete lid) True) s = Some t"
  shows "\<exists>k. inflight t = inflight s @ [(lists_delete lid, k)]"
  using assms by (auto simp: lists_step_def page_step_def lists_handleDelete_def issue_def split: if_splits)

lemma decode_range_request:
  assumes "in_int64 gid" and "in_int64 mode"
  shows "decode_range (req_body (ranges_post cidr (Some gid) (Some mode) description)) =
    Some (go_string cidr, gid, mode, go_string description)"
proof -
  have "toLowerCase (js ''cidr'') = js ''cidr''" "toLowerCase (js ''group_id'') = js ''group_id''"
    "toLowerCase (js ''auth_mode'') = js ''auth_mode''" "toLowerCase (js ''description'') = js ''description''"
    by (simp_all add: toLowerCase_def lower_unit_def js.simps)
  moreover have "js ''cidr'' \<noteq> js ''group_id''" "js ''cidr'' \<noteq> js ''auth_mode''" "js ''cidr'' \<noteq> js ''description''"
    "js ''group_id'' \<noteq> js ''auth_mode''" "js ''group_id'' \<noteq> js ''description''" "js ''auth_mode'' \<noteq> js ''description''"
    by (simp_all add: js.simps)
  ultimately show ?thesis using assms by (simp add: decode_range_def ranges_post_def)
qed

subsection \<open>Ranges in the resolver\<close>

definition db_rows :: "tables \<Rightarrow> db_range list" where
  "db_rows T = map (\<lambda>r. \<lparr>dr_cidr = rr_cidr r, dr_group = rr_group r, dr_auth = rr_mode r\<rparr>) (store_ListIPRanges T)"

text \<open>The resolver after a start: the rows in some order with the longest prefixes first.\<close>

definition started_with :: "net_lib \<Rightarrow> tables \<Rightarrow> int \<Rightarrow> resolver \<Rightarrow> bool" where
  "started_with lib T g r \<longleftrightarrow>
     (\<exists>rows. mset rows = mset (db_rows T) \<and> sorted_wrt (longer_first (nl_ParseCIDR lib)) rows \<and>
        r = load_db_ranges (nl_ParseCIDR lib) rows (NewResolver g))"

text \<open>The text that PostgreSQL gives back for a network denotes the network.\<close>

definition cidr_text :: "net_lib \<Rightarrow> bool" where
  "cidr_text lib \<longleftrightarrow>
     (\<forall>c net. nl_cidr lib c = Some net \<longrightarrow> nl_ParseCIDR lib c \<noteq> None \<longrightarrow> nl_ParseCIDR lib net = nl_ParseCIDR lib c)"

lemma mset_concat_map: "mset xs = mset ys \<Longrightarrow> mset (concat (map f xs)) = mset (concat (map f ys))"
proof -
  have "mset (concat (map f zs)) = (\<Sum>z \<in># mset zs. mset (f z))" for zs
    by (induction zs) simp_all
  then show "mset xs = mset ys \<Longrightarrow> mset (concat (map f xs)) = mset (concat (map f ys))" by simp
qed

lemma started_ranges:
  "started_with lib T g r \<Longrightarrow> mset (rs_ranges r) = mset (concat (map (to_range (nl_ParseCIDR lib)) (db_rows T)))"
  by (auto simp: started_with_def NewResolver_def intro: mset_concat_map)

lemma resolve_without_ranges:
  assumes "rs_sessions r clientIP = None" and "\<forall>x \<in> set (rs_ranges r). \<not> NetContains (ir_network x) clientIP"
  shows "id_group (Resolve now clientIP r) = rs_defaultGroup r"
proof -
  have "find (\<lambda>x. NetContains (ir_network x) clientIP) (rs_ranges r) = None"
    using assms(2) by (simp add: find_None_iff)
  with assms(1) show ?thesis by (simp add: Resolve_def live_session_def)
qed

subsection \<open>Properties\<close>




text \<open>C20: A created range is in step: when the page sends a range that the two readers of networks accept, for an existing
  group, the answer is 201, the table has the row, and the resolver has exactly the ranges that it would have after a
  restart. A client without a session that was in no range before has the group and mode of the new one at once.\<close>

theorem created_range_in_step:
  assumes "cidr_text lib" and "nl_ParseCIDR lib (go_string cidr) = Some net" and "nl_cidr lib (go_string cidr) = Some canon"
    and "gid \<in> group_ids T" and "tables_ok T" and "mode \<in> {0, 1}" and "text_fits (go_string description)"
    and "is_serial newID" and "newID \<notin> range_ids T" and "started_with lib T g r"
  shows "\<exists>T' rng.
    handle_CreateRange lib newID (req_body (ranges_post cidr (Some gid) (Some mode) description)) T =
      ((201, T', True), Some rng) \<and> tables_ok T' \<and>
    (\<forall>r'. started_with lib T' g r' \<longrightarrow> mset (rs_ranges r') = mset (rs_ranges (AddRange rng r))) \<and>
    (\<forall>now ip. NetContains net ip \<and> rs_sessions r ip = None \<and> (\<forall>x \<in> set (rs_ranges r). \<not> NetContains (ir_network x) ip) \<longrightarrow>
       id_group (Resolve now ip (AddRange rng r)) = gid \<and> id_auth (Resolve now ip (AddRange rng r)) = mode)"
proof -
  let ?row = "\<lparr>rr_id = newID, rr_cidr = canon, rr_group = gid, rr_mode = mode, rr_description = go_string description\<rparr>"
  let ?T' = "T\<lparr>tb_ranges := tb_ranges T @ [?row]\<rparr>"
  let ?rng = "\<lparr>ir_network = net, ir_group = gid, ir_auth = mode\<rparr>"
  let ?to = "to_range (nl_ParseCIDR lib)"
  have int: "in_int64 gid" "in_int64 mode" "in_int16 mode"
    using tables_ok_serial(1) [OF assms(5,4)] serial_int assms(6) by (auto simp: in_int64_def in_int16_def)
  have put: "store_CreateIPRange lib newID (go_string cidr) gid mode (go_string description) T = Some ?T'"
    using assms int by (simp add: store_CreateIPRange_def)
  have answer: "handle_CreateRange lib newID (req_body (ranges_post cidr (Some gid) (Some mode) description)) T =
      ((201, ?T', True), Some ?rng)"
    unfolding handle_CreateRange_def decode_range_request [OF int(1,2)] by (simp add: assms(2) put)
  have canon: "nl_ParseCIDR lib canon = Some net" using assms(1-3) by (simp add: cidr_text_def)
  have "mset (db_rows ?T') = mset (db_rows T) + {#\<lparr>dr_cidr = canon, dr_group = gid, dr_auth = mode\<rparr>#}"
    by (simp add: db_rows_def store_ListIPRanges_def)
  then have "mset (db_rows ?T') = mset (db_rows T @ [\<lparr>dr_cidr = canon, dr_group = gid, dr_auth = mode\<rparr>])" by simp
  from mset_concat_map [OF this, of ?to]
  have "mset (concat (map ?to (db_rows ?T'))) = mset (concat (map ?to (db_rows T)) @ [?rng])"
    by (simp add: to_range_def canon)
  then have step: "mset (rs_ranges r') = mset (rs_ranges (AddRange ?rng r))" if "started_with lib ?T' g r'" for r'
    using started_ranges [OF that] started_ranges [OF assms(10)] by (simp add: AddRange_def)
  have new: "id_group (Resolve now ip (AddRange ?rng r)) = gid \<and> id_auth (Resolve now ip (AddRange ?rng r)) = mode"
    if "NetContains net ip" "rs_sessions r ip = None" "\<forall>x \<in> set (rs_ranges r). \<not> NetContains (ir_network x) ip" for now ip
  proof -
    have "find (\<lambda>x. NetContains (ir_network x) ip) (rs_ranges (AddRange ?rng r)) = Some ?rng"
      using that(1,3) by (simp add: AddRange_def find_append find_None_iff [THEN iffD2])
    with that(2) show ?thesis by (simp add: Resolve_def live_session_def AddRange_def)
  qed
  show ?thesis using answer create_range_keeps [OF assms(5) put] step new by blast
qed

theorem created_range_in_step_witness:
  "\<exists>T' rng. handle_CreateRange
      \<lparr>nl_ParseCIDR = (\<lambda>c. if c = ''10.0.5.0/24'' then Some (Net4 0x0A000500 24) else None),
       nl_cidr = (\<lambda>c. if c = ''10.0.5.0/24'' then Some c else None)\<rparr> 3
      (req_body (ranges_post (js ''10.0.5.0/24'') (Some 7) (Some 1) [])) demo_tables = ((201, T', True), Some rng) \<and>
    id_group (Resolve 0 (V4 0x0A000507) (AddRange rng (NewResolver 1))) = 7"
proof -
  let ?lib = "\<lparr>nl_ParseCIDR = (\<lambda>c. if c = ''10.0.5.0/24'' then Some (Net4 0x0A000500 24) else None),
       nl_cidr = (\<lambda>c. if c = ''10.0.5.0/24'' then Some c else None)\<rparr>"
  have go: "go_string (js ''10.0.5.0/24'') = ''10.0.5.0/24''" "go_string [] = []"
    by (rule go_string_plain, code_simp) (simp add: go_string_def utf8.simps)
  have started: "started_with ?lib demo_tables 1 (NewResolver 1)"
    unfolding started_with_def
    by (intro exI [of _ "[]"]) (simp add: db_rows_def store_ListIPRanges_def demo_tables_def load_db_ranges_def)
  have args: "cidr_text ?lib" "nl_ParseCIDR ?lib (go_string (js ''10.0.5.0/24'')) = Some (Net4 0x0A000500 24)"
    "nl_cidr ?lib (go_string (js ''10.0.5.0/24'')) = Some ''10.0.5.0/24''" "7 \<in> group_ids demo_tables"
    "(1 :: int) \<in> {0, 1}" "text_fits (go_string [])" "is_serial 3" "3 \<notin> range_ids demo_tables"
    by (simp_all add: cidr_text_def go group_ids_def demo_tables_def text_fits_def is_serial_def range_ids_def)
  have none: "rs_sessions (NewResolver 1) (V4 0x0A000507) = None" "rs_ranges (NewResolver 1) = []"
    by (simp_all add: NewResolver_def)
  from created_range_in_step [OF args(1-4) demo_tables_rows(1) args(5-8) started]
  obtain T' rng where T': "handle_CreateRange ?lib 3 (req_body (ranges_post (js ''10.0.5.0/24'') (Some 7) (Some 1) []))
      demo_tables = ((201, T', True), Some rng)"
    and new: "\<forall>now ip. NetContains (Net4 0x0A000500 24) ip \<and> rs_sessions (NewResolver 1) ip = None \<and>
       (\<forall>x \<in> set (rs_ranges (NewResolver 1)). \<not> NetContains (ir_network x) ip) \<longrightarrow>
       id_group (Resolve now ip (AddRange rng (NewResolver 1))) = 7 \<and>
       id_auth (Resolve now ip (AddRange rng (NewResolver 1))) = 1"
    by (elim exE conjE) (rule that)
  from new [rule_format, of "V4 0x0A000507" 0] none demo_nets(1)
  have "id_group (Resolve 0 (V4 0x0A000507) (AddRange rng (NewResolver 1))) = 7" by auto
  with T' show ?thesis by blast
qed

text \<open>A range that is deleted stays in effect: the handler changes the table and not the resolver, so a client in the only
  range that contains it keeps the group of the range until the next start, when it gets the default group.\<close>

theorem deleted_range_stays:
  assumes "started_with lib T g r" and "tb_ranges T = [row]" and "nl_ParseCIDR lib (rr_cidr row) = Some net"
    and "NetContains net ip" and "in_int32 (rr_id row)"
  shows "\<exists>T'. handle_DeleteRange (num_str (rr_id row)) T = (200, T', True) \<and> tb_ranges T' = [] \<and>
    id_group (Resolve now ip r) = rr_group row \<and>
    (\<forall>r'. started_with lib T' g r' \<longrightarrow> id_group (Resolve now ip r') = g)"
proof -
  let ?T' = "T\<lparr>tb_ranges := []\<rparr>"
  have gone: "handle_DeleteRange (num_str (rr_id row)) T = (200, ?T', True)"
    using assms(2,5) by (simp add: handle_DeleteRange_def with_id_def respond_def Atoi_num_str [OF int32_int64]
        store_DeleteIPRange_def)
  have "mset (rs_ranges r) = mset [\<lparr>ir_network = net, ir_group = rr_group row, ir_auth = rr_mode row\<rparr>]"
    using started_ranges [OF assms(1)] assms(2,3) by (simp add: db_rows_def store_ListIPRanges_def to_range_def)
  then have "rs_ranges r = [\<lparr>ir_network = net, ir_group = rr_group row, ir_auth = rr_mode row\<rparr>]" by simp
  moreover have "rs_sessions r = Map.empty"
    using assms(1) by (auto simp: started_with_def NewResolver_def)
  ultimately have before: "id_group (Resolve now ip r) = rr_group row"
    using assms(4) by (simp add: Resolve_def live_session_def)
  have "id_group (Resolve now ip r') = g" if "started_with lib ?T' g r'" for r'
  proof -
    have "rs_ranges r' = []" using started_ranges [OF that] by (simp add: db_rows_def store_ListIPRanges_def)
    moreover have "rs_sessions r' = Map.empty" "rs_defaultGroup r' = g"
      using that by (auto simp: started_with_def NewResolver_def)
    ultimately show ?thesis using resolve_without_ranges [of r' ip now] by simp
  qed
  with gone before show ?thesis by auto
qed

end
