(* ===== verification/LogQuery.thy ===== *)
theory LogQuery
  imports LogPipeline LogsPage Tables "HOL-Library.Multiset"
begin

text \<open>
  The query log from its table to the page: the handler \<open>GetLogs\<close> of \<open>internal/api/handlers.go\<close>, the two statements of
  \<open>QueryLogs\<close> in \<open>internal/store/logs.go\<close>, and the reply as the log page gets it. The rows of \<open>dns_query_logs\<close> are the
  entries that the pipeline has written, with the times as the table stores them.
\<close>

subsection \<open>Conditions\<close>

text \<open>
  How PostgreSQL reads a parameter of the types text, inet (an address and its prefix length), smallint and timestamptz
  is a parameter; \<^const>\<open>None\<close> is an error, which ends the statement.
\<close>

record log_lib =
  lg_text :: "string \<Rightarrow> bool"
  lg_inet :: "string \<Rightarrow> (ip \<times> nat) option"
  lg_int2 :: "string \<Rightarrow> int option"
  lg_time :: "string \<Rightarrow> int option"

fun host_inet :: "ip \<Rightarrow> ip \<times> nat" where
  "host_inet (V4 a) = (V4 a, 32)"
| "host_inet (V6 a) = (V6 a, 128)"
| "host_inet NoIP = (NoIP, 0)"

fun action_number :: "log_action \<Rightarrow> int" where
  "action_number ActionAllowed = 0"
| "action_number ActionBlocked = 1"
| "action_number ActionCached = 2"

text \<open>\<open>LIKE\<close>: a percent sign stands for any text, an underscore for any character, and a backslash takes the next character
  as it is. Names in the log are ASCII, where characters are bytes.\<close>

function like :: "string \<Rightarrow> string \<Rightarrow> bool" where
  "like [] s = (s = [])"
| "like (c # p) s =
     (if c = CHR ''%'' then like p s \<or> (case s of [] \<Rightarrow> False | _ # t \<Rightarrow> like (c # p) t)
      else if c = CHR ''_'' then (case s of [] \<Rightarrow> False | _ # t \<Rightarrow> like p t)
      else if c = CHR 0x5C then
        (case p of [] \<Rightarrow> False | d # q \<Rightarrow> (case s of [] \<Rightarrow> False | x # t \<Rightarrow> x = d \<and> like q t))
      else (case s of [] \<Rightarrow> False | x # t \<Rightarrow> x = c \<and> like p t))"
  by pat_completeness auto
termination by (relation "measure (\<lambda>(p, s). length p + length s)") auto

declare like.simps [simp del]

definition ilike :: "string \<Rightarrow> string \<Rightarrow> bool" where
  "ilike s pattern = like (ToLower pattern) (ToLower s)"

record log_filter =
  lf_clientIP :: string
  lf_domain :: string
  lf_action :: string
  lf_dateFrom :: string
  lf_dateTo :: string
  lf_limit :: int
  lf_offset :: int

definition log_conditions :: "log_lib \<Rightarrow> log_filter \<Rightarrow> (log_event \<Rightarrow> bool) option list" where
  "log_conditions lib f =
     [Some (\<lambda>e. True)] @
     (if lf_clientIP f \<noteq> []
      then [map_option (\<lambda>ip e. host_inet (log_event.le_client e) = ip) (lg_inet lib (lf_clientIP f))] else []) @
     (if lf_domain f \<noteq> []
      then [if lg_text lib (lf_domain f)
            then Some (\<lambda>e. ilike (log_event.le_domain e) (''%'' @ lf_domain f @ ''%'')) else None] else []) @
     (if lf_action f \<noteq> []
      then [map_option (\<lambda>n e. action_number (log_event.le_action e) = n) (lg_int2 lib (lf_action f))] else []) @
     (if lf_dateFrom f \<noteq> [] then [map_option (\<lambda>t e. t \<le> log_event.le_at e) (lg_time lib (lf_dateFrom f))] else []) @
     (if lf_dateTo f \<noteq> [] then [map_option (\<lambda>t e. log_event.le_at e \<le> t) (lg_time lib (lf_dateTo f))] else [])"

subsection \<open>The statements\<close>

definition newest_first :: "log_event list \<Rightarrow> log_event list" where
  "newest_first = sort_key (\<lambda>e. - log_event.le_at e)"

text \<open>The count reads the rows \<open>earlier\<close>, the page the rows of a later moment. \<open>scan\<close> is the order in which the database
  comes across rows: entries of the same time may come in any order, each time another one.\<close>

definition QueryLogs ::
  "log_lib \<Rightarrow> (log_event list \<Rightarrow> log_event list) \<Rightarrow> log_filter \<Rightarrow> log_event list \<Rightarrow> log_event list \<Rightarrow>
   (log_event list \<times> nat) option" where
  "QueryLogs lib scan f earlier rows =
     (case decode_all id (log_conditions lib f) of
        None \<Rightarrow> None
      | Some conditions \<Rightarrow>
          (let whereClause = (\<lambda>e. list_all (\<lambda>c. c e) conditions)
           in if 0 \<le> lf_limit f \<and> 0 \<le> lf_offset f
              then Some (take (nat (lf_limit f)) (drop (nat (lf_offset f))
                     (newest_first (scan (filter whereClause rows)))), length (filter whereClause earlier))
              else None))"

subsection \<open>The handler\<close>

text \<open>\<open>strconv.Atoi\<close> with its error ignored: 0 for a text that is no number, the nearest bound for a number out of
  range.\<close>

definition Atoi_ignoring :: "bytes \<Rightarrow> int" where
  "Atoi_ignoring bs =
     (let s = map ucast bs :: jsstr;
          (sign, digits) = (case s of
              [] \<Rightarrow> (1, [])
            | u # t \<Rightarrow> if u = 45 then (- 1, t) else if u = 43 then (1, t) else (1, s));
          n = sign * int (digits_value digits)
      in if digits \<noteq> [] \<and> list_all is_digit digits then max (- (2 ^ 63)) (min (2 ^ 63 - 1) n) else 0)"

definition bytes_string :: "bytes \<Rightarrow> string" where
  "bytes_string bs = map (\<lambda>b. char_of (unat b)) bs"

record logs_body =
  lb_data :: "log_event list option"
  lb_total :: nat
  lb_limit :: int
  lb_offset :: int

definition GetLogs ::
  "log_lib \<Rightarrow> (log_event list \<Rightarrow> log_event list) \<Rightarrow> jsstr \<Rightarrow> log_event list \<Rightarrow> log_event list \<Rightarrow>
   nat \<times> logs_body option" where
  "GetLogs lib scan q earlier rows =
     (let get = (\<lambda>name. query_get (utf8 (js name)) q);
          n = Atoi_ignoring (get ''limit'');
          lim = (if n \<le> 0 \<or> 100 < n then 50 else n);
          offset = Atoi_ignoring (get ''offset'');
          f = \<lparr>lf_clientIP = bytes_string (get ''client_ip''), lf_domain = bytes_string (get ''domain''),
               lf_action = bytes_string (get ''action''), lf_dateFrom = bytes_string (get ''date_from''),
               lf_dateTo = bytes_string (get ''date_to''), lf_limit = lim, lf_offset = offset\<rparr>
      in case QueryLogs lib scan f earlier rows of
           None \<Rightarrow> (500, None)
         | Some (logs, total0) \<Rightarrow>
             (200, Some \<lparr>lb_data = (if logs = [] then None else Some logs), lb_total = total0, lb_limit = lim,
                lb_offset = offset\<rparr>))"

text \<open>The reply as the page reads it. The texts of a time and an address are those of the libraries; the latency of an
  entry is not part of \<^typ>\<open>log_event\<close>.\<close>

record log_text =
  lt_time :: "int \<Rightarrow> jsstr"
  lt_inet :: "ip \<Rightarrow> jsstr"
  lt_ms :: "log_event \<Rightarrow> rat option"

definition log_json :: "log_text \<Rightarrow> log_event \<Rightarrow> log_entry" where
  "log_json lt e =
     \<lparr>le_queried_at = lt_time lt (log_event.le_at e), le_client_ip = Some (lt_inet lt (log_event.le_client e)),
      le_domain = map of_char (log_event.le_domain e), le_query_type = uint (log_event.le_type e),
      le_action = action_number (log_event.le_action e), le_response_ms = lt_ms lt e,
      le_upstream = map of_char (log_event.le_upstream e)\<rparr>"

definition raw_query :: "jsstr \<Rightarrow> jsstr" where
  "raw_query url = drop 1 (dropWhile (\<lambda>u. u \<noteq> 0x3F) url)"

definition log_reply :: "log_text \<Rightarrow> nat \<times> logs_body option \<Rightarrow> logs_reply" where
  "log_reply lt r =
     (case snd r of
        None \<Rightarrow> ORError
      | Some b \<Rightarrow> ORLogs (map_option (map (log_json lt)) (lb_data b)) (Some (int (lb_total b))))"

subsection \<open>What a query means\<close>

definition page_filter :: "log_deps \<Rightarrow> log_filter" where
  "page_filter d =
     (case d of (offset, domain, action, clientIP, dateFrom, dateTo) \<Rightarrow>
        \<lparr>lf_clientIP = go_string clientIP, lf_domain = go_string domain, lf_action = go_string action,
         lf_dateFrom = go_string dateFrom, lf_dateTo = go_string dateTo, lf_limit = 20, lf_offset = offset\<rparr>)"

definition readable :: "log_lib \<Rightarrow> log_filter \<Rightarrow> bool" where
  "readable lib f \<longleftrightarrow>
     (lf_clientIP f \<noteq> [] \<longrightarrow> lg_inet lib (lf_clientIP f) \<noteq> None) \<and>
     (lf_domain f \<noteq> [] \<longrightarrow> lg_text lib (lf_domain f)) \<and>
     (lf_action f \<noteq> [] \<longrightarrow> lg_int2 lib (lf_action f) \<noteq> None) \<and>
     (lf_dateFrom f \<noteq> [] \<longrightarrow> lg_time lib (lf_dateFrom f) \<noteq> None) \<and>
     (lf_dateTo f \<noteq> [] \<longrightarrow> lg_time lib (lf_dateTo f) \<noteq> None)"

definition log_matches :: "log_lib \<Rightarrow> log_filter \<Rightarrow> log_event \<Rightarrow> bool" where
  "log_matches lib f e \<longleftrightarrow>
     (lf_clientIP f \<noteq> [] \<longrightarrow> host_inet (log_event.le_client e) = the (lg_inet lib (lf_clientIP f))) \<and>
     (lf_domain f \<noteq> [] \<longrightarrow> ilike (log_event.le_domain e) (''%'' @ lf_domain f @ ''%'')) \<and>
     (lf_action f \<noteq> [] \<longrightarrow> action_number (log_event.le_action e) = the (lg_int2 lib (lf_action f))) \<and>
     (lf_dateFrom f \<noteq> [] \<longrightarrow> the (lg_time lib (lf_dateFrom f)) \<le> log_event.le_at e) \<and>
     (lf_dateTo f \<noteq> [] \<longrightarrow> log_event.le_at e \<le> the (lg_time lib (lf_dateTo f)))"

lemma decode_all_append:
  "decode_all f (xs @ ys) =
     (case (decode_all f xs, decode_all f ys) of (Some us, Some vs) \<Rightarrow> Some (us @ vs) | _ \<Rightarrow> None)"
  by (induction xs) (auto split: option.splits)

lemma decode_all_none: "decode_all f xs = None \<longleftrightarrow> (\<exists>x \<in> set xs. f x = None)"
  by (induction xs) (auto split: option.splits)

lemma decode_all_some: "decode_all f xs = Some ys \<Longrightarrow> map f xs = map Some ys"
  by (induction xs arbitrary: ys) (auto split: option.splits)

lemma readable_conditions: "readable lib f \<longleftrightarrow> None \<notin> set (log_conditions lib f)"
  unfolding readable_def log_conditions_def by auto

lemma condition_if:
  "(P \<longrightarrow> x \<noteq> None) \<Longrightarrow> (\<forall>c \<in> set (if P then [map_option g x] else []). the c e) \<longleftrightarrow> (P \<longrightarrow> g (the x) e)"
  "(P \<longrightarrow> b) \<Longrightarrow> (\<forall>c \<in> set (if P then [if b then Some h else None] else []). the c e) \<longleftrightarrow> (P \<longrightarrow> h e)"
  by auto

lemma conditions_match:
  assumes "readable lib f"
  shows "(\<forall>c \<in> set (log_conditions lib f). the c e) \<longleftrightarrow> log_matches lib f e"
proof -
  from assms have p: "lf_clientIP f \<noteq> [] \<longrightarrow> lg_inet lib (lf_clientIP f) \<noteq> None" "lf_domain f \<noteq> [] \<longrightarrow> lg_text lib (lf_domain f)"
    "lf_action f \<noteq> [] \<longrightarrow> lg_int2 lib (lf_action f) \<noteq> None"
    "lf_dateFrom f \<noteq> [] \<longrightarrow> lg_time lib (lf_dateFrom f) \<noteq> None" "lf_dateTo f \<noteq> [] \<longrightarrow> lg_time lib (lf_dateTo f) \<noteq> None"
    unfolding readable_def by blast+
  show ?thesis
    unfolding log_conditions_def log_matches_def set_append ball_Un condition_if(1) [OF p(1)] condition_if(2) [OF p(2)]
      condition_if(1) [OF p(3)] condition_if(1) [OF p(4)] condition_if(1) [OF p(5)] by simp
qed

lemma QueryLogs_spec:
  assumes "0 \<le> lf_limit f" and "0 \<le> lf_offset f"
  shows "QueryLogs lib scan f earlier rows =
    (if readable lib f
     then Some (take (nat (lf_limit f)) (drop (nat (lf_offset f))
            (newest_first (scan (filter (log_matches lib f) rows)))), length (filter (log_matches lib f) earlier))
     else None)"
proof (cases "readable lib f")
  case True
  then obtain cs where cs: "decode_all id (log_conditions lib f) = Some cs"
    by (cases "decode_all id (log_conditions lib f)") (auto simp: decode_all_none readable_conditions)
  then have "log_conditions lib f = map Some cs" using decode_all_some [OF cs] by simp
  then have "(\<lambda>e. list_all (\<lambda>c. c e) cs) = log_matches lib f"
    using conditions_match [OF True] by (auto simp: fun_eq_iff list_all_iff)
  with True cs assms show ?thesis by (simp add: QueryLogs_def Let_def)
next
  case False
  then have "decode_all id (log_conditions lib f) = None" by (simp add: decode_all_none readable_conditions)
  with False show ?thesis by (simp add: QueryLogs_def)
qed

text \<open>The numbers of the query string.\<close>

lemma ascii_units:
  assumes "\<forall>u \<in> set s. unat u < 0x80"
  shows "map ucast (utf8 s) = s"
proof -
  have "(ucast (ucast u :: 8 word) :: 16 word) = u" if "u \<in> set s" for u
  proof -
    have "unat u < 2 ^ 8" using assms that by force
    then show ?thesis by (intro word_unat_eq_iff [THEN iffD2]) (simp add: unsigned_ucast_eq unsigned_take_bit_eq take_bit_nat_eq_self)
  qed
  then show ?thesis by (simp add: utf8_ascii [OF assms] map_idI)
qed

lemma nat_str_ascii: "u \<in> set (nat_str n) \<Longrightarrow> unat u < 0x80"
proof -
  assume "u \<in> set (nat_str n)"
  with nat_str_digits [of n] have "u \<le> 57" by (auto simp: list_all_iff is_digit_def)
  then show "unat u < 0x80" by (simp add: word_le_nat_alt)
qed

lemma Atoi_ignoring_num:
  assumes "0 \<le> n" and "n < 2 ^ 63"
  shows "Atoi_ignoring (utf8 (num_str n)) = n"
proof -
  have str: "num_str n = nat_str (nat n)" using assms(1) by (simp add: num_str_def)
  obtain u t where ut: "nat_str (nat n) = u # t" by (meson nat_str_nonempty neq_Nil_conv)
  have "is_digit u" using nat_str_digits [of "nat n"] ut by simp
  then have "u \<noteq> 45" "u \<noteq> 43" by (auto simp: is_digit_def)
  moreover have "map ucast (utf8 (nat_str (nat n))) = nat_str (nat n)" by (rule ascii_units) (use nat_str_ascii in blast)
  ultimately show ?thesis
    using assms nat_str_digits [of "nat n"] digits_value_nat_str [of "nat n"] ut
    by (simp add: Atoi_ignoring_def str Let_def)
qed

lemma bytes_go_string: "bytes_string (utf8 s) = go_string s"
  by (simp add: bytes_string_def go_string_def)

lemma log_query_values:
  assumes "d = (offset, domain, action, clientIP, dateFrom, dateTo)"
  shows "query_get (utf8 (js ''limit'')) (raw_query (req_url (logs_get d))) = utf8 (num_str 20)"
    "query_get (utf8 (js ''offset'')) (raw_query (req_url (logs_get d))) = utf8 (num_str offset)"
    "query_get (utf8 (js ''domain'')) (raw_query (req_url (logs_get d))) = utf8 domain"
    "query_get (utf8 (js ''action'')) (raw_query (req_url (logs_get d))) = utf8 action"
    "query_get (utf8 (js ''client_ip'')) (raw_query (req_url (logs_get d))) = utf8 clientIP"
    "query_get (utf8 (js ''date_from'')) (raw_query (req_url (logs_get d))) = utf8 dateFrom"
    "query_get (utf8 (js ''date_to'')) (raw_query (req_url (logs_get d))) = utf8 dateTo"
proof -
  have raw: "raw_query (req_url (logs_get d)) = query_string (logs_params (offset, domain, action, clientIP, dateFrom, dateTo))"
    by (simp add: raw_query_def logs_get_def logs_url_path_def js.simps assms del: logs_params.simps)
  note vals = query_values [of offset domain action clientIP dateFrom dateTo, unfolded Let_def]
  show "query_get (utf8 (js ''limit'')) (raw_query (req_url (logs_get d))) = utf8 (num_str 20)"
    "query_get (utf8 (js ''offset'')) (raw_query (req_url (logs_get d))) = utf8 (num_str offset)"
    "query_get (utf8 (js ''domain'')) (raw_query (req_url (logs_get d))) = utf8 domain"
    "query_get (utf8 (js ''action'')) (raw_query (req_url (logs_get d))) = utf8 action"
    "query_get (utf8 (js ''client_ip'')) (raw_query (req_url (logs_get d))) = utf8 clientIP"
    "query_get (utf8 (js ''date_from'')) (raw_query (req_url (logs_get d))) = utf8 dateFrom"
    "query_get (utf8 (js ''date_to'')) (raw_query (req_url (logs_get d))) = utf8 dateTo"
    by (simp_all only: raw vals)
qed

text \<open>The answer to the request of the page.\<close>

definition log_page :: "log_lib \<Rightarrow> (log_event list \<Rightarrow> log_event list) \<Rightarrow> log_deps \<Rightarrow> log_event list \<Rightarrow> log_event list" where
  "log_page lib scan d rows =
     take 20 (drop (nat (fst d)) (newest_first (scan (filter (log_matches lib (page_filter d)) rows))))"

lemma GetLogs_page:
  assumes "0 \<le> fst d" and "fst d < 2 ^ 63"
  shows "GetLogs lib scan (raw_query (req_url (logs_get d))) earlier rows =
    (if readable lib (page_filter d)
     then (200, Some \<lparr>lb_data = (if log_page lib scan d rows = [] then None else Some (log_page lib scan d rows)),
        lb_total = length (filter (log_matches lib (page_filter d)) earlier), lb_limit = 20, lb_offset = fst d\<rparr>)
     else (500, None))"
proof -
  obtain offset domain action clientIP dateFrom dateTo where
    d: "d = (offset, domain, action, clientIP, dateFrom, dateTo)" by (cases d) auto
  have fd: "fst d = offset" by (simp add: d)
  have n: "Atoi_ignoring (utf8 (num_str 20)) = 20" "Atoi_ignoring (utf8 (num_str offset)) = offset"
    using assms by (simp_all add: Atoi_ignoring_num d)
  have f: "lf_limit (page_filter d) = 20" "lf_offset (page_filter d) = offset" by (simp_all add: page_filter_def d)
  have "GetLogs lib scan (raw_query (req_url (logs_get d))) earlier rows =
     (case QueryLogs lib scan (page_filter d) earlier rows of
        None \<Rightarrow> (500, None)
      | Some (logs, total0) \<Rightarrow>
          (200, Some \<lparr>lb_data = (if logs = [] then None else Some logs), lb_total = total0, lb_limit = 20,
             lb_offset = offset\<rparr>))"
    unfolding GetLogs_def log_query_values [OF d] Let_def n bytes_go_string by (simp add: page_filter_def d)
  moreover have "QueryLogs lib scan (page_filter d) earlier rows =
     (if readable lib (page_filter d)
      then Some (log_page lib scan d rows, length (filter (log_matches lib (page_filter d)) earlier)) else None)"
    using assms unfolding fd by (simp add: QueryLogs_spec f log_page_def fd)
  ultimately show ?thesis by (simp add: fd)
qed

text \<open>A page of rows as the log page holds it, and the reply of the server to the request for it.\<close>

definition log_reply_to ::
  "log_lib \<Rightarrow> log_text \<Rightarrow> (log_event list \<Rightarrow> log_event list) \<Rightarrow> log_event list \<Rightarrow> log_deps \<Rightarrow> logs_reply" where
  "log_reply_to lib lt scan rows d = log_reply lt (GetLogs lib scan (raw_query (req_url (logs_get d))) rows rows)"

lemma log_reply_rows:
  assumes "0 \<le> fst d" and "fst d < 2 ^ 63"
  shows "log_reply_to lib lt scan rows d =
    (if readable lib (page_filter d)
     then ORLogs (if log_page lib scan d rows = [] then None else Some (map (log_json lt) (log_page lib scan d rows)))
            (Some (int (length (filter (log_matches lib (page_filter d)) rows))))
     else ORError)"
  by (simp add: log_reply_to_def log_reply_def GetLogs_page [OF assms])

lemma in_order_reachable: "in_order srv core_rows s \<Longrightarrow> reachable (logs_step core_rows) logs_init s"
  by (induction rule: in_order.induct) (auto intro: reachable.intros)

lemma in_order_offset:
  assumes "in_order srv core_rows s"
  shows "0 \<le> lo_offset s"
proof -
  have "logs_inv s" using in_order_reachable [OF assms] unfolding logs_step_def by (rule logs.reachable_inv)
  then show ?thesis by (simp add: logs_inv_def page_start_def)
qed

text \<open>Pages put together.\<close>

lemma pages_concat: "concat (map (\<lambda>k. take n (drop (n * k) xs)) [0..<m]) = take (n * m) xs"
proof (induction m)
  case (Suc m)
  have "take (n * Suc m) xs = take (n * m) xs @ take n (drop (n * m) xs)"
    by (simp only: mult_Suc_right add.commute [of n "n * m"] take_add)
  with Suc show ?case by simp
qed simp

lemma pages_all: "concat (map (\<lambda>k. take 20 (drop (20 * k) xs)) [0..<(length xs + 19) div 20]) = xs"
  unfolding pages_concat by (rule take_all) presburger

text \<open>With different times there is only one order.\<close>

lemma newest_first_unique:
  assumes "mset ys = mset xs" and "distinct (map log_event.le_at xs)"
  shows "newest_first ys = newest_first xs"
proof -
  let ?f = "\<lambda>e. - log_event.le_at e"
  have "distinct xs" "inj_on log_event.le_at (set xs)" using assms(2) by (auto simp: distinct_map)
  then have inj: "inj_on ?f (set xs)" by (auto simp: inj_on_def)
  have set: "set ys = set xs" using assms(1) by (rule mset_eq_setD)
  have "distinct ys"
    using set mset_eq_length [OF assms(1)] \<open>distinct xs\<close> by (metis card_distinct distinct_card)
  show ?thesis
    unfolding newest_first_def
    by (rule map_sorted_distinct_set_unique [of ?f])
       (use inj set \<open>distinct xs\<close> \<open>distinct ys\<close> in \<open>simp_all add: distinct_map\<close>)
qed

lemma newest_first_sorted:
  assumes "distinct (map log_event.le_at xs)"
  shows "sorted_wrt (\<lambda>a b. log_event.le_at b < log_event.le_at a) (newest_first xs)"
proof -
  let ?f = "\<lambda>e. - log_event.le_at e"
  have "sorted (map ?f (newest_first xs))" by (simp add: newest_first_def)
  moreover have "distinct (map ?f (newest_first xs))"
    using assms by (auto simp: newest_first_def distinct_map inj_on_def)
  ultimately have "sorted_wrt (<) (map ?f (newest_first xs))" by (simp add: strict_sorted_iff)
  then show ?thesis by (simp add: sorted_wrt_map)
qed

text \<open>A filter text without special characters is looked for as it is.\<close>

definition is_plain :: "string \<Rightarrow> bool" where
  "is_plain s \<longleftrightarrow> list_all (\<lambda>c. c \<noteq> CHR ''%'' \<and> c \<noteq> CHR ''_'' \<and> c \<noteq> CHR 0x5C) s"

lemma like_percent_end: "like [CHR ''%''] s"
  by (induction s) (simp_all add: like.simps)

lemma like_prefix: "is_plain p \<Longrightarrow> like (p @ ''%'') s \<longleftrightarrow> prefix p s"
proof (induction p arbitrary: s)
  case (Cons c p)
  then show ?case by (cases s) (auto simp: like.simps is_plain_def)
qed (simp add: like_percent_end)

lemma like_sublist: "is_plain p \<Longrightarrow> like (''%'' @ p @ ''%'') s \<longleftrightarrow> sublist p s"
proof (induction s)
  case Nil
  then show ?case using like_prefix [of p "[]"] by (simp add: like.simps)
next
  case (Cons c s)
  then show ?case using like_prefix [of p "c # s"] by (simp add: like.simps sublist_Cons_right)
qed

lemma lower_char_other:
  assumes "lower_char c = d" and "(of_char d :: nat) < 97"
  shows "c = d"
  using assms(2) of_char_lower [of c] unfolding assms(1) char_eq_iff by (auto split: if_splits)

lemma plain_lower:
  assumes "is_plain s"
  shows "is_plain (ToLower s)"
proof -
  have "(of_char CHR ''%'' :: nat) < 97" "(of_char CHR ''_'' :: nat) < 97" "(of_char CHR 0x5C :: nat) < 97" by simp_all
  from this [THEN lower_char_other [rotated]] assms show ?thesis
    unfolding is_plain_def ToLower_def list_all_iff set_map ball_simps by metis
qed

subsection \<open>Properties\<close>

text \<open>The filter for names: a text without percent sign, underscore or backslash is found anywhere in the name, in lower or
  upper case.\<close>

theorem domain_filter:
  assumes "is_plain part" and "part \<noteq> []"
  shows "ilike name (''%'' @ part @ ''%'') \<longleftrightarrow> sublist (ToLower part) (ToLower name)"
proof -
  have "ToLower (''%'' @ part @ ''%'') = ''%'' @ ToLower part @ ''%''" by (simp add: ToLower_def lower_char_def)
  then show ?thesis using like_sublist [OF plain_lower [OF assms(1)]] by (simp add: ilike_def)
qed

theorem domain_filter_witness: "ilike ''WWW.Example.com'' (''%'' @ ''example'' @ ''%'')"
proof -
  have "is_plain ''example''" by code_simp
  moreover have "sublist (ToLower ''example'') (ToLower ''WWW.Example.com'')"
    unfolding sublist_def by (intro exI [of _ "''www.''"] exI [of _ "''.com''"]) code_simp
  ultimately show ?thesis using domain_filter [of "''example''"] by simp
qed

text \<open>An underscore in the filter is not looked for as it is: names that do not contain it are shown too.\<close>

theorem underscore_matches_any: "ilike ''ad-server.com.'' (''%'' @ ''ad_server'' @ ''%'')"
  by code_simp

text \<open>The rows of a reply, and the part of a filter that does not depend on the page.\<close>

definition body_rows :: "nat \<times> logs_body option \<Rightarrow> log_event list" where
  "body_rows r = (case snd r of None \<Rightarrow> [] | Some b \<Rightarrow> (case lb_data b of None \<Rightarrow> [] | Some es \<Rightarrow> es))"

lemma filter_any_page:
  "readable lib (page_filter (m, fs)) = readable lib (page_filter (0, fs))"
  "log_matches lib (page_filter (m, fs)) = log_matches lib (page_filter (0, fs))"
  by (cases fs; simp add: readable_def log_matches_def page_filter_def fun_eq_iff)+

lemma body_rows_page:
  assumes "0 \<le> m" and "m < 2 ^ 63" and "readable lib (page_filter (m, fs))"
  shows "body_rows (GetLogs lib scan (raw_query (req_url (logs_get (m, fs)))) earlier rows) = log_page lib scan (m, fs) rows"
  using assms by (simp add: GetLogs_page body_rows_def)

definition demo_log_lib :: log_lib where
  "demo_log_lib = \<lparr>lg_text = (\<lambda>s. True), lg_inet = (\<lambda>s. None), lg_int2 = (\<lambda>s. None), lg_time = (\<lambda>s. None)\<rparr>"

definition demo_log_text :: log_text where
  "demo_log_text = \<lparr>lt_time = num_str, lt_inet = (\<lambda>a. []), lt_ms = (\<lambda>e. None)\<rparr>"

definition demo_row :: "int \<Rightarrow> string \<Rightarrow> log_event" where
  "demo_row t name =
     \<lparr>le_at = t, le_client = V4 1, le_user = None, le_group = 1, le_domain = name, le_type = 1, le_action = ActionAllowed,
      le_reason = BlockReasonNone, le_category = None, le_response = NoIP, le_upstream = []\<rparr>"

lemma no_filters:
  "readable lib (page_filter (m, [], [], [], [], []))" "log_matches lib (page_filter (m, [], [], [], [], [])) e"
  by (simp_all add: readable_def log_matches_def page_filter_def go_string_def utf8.simps)



text \<open>C25: Nothing is lost between the pages: when the entries that match have different times, the pages that the log
  page offers, put one after the other, are exactly these entries, newest first, in whatever order the
  database comes across them each time.\<close>

theorem log_pages_complete:
  assumes "\<forall>k xs. mset (scan k xs) = mset xs" and "readable lib (page_filter (0, fs))"
    and "hits = filter (log_matches lib (page_filter (0, fs))) rows" and "distinct (map log_event.le_at hits)"
    and "length hits < 2 ^ 62"
    and "shown = concat (map (\<lambda>k. body_rows (GetLogs lib (scan k) (raw_query (req_url (logs_get (20 * int k, fs)))) rows rows))
        [0..<(length hits + 19) div 20])"
  shows "mset shown = mset hits \<and> sorted_wrt (\<lambda>a b. log_event.le_at b < log_event.le_at a) shown"
proof -
  have "body_rows (GetLogs lib (scan k) (raw_query (req_url (logs_get (20 * int k, fs)))) rows rows) =
      take 20 (drop (20 * k) (newest_first hits))" if "k \<in> set [0..<(length hits + 19) div 20]" for k
  proof -
    have "20 * int k < 2 ^ 63" using that assms(5) by simp
    moreover have "newest_first (scan k hits) = newest_first hits"
      using assms(1,4) by (intro newest_first_unique) simp_all
    moreover have "nat (20 * int k) = 20 * k" by simp
    ultimately show ?thesis
      by (simp add: GetLogs_page filter_any_page [of lib "20 * int k"] assms(2) body_rows_def log_page_def
          assms(3) [symmetric])
  qed
  moreover have "length (newest_first hits) = length hits" by (simp add: newest_first_def)
  ultimately have "shown = concat (map (\<lambda>k. take 20 (drop (20 * k) (newest_first hits))) [0..<(length (newest_first hits) + 19) div 20])"
    unfolding assms(6) by (metis (no_types, lifting) map_cong)
  then have "shown = newest_first hits" by (simp only: pages_all)
  with newest_first_sorted [OF assms(4)] show ?thesis by (simp add: newest_first_def)
qed

theorem log_pages_complete_witness:
  "mset (concat (map (\<lambda>k. body_rows (GetLogs demo_log_lib rev (raw_query (req_url (logs_get (20 * int k, [], [], [], [], []))))
      [demo_row 5 ''a.'', demo_row 7 ''b.''] [demo_row 5 ''a.'', demo_row 7 ''b.''])) [0..<1])) =
    mset [demo_row 5 ''a.'', demo_row 7 ''b.'']"
  using log_pages_complete [of "\<lambda>k. rev" demo_log_lib "([], [], [], [], [])" _ "[demo_row 5 ''a.'', demo_row 7 ''b.'']", OF _ _ refl _ _ refl]
  by (simp add: no_filters) (simp add: demo_row_def)

lemma newest_first_ties:
  assumes "log_event.le_at a = log_event.le_at b"
  shows "newest_first (replicate n a @ [b]) = replicate n a @ [b]" "newest_first (b # replicate n a) = b # replicate n a"
proof -
  have same: "newest_first xs = xs" if "sorted (map (\<lambda>e. - log_event.le_at e) xs)" for xs
    using that unfolding newest_first_def by (rule sort_key_id_if_sorted)
  show "newest_first (replicate n a @ [b]) = replicate n a @ [b]"
    by (rule same) (simp add: sorted_append assms)
  show "newest_first (b # replicate n a) = b # replicate n a"
    by (rule same) (simp add: assms)
qed

text \<open>Entries of the same time need not be shown at all: of 21 the first page can show twenty and the second page one of
  these again.\<close>

theorem ties_hide_entries:
  assumes "log_event.le_at a = log_event.le_at b"
  shows "let rows = replicate 20 a @ [b]; fs = ([], [], [], [], [])
    in body_rows (GetLogs lib id (raw_query (req_url (logs_get (0, fs)))) rows rows) = replicate 20 a \<and>
       body_rows (GetLogs lib rev (raw_query (req_url (logs_get (20, fs)))) rows rows) = [a]"
proof -
  let ?rows = "replicate 20 a @ [b]"
  have page: "body_rows (GetLogs lib scan (raw_query (req_url (logs_get (m, [], [], [], [], [])))) ?rows ?rows) =
      take 20 (drop (nat m) (newest_first (scan ?rows)))" if "0 \<le> m" "m < 2 ^ 63" for scan m
  proof -
    have "filter (log_matches lib (page_filter (m, [], [], [], [], []))) ?rows = ?rows"
      by (rule filter_True) (intro ballI no_filters(2))
    with that show ?thesis by (simp only: body_rows_page no_filters log_page_def fst_conv)
  qed
  have rev: "rev ?rows = b # replicate 20 a" by (simp only: rev_append rev_replicate) simp
  have "take 20 (drop (nat 0) ?rows) = replicate 20 a" by simp
  moreover have "drop (nat 20) (b # replicate 20 a) = [a]" by (simp add: drop_Cons' numeral_eq_Suc)
  moreover have "take 20 [a] = [a]" by simp
  moreover have "(0 :: int) \<le> 0" "(0 :: int) < 2 ^ 63" "(0 :: int) \<le> 20" "(20 :: int) < 2 ^ 63" by simp_all
  ultimately show ?thesis by (simp only: Let_def page id_apply rev newest_first_ties [OF assms])
qed

text \<open>A filter that the database cannot read, such as an address typed halfway, is answered with 500, and the page goes on
  showing the rows and the number of the filter before, without a message.\<close>

theorem unreadable_filter_keeps_rows:
  assumes "inflight s = []" and "go_string v \<noteq> []" and "lg_inet lib (go_string v) = None" and "v \<noteq> lo_clientIP s"
  shows "\<exists>t u. logs_step core_rows (Edit OClientIP v) s = Some t \<and>
    GetLogs lib scan (raw_query (req_url (logs_get (logs_deps t)))) rows rows = (500, None) \<and>
    logs_step core_rows (Reply 0 (log_reply_to lib lt scan rows (logs_deps t))) t = Some u \<and> inflight u = [] \<and>
    lo_clientIP u = v \<and> lo_data u = lo_data s \<and> lo_total u = lo_total s"
proof -
  obtain t where t: "logs_step core_rows (Edit OClientIP v) s = Some t" "inflight t = [(logs_get (logs_deps t), KLogs (logs_deps t))]"
    "logs_deps t = (0, lo_domain s, lo_action s, v, lo_dateFrom s, lo_dateTo s)" "lo_clientIP t = v"
    "lo_data t = lo_data s" "lo_total t = lo_total s"
    using assms(1,4) by (auto simp: logs_eval logs_view_def logs_filters_def logs_table_def logs_pagination_def attr_defs can_type_iff)
  have "\<not> readable lib (page_filter (logs_deps t))" using assms(2,3) by (simp add: t(3) readable_def page_filter_def)
  then have g: "GetLogs lib scan (raw_query (req_url (logs_get (logs_deps t)))) rows rows = (500, None)"
    using GetLogs_page [of "logs_deps t"] by (simp add: t(3))
  then have "log_reply_to lib lt scan rows (logs_deps t) = ORError" by (simp add: log_reply_to_def log_reply_def)
  with t g show ?thesis by (auto simp: logs_step_def page_step_def take_reply_def remove_nth_def)
qed

theorem unreadable_filter_keeps_rows_witness:
  "\<exists>t. logs_step id (Edit OClientIP (js ''10.'')) (logs_init\<lparr>inflight := []\<rparr>) = Some t \<and>
    GetLogs demo_log_lib id (raw_query (req_url (logs_get (logs_deps t)))) [] [] = (500, None)"
proof -
  have "go_string (js ''10.'') = ''10.''" by (rule go_string_plain, code_simp)
  then show ?thesis
    using unreadable_filter_keeps_rows [of "logs_init\<lparr>inflight := []\<rparr>" "js ''10.''" demo_log_lib id id "[]"]
    by (auto simp: demo_log_lib_def logs_init_def fetchLogs_def issue_def js.simps)
qed

end
