(* ===== verification/LogStats.thy ===== *)
theory LogStats
  imports LogQuery
begin

text \<open>
  What the overview shows: \<open>GetDashboardStats\<close> of \<open>internal/store/logs.go\<close> counts the rows of the log, and \<open>GetMetrics\<close> of
  \<open>internal/api/handlers.go\<close> reads the counters of the running server. Both give the records that the page reads.
\<close>

subsection \<open>Statistics\<close>

text \<open>\<open>GROUP BY\<close> with the size of each group, \<open>ORDER BY cnt DESC LIMIT 10\<close>. \<open>scan\<close> is the order in which the database comes
  across the groups: groups of the same size may come in any order. No row is the \<open>nil\<close> slice of Go, \<open>null\<close> in JSON.\<close>

definition group_counts :: "('r \<Rightarrow> 'k) \<Rightarrow> 'r list \<Rightarrow> ('k \<times> nat) list" where
  "group_counts col rows = map (\<lambda>k. (k, length (filter (\<lambda>e. col e = k) rows))) (remdups (map col rows))"

definition top_groups ::
  "(('k \<times> nat) list \<Rightarrow> ('k \<times> nat) list) \<Rightarrow> ('r \<Rightarrow> 'k) \<Rightarrow> 'r list \<Rightarrow> ('k \<times> nat) list" where
  "top_groups scan col rows = take 10 (sort_key (\<lambda>g. - int (snd g)) (scan (group_counts col rows)))"

definition queryTopItems :: "('k \<Rightarrow> jsstr) \<Rightarrow> ('k \<times> nat) list \<Rightarrow> top_item list option" where
  "queryTopItems name groups =
     (if groups = [] then None
      else Some (map (\<lambda>(k, n). \<lparr>item_name = name k, item_count = int n\<rparr>) groups))"

text \<open>\<open>day k\<close> is the moment when the day \<open>k\<close> days before today began.\<close>

definition since :: "(nat \<Rightarrow> int) \<Rightarrow> nat \<Rightarrow> log_event list \<Rightarrow> log_event list" where
  "since day k rows = filter (\<lambda>e. day k \<le> log_event.le_at e) rows"

definition blocked_rows :: "log_event list \<Rightarrow> log_event list" where
  "blocked_rows rows = filter (\<lambda>e. log_event.le_action e = ActionBlocked) rows"

text \<open>Go's \<open>float64(blocked) / float64(total) * 100\<close>.\<close>

definition percent_of :: "nat \<Rightarrow> nat \<Rightarrow> rat" where
  "percent_of n m = js_mul (js_div (fl (of_int (int n))) (fl (of_int (int m)))) 100"

text \<open>The statements run one after the other, each on the rows of its moment.\<close>

definition GetDashboardStats ::
  "log_text \<Rightarrow> ((string \<times> nat) list \<Rightarrow> (string \<times> nat) list) \<Rightarrow> ((ip \<times> nat) list \<Rightarrow> (ip \<times> nat) list) \<Rightarrow>
   (nat \<Rightarrow> int) \<Rightarrow> (nat \<Rightarrow> log_event list) \<Rightarrow> dashboard_stats" where
  "GetDashboardStats lt scanNames scanClients day rows =
     (let today = length (since day 0 (since day 30 (rows 0)))
      in \<lparr>total_today = int today,
          total_week = int (length (since day 7 (since day 30 (rows 0)))),
          total_month = int (length (since day 30 (since day 30 (rows 0)))),
          blocked_percent = Some (if 0 < today then percent_of (length (blocked_rows (since day 0 (rows 1)))) today else 0),
          top_domains = queryTopItems (map of_char) (top_groups scanNames log_event.le_domain (since day 0 (rows 2))),
          top_blocked =
            queryTopItems (map of_char) (top_groups scanNames log_event.le_domain (blocked_rows (since day 0 (rows 3)))),
          top_clients = queryTopItems (lt_inet lt) (top_groups scanClients log_event.le_client (since day 0 (rows 4)))\<rparr>)"

subsection \<open>Metrics\<close>

definition AvgLatencyMs :: "'r handler \<Rightarrow> rat" where
  "AvgLatencyMs h =
     (if h_queryCount h = 0 then 0
      else js_div (js_div (fl (of_int (uint (h_totalLatNs h)))) (fl (of_int (uint (h_queryCount h))))) 1000000)"

text \<open>The cache and the sessions are those of the DNS server; \<open>uptime\<close> is the time since the start in seconds, a
  double. With a database the logger is never \<open>nil\<close>.\<close>

definition GetMetrics :: "rat \<Rightarrow> 'r handler \<Rightarrow> blacklist \<Rightarrow> blacklist \<Rightarrow> pipeline \<Rightarrow> metrics" where
  "GetMetrics uptime h black white p =
     (case GetStats (h_cache h) of (hits, misses) \<Rightarrow>
        \<lparr>uptime_seconds = \<lfloor>uptime\<rfloor>, cache_hits = uint hits, cache_misses = uint misses,
         cache_entries = int (CacheSize (h_cache h)),
         blacklist_domains = int (Size black),
         whitelist_domains = int (Size white),
         active_sessions = int (SessionCount (h_identity h)), log_pending = int (Pending p),
         total_queries = uint (h_queryCount h),
         queries_per_second = (if 0 < uptime then Some (js_div (fl (of_int (uint (h_queryCount h)))) uptime) else None),
         avg_latency_ms = Some (AvgLatencyMs h)\<rparr>)"

subsection \<open>What the groups are\<close>

lemma group_counts_distinct: "distinct (map fst (group_counts col rows))"
  by (simp add: group_counts_def o_def)

lemma group_counts_mem: "(k, n) \<in> set (group_counts col rows) \<longleftrightarrow> k \<in> col ` set rows \<and> n = length (filter (\<lambda>e. col e = k) rows)"
  by (auto simp: group_counts_def)

lemma take_sorted_rest:
  assumes "sorted xs" and "x \<in> set (take n xs)" and "y \<in> set (drop n xs)"
  shows "x \<le> y"
  using assms by (metis append_take_drop_id sorted_append)

text \<open>What the ten largest groups are: distinct, with their exact sizes, largest first, and nothing outside is larger.\<close>

definition is_top :: "('r \<Rightarrow> 'k) \<Rightarrow> 'r list \<Rightarrow> ('k \<times> nat) list \<Rightarrow> bool" where
  "is_top col rows gs \<longleftrightarrow> length gs \<le> 10 \<and> distinct (map fst gs) \<and> sorted_wrt (\<ge>) (map snd gs) \<and>
     (\<forall>(k, n) \<in> set gs. k \<in> col ` set rows \<and> n = length (filter (\<lambda>e. col e = k) rows)) \<and>
     (\<forall>k \<in> col ` set rows. k \<notin> fst ` set gs \<longrightarrow>
        length gs = 10 \<and> (\<forall>(k', n) \<in> set gs. length (filter (\<lambda>e. col e = k) rows) \<le> n))"

lemma top_groups_spec:
  fixes col :: "'r \<Rightarrow> 'k"
  assumes "mset (scan (group_counts col rows)) = mset (group_counts col rows)"
  shows "is_top col rows (top_groups scan col rows)"
proof -
  let ?f = "\<lambda>g :: 'k \<times> nat. - int (snd g)"
  define gs where "gs = sort_key ?f (scan (group_counts col rows))"
  have top: "top_groups scan col rows = take 10 gs" by (simp add: top_groups_def gs_def)
  have perm: "mset gs = mset (group_counts col rows)" using assms by (simp add: gs_def)
  then have set: "set gs = set (group_counts col rows)" by (rule mset_eq_setD)
  have "mset (map fst gs) = mset (map fst (group_counts col rows))" using perm by simp
  then have dist: "distinct (map fst gs)" using group_counts_distinct [of col rows] by (metis mset_eq_imp_distinct_iff)
  have sorted: "sorted (map ?f gs)" by (simp add: gs_def)
  have "sorted_wrt (\<ge>) (map snd gs)"
    using sorted by (simp add: sorted_map sorted_wrt_map)
  then have "sorted_wrt (\<ge>) (take 10 (map snd gs))" by (rule sorted_wrt_take)
  moreover have "distinct (take 10 (map fst gs))" using dist by (rule distinct_take)
  moreover have "k \<in> col ` set rows \<and> n = length (filter (\<lambda>e. col e = k) rows)" if "(k, n) \<in> set (take 10 gs)" for k n
    using set_take_subset [of 10 gs] that unfolding set group_counts_mem [symmetric] by blast
  moreover have "length (take 10 gs) = 10 \<and> (\<forall>(k', n) \<in> set (take 10 gs). length (filter (\<lambda>e. col e = k) rows) \<le> n)"
    if k: "k \<in> col ` set rows" "k \<notin> fst ` set (take 10 gs)" for k
  proof -
    let ?g = "(k, length (filter (\<lambda>e. col e = k) rows))"
    have "?g \<in> set gs" unfolding set group_counts_mem using k(1) by blast
    moreover have "?g \<notin> set (take 10 gs)" using k(2) by (metis fst_conv image_eqI)
    ultimately have drop: "?g \<in> set (drop 10 gs)" by (metis Un_iff append_take_drop_id set_append)
    then have "10 < length gs" by (cases "length gs \<le> 10") auto
    moreover have "length (filter (\<lambda>e. col e = k) rows) \<le> n" if "(k', n) \<in> set (take 10 gs)" for k' n
    proof -
      have "?f (k', n) \<in> set (take 10 (map ?f gs))" using that unfolding take_map set_map by (rule imageI)
      moreover have "?f ?g \<in> set (drop 10 (map ?f gs))" using drop unfolding drop_map set_map by (rule imageI)
      ultimately show ?thesis using take_sorted_rest [OF sorted] by force
    qed
    ultimately show ?thesis by auto
  qed
  ultimately show ?thesis unfolding top is_top_def by (auto simp: take_map)
qed

lemma since_shorter: "day k \<le> day l \<Longrightarrow> length (since day l rows) \<le> length (since day k rows)"
  unfolding since_def by (induction rows) auto

lemma since_since: "day k \<le> day l \<Longrightarrow> since day l (since day k rows) = since day l rows"
  unfolding since_def filter_filter by (rule filter_cong) auto

lemma percent_bounds:
  assumes "n \<le> m" and "0 < m" and "m < 2 ^ 53"
  shows "0 \<le> percent_of n m" "percent_of n m \<le> 100"
proof -
  have f: "fl (of_int (int n)) = of_int (int n)" "fl (of_int (int m)) = of_int (int m)"
    by (rule fl_int; use assms in simp)+
  have q: "0 \<le> (of_int (int n) / of_int (int m) :: rat)" "of_int (int n) / of_int (int m) \<le> (of_int 1 :: rat)"
    using assms(1,2) by (simp_all add: divide_le_eq)
  have d: "0 \<le> js_div (of_int (int n)) (of_int (int m))" "js_div (of_int (int n)) (of_int (int m)) \<le> of_int 1"
    unfolding js_div_def using fl_nonneg [OF q(1)] fl_le_int [OF q] by simp_all
  show "0 \<le> percent_of n m" unfolding percent_of_def f js_mul_def using d(1) by (intro fl_nonneg) simp
  have "fl (js_div (of_int (int n)) (of_int (int m)) * 100) \<le> of_int 100"
    using d by (intro fl_le_int) simp_all
  then show "percent_of n m \<le> 100" unfolding percent_of_def f js_mul_def by simp
qed

lemma top_groups_empty:
  assumes "mset (scan (group_counts col rows)) = mset (group_counts col rows)"
  shows "top_groups scan col rows = [] \<longleftrightarrow> rows = []"
proof -
  have "length (scan (group_counts col rows)) = length (group_counts col rows)"
    using assms by (rule mset_eq_length)
  then have "top_groups scan col rows = [] \<longleftrightarrow> group_counts col rows = []"
    by (auto simp: top_groups_def min_def simp flip: length_0_conv)
  then show ?thesis by (simp add: group_counts_def)
qed

subsection \<open>Properties\<close>

text \<open>The statistics of the overview are those of the log: on a log that does not change meanwhile, the totals are the
  numbers of rows of the three periods and grow with the period, the blocked part is a percentage, and each of the
  three tables holds ten largest groups of today with their exact counts, in whatever order the database finds them;
  the tables are null exactly on a day without queries.\<close>

theorem stats_of_log:
  assumes "\<forall>xs. mset (scanNames xs) = mset xs" and "\<forall>xs. mset (scanClients xs) = mset xs"
    and "day 30 \<le> day 7" and "day 7 \<le> day 0" and "length rows < 2 ^ 53"
  shows "let st = GetDashboardStats lt scanNames scanClients day (\<lambda>_. rows); today = since day 0 rows
    in total_today st = int (length today) \<and> total_week st = int (length (since day 7 rows)) \<and>
       total_month st = int (length (since day 30 rows)) \<and>
       total_today st \<le> total_week st \<and> total_week st \<le> total_month st \<and>
       (\<exists>p. blocked_percent st = Some p \<and> 0 \<le> p \<and> p \<le> 100) \<and>
       (\<exists>gs. top_domains st = queryTopItems (map of_char) gs \<and> is_top log_event.le_domain today gs) \<and>
       (\<exists>gs. top_blocked st = queryTopItems (map of_char) gs \<and> is_top log_event.le_domain (blocked_rows today) gs) \<and>
       (\<exists>gs. top_clients st = queryTopItems (lt_inet lt) gs \<and> is_top log_event.le_client today gs) \<and>
       (top_domains st = None \<longleftrightarrow> today = [])"
proof -
  let ?st = "GetDashboardStats lt scanNames scanClients day (\<lambda>_. rows)" and ?today = "since day 0 rows"
  have d: "day 30 \<le> day 0" using assms(3,4) by (rule order_trans)
  have totals: "total_today ?st = int (length ?today)" "total_week ?st = int (length (since day 7 rows))"
    "total_month ?st = int (length (since day 30 rows))"
    by (simp_all add: GetDashboardStats_def Let_def since_since d assms(3))
  have "length (blocked_rows ?today) \<le> length ?today" "length ?today \<le> length rows"
    unfolding blocked_rows_def since_def by (rule length_filter_le)+
  then have "\<exists>p. blocked_percent ?st = Some p \<and> 0 \<le> p \<and> p \<le> 100"
    using percent_bounds [of "length (blocked_rows ?today)" "length ?today"] assms(5)
    by (simp add: GetDashboardStats_def Let_def since_since d)
  moreover have "top_domains ?st = queryTopItems (map of_char) (top_groups scanNames log_event.le_domain ?today)"
    "top_blocked ?st = queryTopItems (map of_char) (top_groups scanNames log_event.le_domain (blocked_rows ?today))"
    "top_clients ?st = queryTopItems (lt_inet lt) (top_groups scanClients log_event.le_client ?today)"
    by (simp_all add: GetDashboardStats_def Let_def)
  moreover have "is_top log_event.le_domain r (top_groups scanNames log_event.le_domain r)"
    "is_top log_event.le_client r (top_groups scanClients log_event.le_client r)"
    "top_groups scanNames log_event.le_domain r = [] \<longleftrightarrow> r = []" for r
    using assms(1,2) by (simp_all add: top_groups_spec top_groups_empty)
  moreover have "queryTopItems name gs = None \<longleftrightarrow> gs = []" for name and gs :: "(string \<times> nat) list"
    by (simp add: queryTopItems_def)
  moreover have "total_today ?st \<le> total_week ?st" "total_week ?st \<le> total_month ?st"
    unfolding totals using since_shorter [of day, OF assms(3)] since_shorter [of day, OF assms(4)] by simp_all
  ultimately show ?thesis unfolding Let_def using totals by metis
qed

theorem stats_of_log_witness:
  "total_today (GetDashboardStats demo_log_text rev rev (\<lambda>k. 100 - int k) (\<lambda>_. [demo_row 100 ''a.'', demo_row 95 ''a.''])) = 1 \<and>
   total_week (GetDashboardStats demo_log_text rev rev (\<lambda>k. 100 - int k) (\<lambda>_. [demo_row 100 ''a.'', demo_row 95 ''a.''])) = 2"
  using stats_of_log [of rev rev "\<lambda>k. 100 - int k" "[demo_row 100 ''a.'', demo_row 95 ''a.'']" demo_log_text]
  by (simp add: Let_def since_def) (simp add: demo_row_def)


end
