(* ===== verification/Downloads.thy ===== *)
theory Downloads
  imports ConfigApi "HOL-Library.Multiset"
begin

text \<open>
  External lists: the updater of \<open>internal/filter/updater.go\<close>, which runs at startup and once a day, and the handler
  \<open>DownloadLists\<close> of \<open>internal/api/handlers.go\<close>. Both download each active list that has an address and replace its
  entries in one transaction. The answer to the request for a list is an input, as is the order of the rows. A file
  holds UTF-8; other bytes would be refused by the database like a domain that does not fit its column.
\<close>

subsection \<open>One list\<close>

definition external_lists :: "tables \<Rightarrow> list_row list" where
  "external_lists T = filter (\<lambda>l. lr_sourceURL l \<noteq> [] \<and> lr_active l) (tb_lists T)"

text \<open>A statement that fails aborts its transaction, \<^const>\<open>None\<close>: every later statement of it fails too, and its end is a
  rollback. The loops do not stop at an error, they only count what succeeds.\<close>

definition delete_entries :: "int \<Rightarrow> tables \<Rightarrow> tables" where
  "delete_entries listID T = T\<lparr>tb_entries := filter (\<lambda>(l, _). l \<noteq> listID) (tb_entries T)\<rparr>"

fun tx_inserts :: "int \<Rightarrow> string list \<Rightarrow> nat \<Rightarrow> tables option \<Rightarrow> nat \<times> tables option" where
  "tx_inserts listID [] inserted tx = (inserted, tx)"
| "tx_inserts listID (domain # domains) inserted None = tx_inserts listID domains inserted None"
| "tx_inserts listID (domain # domains) inserted (Some T) =
     (if listID \<in> list_ids T \<and> domain_fits domain
      then tx_inserts listID domains (Suc inserted) (Some (T\<lparr>tb_entries := insert_row (listID, domain) (tb_entries T)\<rparr>))
      else tx_inserts listID domains inserted None)"

definition updateList :: "int \<Rightarrow> (nat \<times> string) option \<Rightarrow> tables \<Rightarrow> tables" where
  "updateList listID resp T =
     (case FetchDomains resp of
        (domains, Some err) \<Rightarrow> T
      | (domains, None) \<Rightarrow>
          if domains = [] then T
          else (case tx_inserts listID domains 0 (Some (delete_entries listID T)) of
                  (inserted, None) \<Rightarrow> T
                | (inserted, Some T') \<Rightarrow> set_domain_count listID inserted T'))"

definition download_list :: "int \<Rightarrow> (nat \<times> string) option \<Rightarrow> tables \<Rightarrow> int \<times> tables" where
  "download_list listID resp T =
     (case FetchDomains resp of
        (domains, Some err) \<Rightarrow> (- 1, T)
      | (domains, None) \<Rightarrow>
          if domains = [] then (0, T)
          else (case tx_inserts listID domains 0 (Some (delete_entries listID T)) of
                  (inserted, None) \<Rightarrow> (int inserted, T)
                | (inserted, Some T') \<Rightarrow> (int inserted, set_domain_count listID inserted T')))"

subsection \<open>All lists\<close>

definition updateAll ::
  "(list_row \<Rightarrow> (nat \<times> string) option) \<Rightarrow> (list_row list \<Rightarrow> list_row list) \<Rightarrow> tables \<Rightarrow> tables" where
  "updateAll fetch scan T = fold (\<lambda>l. updateList (lr_id l) (fetch l)) (scan (external_lists T)) T"

definition download_step ::
  "(list_row \<Rightarrow> (nat \<times> string) option) \<Rightarrow> list_row \<Rightarrow> (string \<rightharpoonup> int) \<times> tables \<Rightarrow> (string \<rightharpoonup> int) \<times> tables" where
  "download_step fetch l = (\<lambda>(results, T).
     case download_list (lr_id l) (fetch l) T of (n, T') \<Rightarrow> (results(lr_name l \<mapsto> n), T'))"

text \<open>The results by the name of the list, the tables, and the operations on the engine of a reload that reads \<open>cfg\<close>.
  Without an external list nothing else happens.\<close>

definition DownloadLists ::
  "(list_row \<Rightarrow> (nat \<times> string) option) \<Rightarrow> (list_row list \<Rightarrow> list_row list) \<Rightarrow> config \<Rightarrow> tables \<Rightarrow>
   (string \<rightharpoonup> int) option \<times> tables \<times> engine_op list" where
  "DownloadLists fetch scan cfg T =
     (let lists = scan (external_lists T)
      in if lists = [] then (None, T, [])
         else case fold (download_step fetch) lists (Map.empty, T) of
                (results, T') \<Rightarrow> (Some results, T', snd (ReloadLists cfg)))"

subsection \<open>What a download does\<close>

definition good_download :: "(nat \<times> string) option \<Rightarrow> bool" where
  "good_download resp \<longleftrightarrow>
     snd (FetchDomains resp) = None \<and> fst (FetchDomains resp) \<noteq> [] \<and> list_all domain_fits (fst (FetchDomains resp))"

definition replace_entries :: "int \<Rightarrow> string list \<Rightarrow> tables \<Rightarrow> tables" where
  "replace_entries l ds T =
     set_domain_count l (length ds)
       (T\<lparr>tb_entries := fold insert_row (map (Pair l) ds) (filter (\<lambda>(k, _). k \<noteq> l) (tb_entries T))\<rparr>)"

lemma tx_inserts_aborted: "tx_inserts l ds n None = (n, None)"
  by (induction ds arbitrary: n) simp_all

lemma tx_inserts_spec:
  "l \<in> list_ids T \<Longrightarrow> tx_inserts l ds n (Some T) =
     (n + length (takeWhile domain_fits ds),
      if list_all domain_fits ds then Some (T\<lparr>tb_entries := fold insert_row (map (Pair l) ds) (tb_entries T)\<rparr>) else None)"
  by (induction ds arbitrary: n T) (simp_all add: tx_inserts_aborted)

lemma delete_entries_ids [simp]: "list_ids (delete_entries l T) = list_ids T"
  by (simp add: delete_entries_def)

lemma download_list_spec:
  assumes "l \<in> list_ids T"
  shows "download_list l resp T =
    (if snd (FetchDomains resp) \<noteq> None then - 1 else int (length (takeWhile domain_fits (fst (FetchDomains resp)))),
     if good_download resp then replace_entries l (fst (FetchDomains resp)) T else T)"
proof (cases "FetchDomains resp")
  case (Pair ds err)
  have "length (takeWhile domain_fits ds) = length ds" if "list_all domain_fits ds"
    using that by (induction ds) simp_all
  with Pair assms show ?thesis
    by (cases err)
       (auto simp: download_list_def good_download_def replace_entries_def tx_inserts_spec delete_entries_def)
qed

lemma updateList_download: "updateList l resp T = snd (download_list l resp T)"
  by (auto simp: updateList_def download_list_def split: prod.splits option.splits)

lemma replace_entries_fields [simp]:
  "set (tb_entries (replace_entries l ds T)) = {l} \<times> set ds \<union> {(k, d). (k, d) \<in> set (tb_entries T) \<and> k \<noteq> l}"
  "tb_groups (replace_entries l ds T) = tb_groups T" "tb_categories (replace_entries l ds T) = tb_categories T"
  "tb_policies (replace_entries l ds T) = tb_policies T"
  "tb_listCategories (replace_entries l ds T) = tb_listCategories T" "tb_ranges (replace_entries l ds T) = tb_ranges T"
  "group_ids (replace_entries l ds T) = group_ids T" "range_ids (replace_entries l ds T) = range_ids T"
  "list_ids (replace_entries l ds T) = list_ids T" "active_list (replace_entries l ds T) k t = active_list T k t"
proof -
  show "set (tb_entries (replace_entries l ds T)) = {l} \<times> set ds \<union> {(k, d). (k, d) \<in> set (tb_entries T) \<and> k \<noteq> l}"
    by (simp add: replace_entries_def set_domain_count_def keyed_rows)
  have "active_list (U\<lparr>tb_entries := es\<rparr>) k t = active_list U k t" for U es by (simp add: active_list_def)
  then show "active_list (replace_entries l ds T) k t = active_list T k t"
    by (simp add: replace_entries_def)
qed (simp_all add: replace_entries_def, simp_all add: set_domain_count_def)

lemma tables_ok_replace:
  assumes "tables_ok T" and "l \<in> list_ids T"
  shows "tables_ok (replace_entries l ds T)"
proof -
  have "distinct (tb_entries (replace_entries l ds T))"
    using assms(1) by (simp add: replace_entries_def set_domain_count_def tables_ok_def insert_rows)
  moreover have "fst ` set (tb_entries (replace_entries l ds T)) \<subseteq> list_ids T"
    using assms by (auto simp: tables_ok_def)
  moreover have "map lr_id (tb_lists (replace_entries l ds T)) = map lr_id (tb_lists T)"
    by (simp add: replace_entries_def)
  ultimately show ?thesis using assms(1) by (simp add: tables_ok_def)
qed

text \<open>Each list on its own: a good download replaces its entries, anything else leaves them.\<close>

definition updated :: "(list_row \<Rightarrow> (nat \<times> string) option) \<Rightarrow> list_row list \<Rightarrow> (int \<times> string) set \<Rightarrow> (int \<times> string) set" where
  "updated fetch rows old =
     {(l, d). if \<exists>r \<in> set rows. lr_id r = l \<and> good_download (fetch r)
        then \<exists>r \<in> set rows. lr_id r = l \<and> d \<in> set (fst (FetchDomains (fetch r))) else (l, d) \<in> old}"

lemma updated_Cons:
  assumes "lr_id r \<notin> lr_id ` set rows"
  shows "updated fetch (r # rows) old = updated fetch rows (updated fetch [r] old)"
proof (rule set_eqI)
  fix x :: "int \<times> string"
  obtain l d where x: "x = (l, d)" by fastforce
  show "x \<in> updated fetch (r # rows) old \<longleftrightarrow> x \<in> updated fetch rows (updated fetch [r] old)"
  proof (cases "lr_id r = l")
    case True
    then have "\<forall>q \<in> set rows. lr_id q \<noteq> l" using assms by (metis image_eqI)
    with True show ?thesis by (simp add: updated_def x)
  next
    case False
    then show ?thesis by (simp add: updated_def x) blast
  qed
qed

lemma updateList_spec:
  assumes "l \<in> list_ids T"
  shows "updateList l resp T = (if good_download resp then replace_entries l (fst (FetchDomains resp)) T else T)"
  unfolding updateList_download download_list_spec [OF assms] by simp

lemma update_fold:
  assumes "tables_ok T" and "distinct (map lr_id rows)" and "lr_id ` set rows \<subseteq> list_ids T"
    and "T' = fold (\<lambda>l. updateList (lr_id l) (fetch l)) rows T"
  shows "tables_ok T' \<and> set (tb_entries T') = updated fetch rows (set (tb_entries T)) \<and>
    (tb_groups T', tb_categories T', tb_policies T', tb_listCategories T', tb_ranges T') =
      (tb_groups T, tb_categories T, tb_policies T, tb_listCategories T, tb_ranges T) \<and>
    list_ids T' = list_ids T \<and> active_list T' = active_list T"
  using assms
proof (induction rows arbitrary: T)
  case (Cons r rows)
  let ?U = "updateList (lr_id r) (fetch r) T"
  from Cons.prems have r: "lr_id r \<in> list_ids T" "lr_id r \<notin> lr_id ` set rows" by auto
  have U: "?U = (if good_download (fetch r) then replace_entries (lr_id r) (fst (FetchDomains (fetch r))) T else T)"
    by (rule updateList_spec [OF r(1)])
  have same: "tables_ok ?U" "list_ids ?U = list_ids T" "active_list ?U = active_list T"
    "(tb_groups ?U, tb_categories ?U, tb_policies ?U, tb_listCategories ?U, tb_ranges ?U) =
      (tb_groups T, tb_categories T, tb_policies T, tb_listCategories T, tb_ranges T)"
    using Cons.prems(1) tables_ok_replace [OF Cons.prems(1) r(1)] by (auto simp: U fun_eq_iff)
  have "set (tb_entries ?U) = updated fetch [r] (set (tb_entries T))"
    by (auto simp: U updated_def)
  moreover note updated_Cons [OF r(2)]
  moreover from Cons.IH [of ?U] Cons.prems same
  have "tables_ok T' \<and> set (tb_entries T') = updated fetch rows (set (tb_entries ?U)) \<and>
    (tb_groups T', tb_categories T', tb_policies T', tb_listCategories T', tb_ranges T') =
      (tb_groups ?U, tb_categories ?U, tb_policies ?U, tb_listCategories ?U, tb_ranges ?U) \<and>
    list_ids T' = list_ids ?U \<and> active_list T' = active_list ?U" by simp
  ultimately show ?case using same by simp
qed (simp add: updated_def)

lemma external_rows:
  assumes "tables_ok T" and "mset (scan (external_lists T)) = mset (external_lists T)"
  shows "distinct (map lr_id (scan (external_lists T)))" "set (scan (external_lists T)) = set (external_lists T)"
    "lr_id ` set (scan (external_lists T)) \<subseteq> list_ids T"
proof -
  have "distinct (map lr_id (external_lists T))"
    using assms(1) by (simp add: external_lists_def tables_ok_def distinct_map_filter)
  moreover have "mset (map lr_id (scan (external_lists T))) = mset (map lr_id (external_lists T))"
    using assms(2) by simp
  ultimately show "distinct (map lr_id (scan (external_lists T)))" by (metis mset_eq_imp_distinct_iff)
  show "set (scan (external_lists T)) = set (external_lists T)" using assms(2) by (rule mset_eq_setD)
  then show "lr_id ` set (scan (external_lists T)) \<subseteq> list_ids T"
    by (auto simp: external_lists_def list_ids_def)
qed

lemma download_fold:
  "snd (fold (download_step fetch) rows (results, T)) = fold (\<lambda>l. updateList (lr_id l) (fetch l)) rows T"
proof (induction rows arbitrary: results T)
  case (Cons r rows)
  obtain n U where "download_list (lr_id r) (fetch r) T = (n, U)" by fastforce
  with Cons show ?case by (simp add: download_step_def updateList_download)
qed simp

lemma FetchDomains_file:
  assumes "list_all (\<lambda>l. line_ok l \<and> length (line_text l) < max_token) ls" and "length (file_text ls) \<le> body_limit"
  shows "FetchDomains (Some (200, file_text ls)) = (concat (map line_domain ls), None)"
  using assms scan_entries_file [of ls] by (simp add: FetchDomains_def list_all_iff)

text \<open>A database with one external list, and the answers to its request.\<close>

definition demo_list_row :: list_row where
  "demo_list_row = \<lparr>lr_id = 9, lr_name = ''ads'', lr_sourceURL = ''http://lists.example'', lr_type = 0, lr_active = True,
     lr_domainCount = 1\<rparr>"

definition demo_external :: tables where
  "demo_external =
     \<lparr>tb_groups = [], tb_categories = [], tb_policies = [], tb_lists = [demo_list_row], tb_entries = [(9, ''old.org'')],
      tb_listCategories = [], tb_ranges = []\<rparr>"

definition demo_file :: "list_line list" where
  "demo_file = [CommentLine '' ads'', HostsLine ''0.0.0.0'' ''ads.example'', DomainLine ''a.com'']"

lemma demo_external_ok:
  "tables_ok demo_external" "9 \<in> list_ids demo_external" "external_lists demo_external = [demo_list_row]"
  by (simp_all add: tables_ok_def demo_external_def demo_list_row_def group_ids_def list_ids_def range_ids_def
      is_serial_def external_lists_def)

lemma demo_file_ok:
  "list_all (\<lambda>l. line_ok l \<and> length (line_text l) < max_token) demo_file" "length (file_text demo_file) \<le> body_limit"
  "concat (map line_domain demo_file) = [''ads.example'', ''a.com'']"
  by (simp_all add: demo_file_def plain_name_def go_space_def max_token_def file_text_def body_limit_def)

definition demo_read :: config where
  "demo_read = \<lparr>cf_entries = Some [(''ads.example'', 0), (''a.com'', 0)], cf_categories = Some [], cf_policies = Some [],
     cf_blockFile = None, cf_allowFile = None\<rparr>"

lemma demo_got: "FetchDomains (Some (200, file_text demo_file)) = ([''ads.example'', ''a.com''], None)"
  using FetchDomains_file [OF demo_file_ok(1,2)] by (simp add: demo_file_ok(3))

lemma demo_updated:
  "updated (\<lambda>l. Some (200, file_text demo_file)) [demo_list_row] {(9, ''old.org'')} = {(9, ''ads.example''), (9, ''a.com'')}"
proof -
  have "good_download (Some (200, file_text demo_file))"
    by (simp add: good_download_def demo_got varchar_fits_def text_fits_def)
  then show ?thesis by (auto simp: updated_def demo_got demo_list_row_def)
qed

lemma demo_reads: "reads_tables (updateAll (\<lambda>l. Some (200, file_text demo_file)) id demo_external) demo_read []"
proof -
  let ?T' = "updateAll (\<lambda>l. Some (200, file_text demo_file)) id demo_external"
  note rows = external_rows [of demo_external id, OF demo_external_ok(1)]
  have "set (tb_entries demo_external) = {(9, ''old.org'')}" "tb_policies demo_external = []"
    "tb_listCategories demo_external = []" "active_list demo_external 9 t \<longleftrightarrow> t = 0" for t
    by (simp_all add: demo_external_def active_list_def demo_list_row_def)
  with update_fold [OF demo_external_ok(1) rows(1,3) updateAll_def [of "\<lambda>l. Some (200, file_text demo_file)" id]]
  have "set (tb_entries ?T') = {(9, ''ads.example''), (9, ''a.com'')}" "tb_policies ?T' = []" "tb_listCategories ?T' = []"
    "active_list ?T' 9 t \<longleftrightarrow> t = 0" for t
    by (simp_all add: demo_external_ok(3) demo_updated)
  then have "entry_rows ?T' = {(''ads.example'', 0), (''a.com'', 0)}" "category_rows ?T' = {}" "set (tb_policies ?T') = {}"
    by (auto simp: entry_rows_def category_rows_def)
  then show ?thesis by (simp add: reads_tables_def demo_read_def map_order_def LoadCategoryDomains_def)
qed

subsection \<open>Properties\<close>





text \<open>C35: One bad domain blocks the whole update: if one domain of a file is too long for its column, the insert aborts the
  transaction, so the updater keeps the old entries although its loop means to skip such a domain; the button does the
  same, and answers as if the domains before the bad one had been stored.\<close>

theorem bad_domain_blocks_update:
  assumes "l \<in> list_ids T" and "FetchDomains resp = (good @ bad # rest, None)" and "list_all domain_fits good"
    and "\<not> domain_fits bad"
  shows "updateList l resp T = T \<and> download_list l resp T = (int (length good), T)"
proof -
  have "takeWhile domain_fits (good @ bad # rest) = good"
    using assms(3,4) by (induction good) simp_all
  then have "download_list l resp T = (int (length good), T)"
    using assms(2,4) by (simp add: download_list_spec [OF assms(1)] good_download_def)
  then show ?thesis by (simp add: updateList_download)
qed

theorem bad_domain_blocks_update_witness:
  "download_list 9 (Some (200, file_text [DomainLine ''a.com'', DomainLine (replicate 254 (CHR ''x''))])) demo_external =
     (1, demo_external)"
proof -
  have got: "FetchDomains (Some (200, file_text [DomainLine ''a.com'', DomainLine (replicate 254 (CHR ''x''))])) =
      ([''a.com''] @ replicate 254 (CHR ''x'') # [], None)"
    by (subst FetchDomains_file) (simp_all add: plain_name_def go_space_def max_token_def file_text_def body_limit_def)
  have "list_all domain_fits [''a.com'']" "\<not> domain_fits (replicate 254 (CHR ''x''))"
    by (simp_all add: varchar_fits_def text_fits_def)
  from bad_domain_blocks_update [OF demo_external_ok(2) got this] show ?thesis by simp
qed

end
