(* ===== verification/Accounts.thy ===== *)
theory Accounts
  imports AdminStore LoginPage
begin

text \<open>
  The accounts of the dashboard: the table \<open>admin_users\<close> with the statements of \<open>internal/store/admin.go\<close>, and the
  handlers of \<open>internal/api/handlers.go\<close> that log in, refresh a token and create, change and deactivate users. Hashing
  belongs to bcrypt and signing to golang-jwt, so both are parameters. Times are in seconds.
\<close>

subsection \<open>Libraries\<close>

record bcrypt_lib =
  bc_Generate :: "string \<Rightarrow> string \<Rightarrow> string option"
  bc_Compare :: "string \<Rightarrow> string \<Rightarrow> bool"

text \<open>A hash, made with any salt, matches its password.\<close>

definition bcrypt_ok :: "bcrypt_lib \<Rightarrow> bool" where
  "bcrypt_ok lib \<longleftrightarrow> (\<forall>salt p h. bc_Generate lib salt p = Some h \<longrightarrow> bc_Compare lib h p)"

record claims =
  cl_user :: auth_user
  cl_exp :: nat
  cl_iat :: nat

record jwt_lib =
  jw_sign :: "claims \<Rightarrow> jsstr option"
  jw_parse :: "nat \<Rightarrow> jsstr \<Rightarrow> auth_user option"

text \<open>Signing succeeds and gives a token, and a signed token has its claims until its time is over.\<close>

definition jwt_ok :: "jwt_lib \<Rightarrow> bool" where
  "jwt_ok lib \<longleftrightarrow>
     (\<forall>c. \<exists>tok. tok \<noteq> [] \<and> jw_sign lib c = Some tok \<and>
        (\<forall>now. jw_parse lib now tok = (if now < cl_exp c then Some (cl_user c) else None)))"

subsection \<open>The table\<close>

record user_row =
  ur_id :: int
  ur_username :: string
  ur_password :: string
  ur_role :: int
  ur_active :: bool

definition users_ok :: "user_row list \<Rightarrow> bool" where
  "users_ok us \<longleftrightarrow> distinct (map ur_id us) \<and> distinct (map ur_username us) \<and>
     list_all (\<lambda>u. is_serial (ur_id u) \<and> in_int16 (ur_role u)) us"

definition AuthenticateAdmin :: "bcrypt_lib \<Rightarrow> string \<Rightarrow> string \<Rightarrow> user_row list \<Rightarrow> user_row option" where
  "AuthenticateAdmin lib username password us =
     (case find (\<lambda>u. ur_username u = username \<and> ur_active u) us of
        None \<Rightarrow> None
      | Some user \<Rightarrow> if bc_Compare lib (ur_password user) password then Some user else None)"

definition CreateAdminUser ::
  "bcrypt_lib \<Rightarrow> string \<Rightarrow> int \<Rightarrow> string \<Rightarrow> string \<Rightarrow> int \<Rightarrow> user_row list \<Rightarrow> user_row list option" where
  "CreateAdminUser lib salt newID username password role us =
     (case bc_Generate lib salt password of
        None \<Rightarrow> None
      | Some hash \<Rightarrow>
          if is_serial newID \<and> newID \<notin> ur_id ` set us \<and> username \<notin> ur_username ` set us \<and>
             varchar_fits 100 username \<and> varchar_fits 255 hash \<and> in_int16 role
          then Some (us @ [\<lparr>ur_id = newID, ur_username = username, ur_password = hash, ur_role = role,
                  ur_active = True\<rparr>])
          else None)"

definition ListAdminUsers :: "user_row list \<Rightarrow> user_row list" where
  "ListAdminUsers us = sort_key ur_id us"

definition UpdateAdminUser :: "int \<Rightarrow> string \<Rightarrow> int \<Rightarrow> bool \<Rightarrow> user_row list \<Rightarrow> user_row list option" where
  "UpdateAdminUser userID username role active us =
     (if in_int32 userID \<and> in_int16 role \<and> text_fits username \<and>
         (userID \<notin> ur_id ` set us \<or>
          varchar_fits 100 username \<and> username \<notin> ur_username ` {u \<in> set us. ur_id u \<noteq> userID})
      then Some (map (\<lambda>u. if ur_id u = userID
              then u\<lparr>ur_username := username, ur_role := role, ur_active := active\<rparr> else u) us)
      else None)"

definition DeleteAdminUser :: "int \<Rightarrow> user_row list \<Rightarrow> user_row list option" where
  "DeleteAdminUser userID us =
     (if in_int32 userID
      then Some (map (\<lambda>u. if ur_id u = userID then u\<lparr>ur_active := False\<rparr> else u) us) else None)"

subsection \<open>Handlers\<close>

text \<open>The claims carry the name of the user byte by byte.\<close>

definition user_claims :: "user_row \<Rightarrow> auth_user" where
  "user_claims u = \<lparr>au_id = ur_id u, au_username = map of_char (ur_username u), au_role = ur_role u\<rparr>"

definition issue_token :: "jwt_lib \<Rightarrow> nat \<Rightarrow> auth_user \<Rightarrow> nat \<times> jsstr option" where
  "issue_token lib now user =
     (case jw_sign lib \<lparr>cl_user = user, cl_exp = now + 3600, cl_iat = now\<rparr> of
        None \<Rightarrow> (500, None)
      | Some tok \<Rightarrow> (200, Some tok))"

definition handle_Login ::
  "bcrypt_lib \<Rightarrow> jwt_lib \<Rightarrow> nat \<Rightarrow> json option \<Rightarrow> user_row list \<Rightarrow> nat \<times> jsstr option" where
  "handle_Login blib jlib now body us =
     (case (decode_value decode_string [] (js ''username'') body, decode_value decode_string [] (js ''password'') body) of
        (Some username, Some password) \<Rightarrow>
          (case AuthenticateAdmin blib username password us of
             None \<Rightarrow> (401, None)
           | Some user \<Rightarrow> issue_token jlib now (user_claims user))
      | _ \<Rightarrow> (400, None))"

text \<open>The refresh is behind \<open>AuthMiddleware\<close>, which hands it the user of the claims.\<close>

definition handle_RefreshToken :: "jwt_lib \<Rightarrow> nat \<Rightarrow> jsstr option \<Rightarrow> nat \<times> jsstr option" where
  "handle_RefreshToken lib now header =
     (case access_check (jw_parse lib now) Authenticated header of
        Inl status \<Rightarrow> (status, None)
      | Inr (Some user) \<Rightarrow> issue_token lib now user
      | Inr None \<Rightarrow> (500, None))"

definition handle_CreateUser ::
  "bcrypt_lib \<Rightarrow> string \<Rightarrow> int \<Rightarrow> json option \<Rightarrow> user_row list \<Rightarrow> nat \<times> user_row list" where
  "handle_CreateUser lib salt newID body us =
     (case (decode_value decode_string [] (js ''username'') body, decode_value decode_string [] (js ''password'') body,
            decode_value decode_int 0 (js ''role'') body) of
        (Some username, Some password, Some role) \<Rightarrow>
          (case CreateAdminUser lib salt newID username password role us of
             None \<Rightarrow> (500, us)
           | Some us' \<Rightarrow> (201, us'))
      | _ \<Rightarrow> (400, us))"

definition handle_UpdateUser :: "jsstr \<Rightarrow> json option \<Rightarrow> user_row list \<Rightarrow> nat \<times> user_row list" where
  "handle_UpdateUser idParam body us =
     (case Atoi idParam of
        None \<Rightarrow> (400, us)
      | Some userID \<Rightarrow>
          (case (decode_value decode_string [] (js ''username'') body, decode_value decode_int 0 (js ''role'') body,
                 decode_value decode_bool False (js ''active'') body) of
             (Some username, Some role, Some active) \<Rightarrow>
               (case UpdateAdminUser userID username role active us of
                  None \<Rightarrow> (500, us)
                | Some us' \<Rightarrow> (200, us'))
           | _ \<Rightarrow> (400, us)))"

definition handle_DeleteUser :: "jsstr \<Rightarrow> user_row list \<Rightarrow> nat \<times> user_row list" where
  "handle_DeleteUser idParam us =
     (case Atoi idParam of
        None \<Rightarrow> (400, us)
      | Some userID \<Rightarrow>
          (case DeleteAdminUser userID us of
             None \<Rightarrow> (500, us)
           | Some us' \<Rightarrow> (200, us')))"

subsection \<open>Histories of accounts\<close>

datatype account_op =
  OpCreateUser string int "json option" | OpUpdateUser jsstr "json option" | OpDeleteUser jsstr

fun account_apply :: "bcrypt_lib \<Rightarrow> account_op \<Rightarrow> user_row list \<Rightarrow> user_row list" where
  "account_apply lib (OpCreateUser salt newID body) us = snd (handle_CreateUser lib salt newID body us)"
| "account_apply lib (OpUpdateUser idParam body) us = snd (handle_UpdateUser idParam body us)"
| "account_apply lib (OpDeleteUser idParam) us = snd (handle_DeleteUser idParam us)"

lemma create_user_ok:
  assumes "users_ok us" and "CreateAdminUser lib salt newID username password role us = Some us'"
  shows "users_ok us'"
  using assms by (auto simp: CreateAdminUser_def users_ok_def split: option.splits if_splits)

lemma names_update:
  assumes "distinct (map ur_id us)" and "distinct (map ur_username us)"
    and "i \<notin> ur_id ` set us \<or> n \<notin> ur_username ` {u \<in> set us. ur_id u \<noteq> i}"
  shows "distinct (map (\<lambda>u. if ur_id u = i then n else ur_username u) us)"
  using assms
proof (induction us)
  case (Cons u us)
  then have "distinct (map (\<lambda>u. if ur_id u = i then n else ur_username u) us)" by auto
  with Cons.prems show ?case by (auto simp: image_iff)
qed simp

lemma update_user_ok:
  assumes "users_ok us" and "UpdateAdminUser i name role active us = Some us'"
  shows "users_ok us'"
proof -
  let ?f = "\<lambda>u. if ur_id u = i then u\<lparr>ur_username := name, ur_role := role, ur_active := active\<rparr> else u"
  from assms(2) have us': "us' = map ?f us" and role: "in_int16 role"
    and free: "i \<notin> ur_id ` set us \<or> name \<notin> ur_username ` {u \<in> set us. ur_id u \<noteq> i}"
    by (auto simp: UpdateAdminUser_def split: if_splits)
  have "ur_id \<circ> ?f = ur_id" "ur_username \<circ> ?f = (\<lambda>u. if ur_id u = i then name else ur_username u)"
    by (simp_all add: fun_eq_iff)
  then have keys: "map ur_id us' = map ur_id us"
      "map ur_username us' = map (\<lambda>u. if ur_id u = i then name else ur_username u) us"
    unfolding us' map_map by simp_all
  have rows: "list_all (\<lambda>u. is_serial (ur_id u) \<and> in_int16 (ur_role u)) us'"
    using assms(1) role by (auto simp: us' users_ok_def list_all_iff)
  have "distinct (map ur_id us)" "distinct (map ur_username us)" using assms(1) by (simp_all add: users_ok_def)
  with rows names_update [OF this free] show ?thesis unfolding users_ok_def keys by blast
qed

lemma delete_user_ok:
  assumes "users_ok us" and "DeleteAdminUser i us = Some us'"
  shows "users_ok us'"
proof -
  let ?f = "\<lambda>u. if ur_id u = i then u\<lparr>ur_active := False\<rparr> else u"
  from assms(2) have us': "us' = map ?f us" by (auto simp: DeleteAdminUser_def split: if_splits)
  have "ur_id \<circ> ?f = ur_id" "ur_username \<circ> ?f = ur_username" by (simp_all add: fun_eq_iff)
  then have keys: "map ur_id us' = map ur_id us" "map ur_username us' = map ur_username us"
    unfolding us' map_map by simp_all
  have "list_all (\<lambda>u. is_serial (ur_id u) \<and> in_int16 (ur_role u)) us'"
    using assms(1) by (auto simp: us' users_ok_def list_all_iff)
  with assms(1) show ?thesis unfolding users_ok_def keys by blast
qed

lemma account_apply_ok: "users_ok us \<Longrightarrow> users_ok (account_apply lib op us)"
  by (cases op) (auto simp: handle_CreateUser_def handle_UpdateUser_def handle_DeleteUser_def
      intro: create_user_ok update_user_ok delete_user_ok split: option.split)

lemma accounts_ok: "users_ok us \<Longrightarrow> users_ok (fold (account_apply lib) ops us)"
  by (induction ops arbitrary: us) (simp_all add: account_apply_ok)

subsection \<open>Tokens\<close>

lemma issue_ok:
  assumes "jwt_ok lib"
  shows "\<exists>tok. issue_token lib now user = (200, Some tok) \<and> tok \<noteq> [] \<and>
    (\<forall>t. jw_parse lib t tok = (if t < now + 3600 then Some user else None))"
proof -
  from assms obtain tok where "tok \<noteq> []" "jw_sign lib \<lparr>cl_user = user, cl_exp = now + 3600, cl_iat = now\<rparr> = Some tok"
    "\<forall>t. jw_parse lib t tok = (if t < now + 3600 then Some user else None)"
    unfolding jwt_ok_def by force
  then show ?thesis by (intro exI [of _ tok]) (simp add: issue_token_def)
qed

lemma access_with_token:
  assumes "tok \<noteq> []" and "\<And>t. jw_parse lib t tok = (if t < e then Some user else None)"
  shows "access_check (jw_parse lib t) Admin (Some (bearer tok)) =
      (if t < e then if au_role user = 0 then Inr (Some user) else Inl 403 else Inl 401)"
    and "access_check (jw_parse lib t) Authenticated (Some (bearer tok)) = (if t < e then Inr (Some user) else Inl 401)"
  using assms by (simp_all add: access_check_def AuthMiddleware_bearer AdminOnly_def)

text \<open>A browser that refreshes its token at the given times, and the token that it has then.\<close>

fun refresh_chain :: "jwt_lib \<Rightarrow> jsstr \<Rightarrow> nat list \<Rightarrow> jsstr option" where
  "refresh_chain lib tok [] = Some tok"
| "refresh_chain lib tok (t # ts) =
     (case handle_RefreshToken lib t (Some (bearer tok)) of
        (_, Some tok') \<Rightarrow> refresh_chain lib tok' ts
      | (_, None) \<Rightarrow> None)"

text \<open>Each time is less than an hour after the one before.\<close>

fun within_hours :: "nat \<Rightarrow> nat list \<Rightarrow> bool" where
  "within_hours t0 [] = True"
| "within_hours t0 (t # ts) = (t0 \<le> t \<and> t < t0 + 3600 \<and> within_hours t ts)"

lemma refresh_chain_lasts:
  assumes "jwt_ok lib" and "tok \<noteq> []" and "\<And>t. jw_parse lib t tok = (if t < t0 + 3600 then Some user else None)"
    and "within_hours t0 ts"
  shows "\<exists>tok'. refresh_chain lib tok ts = Some tok' \<and> tok' \<noteq> [] \<and>
    (\<forall>t. jw_parse lib t tok' = (if t < last (t0 # ts) + 3600 then Some user else None))"
  using assms(2-4)
proof (induction ts arbitrary: t0 tok)
  case (Cons t ts)
  obtain tok' where tok': "issue_token lib t user = (200, Some tok')" "tok' \<noteq> []"
    "\<forall>t'. jw_parse lib t' tok' = (if t' < t + 3600 then Some user else None)"
    using issue_ok [OF assms(1)] by blast
  have "handle_RefreshToken lib t (Some (bearer tok)) = (200, Some tok')"
    using Cons.prems(3) access_with_token(2) [OF Cons.prems(1,2), of t]
    by (simp add: handle_RefreshToken_def tok')
  with Cons.IH [OF tok'(2) tok'(3) [rule_format]] Cons.prems(3) show ?case by simp
qed auto

lemma login_body:
  "handle_Login blib jlib now (req_body (login_post username password)) us =
     (case AuthenticateAdmin blib (go_string username) (go_string password) us of
        None \<Rightarrow> (401, None)
      | Some user \<Rightarrow> issue_token jlib now (user_claims user))"
proof -
  have "toLowerCase (js ''username'') = js ''username''" "toLowerCase (js ''password'') = js ''password''"
    "js ''username'' \<noteq> js ''password''"
    by (simp_all add: toLowerCase_def lower_unit_def js.simps)
  then show ?thesis by (simp add: handle_Login_def login_post_def)
qed

lemma create_user_body:
  assumes "in_int64 role"
  shows "handle_CreateUser lib salt newID (req_body (users_post username password (Some role))) us =
     (case CreateAdminUser lib salt newID (go_string username) (go_string password) role us of
        None \<Rightarrow> (500, us)
      | Some us' \<Rightarrow> (201, us'))"
proof -
  have "toLowerCase (js ''username'') = js ''username''" "toLowerCase (js ''password'') = js ''password''"
    "toLowerCase (js ''role'') = js ''role''"
    by (simp_all add: toLowerCase_def lower_unit_def js.simps)
  moreover have "js ''username'' \<noteq> js ''password''" "js ''username'' \<noteq> js ''role''" "js ''password'' \<noteq> js ''role''"
    by (simp_all add: js.simps)
  ultimately show ?thesis using assms by (simp add: handle_CreateUser_def users_post_def)
qed

lemma find_new: "find P (xs @ [x]) = (case find P xs of None \<Rightarrow> if P x then Some x else None | Some y \<Rightarrow> Some y)"
  by (induction xs) auto

text \<open>Libraries for the demonstrations: a hash that is the salt and the password, and a token that writes the
  numbers of the claims in unary before the name.\<close>

definition demo_bcrypt :: bcrypt_lib where
  "demo_bcrypt = \<lparr>bc_Generate = (\<lambda>salt p. Some (salt @ p)), bc_Compare = (\<lambda>h p. suffix p h)\<rparr>"

lemma demo_bcrypt_ok: "bcrypt_ok demo_bcrypt"
  by (auto simp: bcrypt_ok_def demo_bcrypt_def suffix_def)

definition put_nat :: "nat \<Rightarrow> jsstr" where
  "put_nat n = replicate n 1 @ [0]"

definition get_nat :: "jsstr \<Rightarrow> nat \<times> jsstr" where
  "get_nat s = (length (takeWhile (\<lambda>u. u = 1) s), tl (dropWhile (\<lambda>u. u = 1) s))"

lemma get_put_nat: "get_nat (put_nat n @ s) = (n, s)"
proof -
  have "takeWhile (\<lambda>u. u = 1) (replicate n 1 @ 0 # s) = replicate n (1 :: 16 word)"
    "dropWhile (\<lambda>u. u = 1) (replicate n 1 @ 0 # s) = (0 :: 16 word) # s"
    by (induction n) simp_all
  then show ?thesis by (simp add: get_nat_def put_nat_def)
qed

definition put_int :: "int \<Rightarrow> jsstr" where
  "put_int n = put_nat (nat n) @ put_nat (nat (- n))"

definition get_int :: "jsstr \<Rightarrow> int \<times> jsstr" where
  "get_int s = (case get_nat s of (a, s') \<Rightarrow> (case get_nat s' of (b, s'') \<Rightarrow> (int a - int b, s'')))"

lemma get_put_int: "get_int (put_int n @ s) = (n, s)"
  by (simp add: get_int_def put_int_def get_put_nat)

definition demo_jwt :: jwt_lib where
  "demo_jwt =
     \<lparr>jw_sign = (\<lambda>c. Some (put_int (au_id (cl_user c)) @ put_int (au_role (cl_user c)) @ put_nat (cl_exp c) @
          au_username (cl_user c))),
      jw_parse = (\<lambda>now tok.
        case get_int tok of (i, s) \<Rightarrow> (case get_int s of (r, s') \<Rightarrow> (case get_nat s' of (e, name) \<Rightarrow>
          if now < e then Some \<lparr>au_id = i, au_username = name, au_role = r\<rparr> else None)))\<rparr>"

lemma demo_jwt_ok: "jwt_ok demo_jwt"
proof -
  have "put_int n \<noteq> []" for n by (simp add: put_int_def put_nat_def)
  then show ?thesis by (simp add: jwt_ok_def demo_jwt_def get_put_int get_put_nat)
qed

definition demo_user :: user_row where
  "demo_user = \<lparr>ur_id = 2, ur_username = ''ana'', ur_password = ''saltpw'', ur_role = 0, ur_active = True\<rparr>"

lemma demo_names: "go_string (js ''ana'') = ''ana''" "go_string (js ''pw'') = ''pw''"
  by (rule go_string_plain, code_simp)+

lemma demo_create:
  "handle_CreateUser demo_bcrypt ''salt'' 2 (req_body (users_post (js ''ana'') (js ''pw'') (Some 0))) [] = (201, [demo_user])"
  by (simp add: create_user_body in_int64_def in_int16_def CreateAdminUser_def demo_bcrypt_def demo_names is_serial_def
      varchar_fits_def text_fits_def demo_user_def)

subsection \<open>Properties\<close>

text \<open>C16: An account works from the first login to the guard: when the users page creates a user, the login page can log in
  with the same name and password, and the token admits the user for exactly an hour, to the administrator routes if and
  only if the role is 0.\<close>

theorem account_works:
  assumes "bcrypt_ok blib" and "jwt_ok jlib" and "in_int64 role"
    and "handle_CreateUser blib salt newID (req_body (users_post username password (Some role))) us = (201, us')"
  shows "\<exists>tok user. handle_Login blib jlib now (req_body (login_post username password)) us' = (200, Some tok) \<and>
    au_id user = newID \<and> au_role user = role \<and>
    (\<forall>t. access_check (jw_parse jlib t) Admin (Some (bearer tok)) =
       (if t < now + 3600 then if role = 0 then Inr (Some user) else Inl 403 else Inl 401))"
proof -
  from assms(4) obtain hash where hash: "bc_Generate blib salt (go_string password) = Some hash"
    and new: "go_string username \<notin> ur_username ` set us"
    and us': "us' = us @ [\<lparr>ur_id = newID, ur_username = go_string username, ur_password = hash, ur_role = role,
        ur_active = True\<rparr>]"
    by (auto simp: create_user_body [OF assms(3)] CreateAdminUser_def split: option.splits if_splits)
  let ?row = "\<lparr>ur_id = newID, ur_username = go_string username, ur_password = hash, ur_role = role, ur_active = True\<rparr>"
  have "find (\<lambda>u. ur_username u = go_string username \<and> ur_active u) us = None"
    using new by (force simp: find_None_iff)
  then have "AuthenticateAdmin blib (go_string username) (go_string password) us' = Some ?row"
    using assms(1) hash by (simp add: AuthenticateAdmin_def us' find_new bcrypt_ok_def)
  moreover obtain tok where tok: "issue_token jlib now (user_claims ?row) = (200, Some tok)" "tok \<noteq> []"
    "\<forall>t. jw_parse jlib t tok = (if t < now + 3600 then Some (user_claims ?row) else None)"
    using issue_ok [OF assms(2)] by blast
  ultimately have "handle_Login blib jlib now (req_body (login_post username password)) us' = (200, Some tok)"
    by (simp add: login_body)
  then show ?thesis
    using access_with_token(1) [OF tok(2) tok(3) [rule_format]] by (intro exI [of _ tok] exI [of _ "user_claims ?row"]) (simp add: user_claims_def)
qed

theorem account_works_witness:
  "\<exists>tok user. handle_Login demo_bcrypt demo_jwt 100 (req_body (login_post (js ''ana'') (js ''pw''))) [demo_user] =
      (200, Some tok) \<and> au_id user = 2 \<and>
    access_check (jw_parse demo_jwt 3000) Admin (Some (bearer tok)) = Inr (Some user) \<and>
    access_check (jw_parse demo_jwt 3700) Admin (Some (bearer tok)) = Inl 401"
proof -
  have "in_int64 0" by (simp add: in_int64_def)
  from account_works [OF demo_bcrypt_ok demo_jwt_ok this demo_create, of 100] show ?thesis by force
qed

text \<open>The table of users keeps its keys: after any history of requests to create, change and deactivate users, ids
  and names are unique, whatever the requests were and whichever failed.\<close>

theorem accounts_unique:
  assumes "users_ok us"
  shows "users_ok (fold (account_apply lib) ops us)"
  using assms by (rule accounts_ok)

theorem accounts_unique_witness:
  "users_ok (fold (account_apply demo_bcrypt) [OpDeleteUser (num_str 2)] [demo_user])"
  by (rule accounts_unique) (simp add: users_ok_def demo_user_def is_serial_def in_int16_def)

text \<open>C17: Deactivating a user ends nothing that runs: the user cannot log in again, but a token issued before, refreshed
  at least once an hour, admits the user with the old role for ever, because neither the guard nor the
  refresh asks the table.\<close>

theorem deactivated_keeps_session:
  assumes "users_ok us" and "jwt_ok jlib" and "u \<in> set us" and "go_string username = ur_username u"
    and "handle_Login blib jlib t0 (req_body (login_post username password)) us = (200, Some tok)"
    and "handle_DeleteUser (num_str (ur_id u)) us = (200, us')" and "within_hours t0 ts"
  shows "handle_Login blib jlib now (req_body (login_post username pw)) us' = (401, None) \<and>
    (\<exists>tok'. refresh_chain jlib tok ts = Some tok' \<and>
       (\<forall>t < last (t0 # ts) + 3600. access_check (jw_parse jlib t) Admin (Some (bearer tok')) =
          (if ur_role u = 0 then Inr (Some (user_claims u)) else Inl 403)))"
proof -
  have int: "in_int64 (ur_id u)" "in_int32 (ur_id u)"
    using assms(1,3) by (auto simp: users_ok_def list_all_iff is_serial_def in_int64_def in_int32_def)
  let ?f = "\<lambda>v. if ur_id v = ur_id u then v\<lparr>ur_active := False\<rparr> else v"
  have us': "us' = map ?f us"
    using assms(6) by (simp add: handle_DeleteUser_def Atoi_num_str int DeleteAdminUser_def)
  have same: "v = u" if "v \<in> set us" "ur_username v = ur_username u" for v
    using that assms(1,3) by (auto simp: users_ok_def distinct_map inj_on_def)
  have "find (\<lambda>v. ur_username v = ur_username u \<and> ur_active v) us' = None"
    using same by (auto simp: find_None_iff us')
  then have out: "handle_Login blib jlib now (req_body (login_post username pw)) us' = (401, None)"
    by (simp add: login_body AuthenticateAdmin_def assms(4))
  from assms(5) obtain v where v: "AuthenticateAdmin blib (ur_username u) (go_string password) us = Some v"
    and tok: "issue_token jlib t0 (user_claims v) = (200, Some tok)"
    by (auto simp: login_body assms(4) split: option.splits)
  from v have "v \<in> set us" "ur_username v = ur_username u"
    by (auto simp: AuthenticateAdmin_def find_Some_iff split: option.splits if_splits)
  then have "v = u" by (rule same)
  obtain tok0 where "issue_token jlib t0 (user_claims u) = (200, Some tok0)" "tok0 \<noteq> []"
    "\<forall>t. jw_parse jlib t tok0 = (if t < t0 + 3600 then Some (user_claims u) else None)"
    using issue_ok [OF assms(2)] by blast
  with tok \<open>v = u\<close> have "tok \<noteq> []" "\<And>t. jw_parse jlib t tok = (if t < t0 + 3600 then Some (user_claims u) else None)"
    by simp_all
  from refresh_chain_lasts [OF assms(2) this assms(7)] obtain tok' where "refresh_chain jlib tok ts = Some tok'" "tok' \<noteq> []"
    "\<forall>t. jw_parse jlib t tok' = (if t < last (t0 # ts) + 3600 then Some (user_claims u) else None)" by blast
  with out show ?thesis
    using access_with_token(1) [of tok' jlib "last (t0 # ts) + 3600" "user_claims u"]
    by (auto simp: user_claims_def simp del: last.simps)
qed

theorem deactivated_keeps_session_witness:
  "\<exists>us' tok tok'. handle_DeleteUser (num_str 2) [demo_user] = (200, us') \<and>
    handle_Login demo_bcrypt demo_jwt 9000 (req_body (login_post (js ''ana'') (js ''pw''))) us' = (401, None) \<and>
    refresh_chain demo_jwt tok [3000, 6000] = Some tok' \<and>
    access_check (jw_parse demo_jwt 9000) Admin (Some (bearer tok')) = Inr (Some (user_claims demo_user))"
proof -
  have "in_int64 0" by (simp add: in_int64_def)
  have ok: "users_ok [demo_user]" "demo_user \<in> set [demo_user]" "go_string (js ''ana'') = ur_username demo_user"
    "within_hours 100 [3000, 6000]"
    by (simp_all add: users_ok_def demo_user_def is_serial_def in_int16_def demo_names)
  have login: "handle_Login demo_bcrypt demo_jwt 100 (req_body (login_post (js ''ana'') (js ''pw''))) [demo_user] =
      issue_token demo_jwt 100 (user_claims demo_user)"
    by (simp add: login_body demo_names AuthenticateAdmin_def demo_bcrypt_def) (simp add: demo_user_def suffix_def)
  obtain tok where tok: "issue_token demo_jwt 100 (user_claims demo_user) = (200, Some tok)"
    using issue_ok [OF demo_jwt_ok] by blast
  have gone: "handle_DeleteUser (num_str (ur_id demo_user)) [demo_user] = (200, [demo_user\<lparr>ur_active := False\<rparr>])"
    by (simp add: handle_DeleteUser_def demo_user_def Atoi_num_str in_int64_def in_int32_def DeleteAdminUser_def)
  from deactivated_keeps_session [OF ok(1) demo_jwt_ok ok(2,3) login [unfolded tok] gone ok(4), of 9000 "js ''pw''"]
  obtain tok' where "refresh_chain demo_jwt tok [3000, 6000] = Some tok'"
    "access_check (jw_parse demo_jwt 9000) Admin (Some (bearer tok')) = Inr (Some (user_claims demo_user))"
    "handle_Login demo_bcrypt demo_jwt 9000 (req_body (login_post (js ''ana'') (js ''pw''))) [demo_user\<lparr>ur_active := False\<rparr>] =
      (401, None)"
    by (auto simp: demo_user_def)
  with gone show ?thesis by (auto simp: demo_user_def)
qed

end
