(* ===== verification/Spec2Isabelle.thy ===== *)
theory Spec2Isabelle
  imports Backend LoginPage Session Captive ServerConfig LogPipeline RateLimit AdminApi LogStats Downloads Startup
begin

text \<open>
  A verification development for dns-filter, a filtering DNS server with a web dashboard. It models the dashboard, the
  React application under \<open>web/src\<close>, and the server in Go: the path of a DNS query, the filter engine, the cache, the
  identity resolver and the captive portal, the query log, the API and the tables behind it, and the start.

  \<^bold>\<open>The program.\<close> An administrator edits groups, lists, ranges, policies and users on the pages of the dashboard. A page
  calls the API through the client of \<open>api/client.ts\<close>; \<open>internal/api/router.go\<close> checks the token and the role,
  \<open>internal/api/handlers.go\<close> decodes the request, and \<open>internal/store\<close> executes it on PostgreSQL. A trigger of the
  database notifies the listener, whose callback in \<open>cmd/dnsfilter/main.go\<close> loads lists, categories and policies into the
  engine of \<open>internal/filter\<close>. The DNS handler of \<open>internal/dns\<close> asks the identity resolver who a client is, sends it to the
  captive portal or asks the engine, then the cache, then the upstream servers, and gives each query to
  the log pipeline, whose table the pages for the log and the overview show.

  \<^bold>\<open>How a page is modelled.\<close> A page is a record of its state variables that extends \<open>async\<close> (requests in flight, each with
  the continuation behind its \<open>await\<close>, and timers that have not fired). A handler is a function on that record up to its
  first \<open>await\<close>, the rest of it a case of the page's \<open>resume\<close> function; the view is a tree of elements. The machine of
  a page (\<open>page_step\<close> in \<open>Runtime\<close>) performs clicks, submits and edits that the rendered view offers, replies to any request in
  flight, and timers, in any order. Statements about reachable states therefore hold for every interleaving of the user,
  the network and the clock.

  \<^bold>\<open>How the server is modelled.\<close> Each structure is a record with one function per method. What runs under one
  lock, one query, one request with its transaction, is one step; a reload is a sequence of steps with
  queries between them. The pipeline and the listener are machines, whose histories are all lists of events that
  their step function accepts. A failing statement is \<open>None\<close>, a status is a number, a clock is an argument, and where Go or
  PostgreSQL leave an order open (maps, rows without \<open>ORDER BY\<close>, equal keys) the order is an input or a relation.

  \<^bold>\<open>Theories of the dashboard.\<close>
  \<^item> \<open>Prelude\<close>: lists by position, runs and reachability of partial step functions, the locale
    \<open>machine_invariant\<close>.
  \<^item> \<open>JsText\<close>, \<open>JsNumber\<close>, \<open>UrlParams\<close>, \<open>Storage\<close>: what the code uses of the language and the browser.
    Strings of UTF-16 units with \<open>trim\<close>, \<open>split\<close>, \<open>join\<close>, \<open>replace\<close>, \<open>toLowerCase\<close>, \<open>Number\<close>; doubles
    as rationals rounded to 53 bits, with \<open>toFixed\<close>; \<open>URLSearchParams\<close> against Go's query parser;
    \<open>localStorage\<close> with its laws as the locale \<open>web_storage\<close>.
  \<^item> \<open>Dom\<close>, \<open>Runtime\<close>, \<open>Shared\<close>: elements and what a user can do with them (enabled buttons, forms that
    a browser would submit, options of a select), pages as machines (locales \<open>page\<close> and
    \<open>exclusive_page\<close>), the markup and the category lists that pages share (locale \<open>multi_select\<close>).
  \<^item> \<open>LoginPage\<close>, \<open>DashboardPage\<close>, \<open>LogsPage\<close>, \<open>UsersPage\<close>, \<open>GroupsPage\<close>, \<open>ListsPage\<close>, \<open>RangesPage\<close>: one per
    page of \<open>web/src/pages\<close>, complete with every handler, every error path and the view; the names
    are those of the source, with a prefix where two pages use the same name.
  \<^item> \<open>ApiClient\<close>: the interceptors of \<open>api/client.ts\<close> as a machine of calls, with the token in the
    storage and the refresh after a 401.
  \<^item> \<open>Session\<close>: the routes of \<open>App.tsx\<close>, the guard and the menu of \<open>MainLayout.tsx\<close>, and the life of a session in a tab.

  \<^bold>\<open>Theories of the server.\<close>
  \<^item> \<open>GoText\<close>: byte strings and the functions of the package \<open>strings\<close> that the code calls.
  \<^item> \<open>DomainList\<close>, \<open>PolicyEngine\<close>: \<open>internal/filter\<close>, lists that answer for all names below theirs (locale
    \<open>subtree_filter\<close>), the format of list files, and the decision of the engine.
  \<^item> \<open>Identity\<close>, \<open>Cache\<close>, \<open>DnsHandler\<close>, \<open>Captive\<close>: sessions and ranges, the cache with its Redis level, \<open>ServeDNS\<close> with the
    upstream servers, the login at the portal.
  \<^item> \<open>LogPipeline\<close>, \<open>LogQuery\<close>, \<open>LogStats\<close>: the writer of the query log, the query behind the log page, the statistics and
    metrics behind the overview.
  \<^item> \<open>Backend\<close>, \<open>RateLimit\<close>, \<open>Accounts\<close>: the route table, \<open>AuthMiddleware\<close>, \<open>AdminOnly\<close> and the request structs with the
    contract between both sides; the limiter; login, refresh and the users.
  \<^item> \<open>Tables\<close>, \<open>AdminStore\<close>, \<open>ConfigStore\<close>, \<open>ConfigApi\<close>, \<open>AdminApi\<close>: decoding, tables with the constraints of \<open>migrations\<close>, the
    statements and handlers for groups, lists, ranges, policies, categories and entries, what a reload reads, and what
    a change of the configuration means for the answers of the DNS server.
  \<^item> \<open>ServerConfig\<close>, \<open>Downloads\<close>, \<open>Startup\<close>: rows to lists and maps and the reload; external lists (\<open>updater.go\<close> and
    \<open>DownloadLists\<close>); configuration file, first load and listener.
  \<^item> this theory: what follows for several components together.

  \<^bold>\<open>What the theorems show.\<close> From end to end: what is saved on the pages is in the tables, is notified, and after the reload
  decides the queries; a list file on the web blocks its names; the log page shows the matching entries and the overview
  the counters; an account made on the users page logs in and passes the guards; a login at the portal opens the way to
  the policy. Per component: each page keeps its invariant (requests that exclude each other do, every request in
  flight is one its handler can send, with checked fields, and the API serves it); the policy editor refines the
  server's policies; the API client sends a call at most twice, keeps one refresh at a time and settles every call;
  domain lists refine a set of names, the cache a map with times to live, the limiter one bucket per client; the
  engine decides by white list, black list and nearest category; ranges sorted at the start mean the most specific range;
  no entry of the log is lost uncounted, and stopping the pipeline writes all it accepted; the constraints of the tables
  hold after any history of requests. Some theorems record behaviour that a reader may not expect: two parallel calls with
  an expired token end the session; the refresh cannot succeed with a token that was refused; a deactivated
  user keeps access for ever by refreshing; a change while the listener is not connected is not loaded; without a
  configuration file the secret of the tokens is empty whatever the environment says; one bad domain blocks the
  update of its list; entries of the log with equal times can be hidden by the pages; a late reply leaves stale rows;
  deleted ranges stay in the resolver until the next start.

  \<^bold>\<open>Parameters and hypotheses.\<close> Third-party code is a parameter. In the dashboard: \<open>merge\<close> (how axios copies a
  configuration), \<open>match\<close> (how react-router compares addresses), \<open>core_rows\<close> (the row model of the table library), with
  \<open>keeps_retry\<close>, \<open>keeps_request\<close>, \<open>router_match\<close>. In the server: \<open>parse\<close> and \<open>jwt_lib\<close> (golang-jwt), \<open>bcrypt_lib\<close>, \<open>redis_lib\<close>
  with its own clock, \<open>dns_lib\<close> and \<open>exchange\<close> (the DNS library and the upstream servers), \<open>rate_lib\<close> (the token bucket),
  \<open>net_lib\<close> (\<open>net.ParseCIDR\<close> and the type \<open>cidr\<close>), \<open>log_lib\<close> (how PostgreSQL reads an address, a number and a time), the
  YAML reader, and the texts in which times and addresses are printed. Answers of the network, outcomes of inserts and
  values of sequences are inputs. Hypotheses on them state documented behaviour, and each theorem with a hypothesis has a
  witness at a concrete instance.

  \<^bold>\<open>Interfaces.\<close> The locales are interpreted on the model of the code: \<open>machine_invariant\<close>, \<open>page\<close> and \<open>exclusive_page\<close> on the pages
  and machines, \<open>multi_select\<close> on the category lists, \<open>web_storage\<close> on the storage, \<open>subtree_filter\<close> on
  the domain list, \<open>authenticator\<close> on both authenticators of the portal, \<open>transaction\<close> (a statement keeps the
  constraints) on every statement that changes the tables.

  \<^bold>\<open>Bounds.\<close> No fuel is used: all functions are total, and loops of events are lists or reachability. \<open>toLowerCase\<close> covers
  ASCII and Latin-1; \<open>Number\<close> the decimal integers that the selects carry; \<open>toFixed\<close> values below \<open>10 ^ 21\<close>. Functions of
  the package \<open>strings\<close> are exact on ASCII, which names in DNS messages are. The capacity of the log channel is
  positive. An offset is below \<open>2 ^ 63\<close>. A text longer than its column is refused; PostgreSQL would cut it if
  the rest were blanks. A reply has the type its handler in Go gives it, with missing, null and (where the code looks)
  non-array bodies as cases.

  \<^bold>\<open>Not modelled.\<close> Class names that do not depend on the state, icons and placeholders; the double effects of React's strict
  mode in development; \<open>main.tsx\<close>, which mounts the application; the build and lint configuration and the bundled copy of the
  dashboard, which have no logic of the program's own; the handlers \<open>HealthCheck\<close> (a constant) and \<open>InvalidateCache\<close> (a call
  of \<open>Invalidate\<close>, which is modelled); the writing of the JSON of list replies; \<open>frontend.go\<close>, which serves the embedded files;
  the connection pool, the migration runner and the retention policy, calls of libraries; sockets, the structured log and the
  interactive setup; the fixed HTML of the portal.
\<close>

subsection \<open>The overview and the API client\<close>

lemma two_requests:
  assumes "keeps_retry merge"
  shows "\<exists>s c c'. run (client_step merge) [Request q, Request q'] (client_start st path) = Some s \<and>
    c_calls s = [Sent c, Sent c'] \<and> \<not> cf_retry c \<and> \<not> cf_retry c' \<and> \<not> c_isRefreshing s \<and>
    c_storage s = st"
  using assms by (simp add: client_defs keeps_retry_def Let_def)

text \<open>C34: Opening the overview with a token that the server refuses ends the session even though the
  refresh is only on its way: of its two requests the first 401 starts the refresh and the second
  removes the token and leaves for the login page, in whichever order they arrive.\<close>

theorem overview_ends_session:
  assumes "keeps_retry merge" and "truthy (getItem token_key st)" and "i < 2" and "j < 2" and "i \<noteq> j"
  shows "\<exists>t. run (client_step merge)
      (map (\<lambda>c. Request (fst c)) (inflight dashboard_init) @
       [Respond i (Failure (HttpError 401)), Respond j (Failure (HttpError 401))]) (client_start st path)
      = Some t \<and>
     refreshing_calls t = 1 \<and> c_token t = None \<and> c_location t = login_path \<and>
     c_calls t ! j = Rejected (HttpError 401)"
proof -
  have polls: "map (\<lambda>c. Request (fst c)) (inflight dashboard_init) = [Request metrics_get, Request stats_get]"
    by (simp add: dashboard_eval)
  obtain s c c' where s: "run (client_step merge) [Request metrics_get, Request stats_get]
      (client_start st path) = Some s"
    "c_calls s = [Sent c, Sent c']" "\<not> cf_retry c" "\<not> cf_retry c'" "\<not> c_isRefreshing s"
    "c_storage s = st"
    using two_requests [OF assms(1)] by blast
  have "i = 0 \<and> j = 1 \<or> i = 1 \<and> j = 0" using assms(3-5) by auto
  then show ?thesis
    unfolding polls run_append s(1) using s(2-6) assms(2)
    by (auto simp: response_error_def settle_def end_session_def c_token_def refreshing_calls_def Let_def)
qed

theorem overview_ends_session_witness:
  "\<exists>t. run (client_step id)
      (map (\<lambda>c. Request (fst c)) (inflight dashboard_init) @
       [Respond 1 (Failure (HttpError 401)), Respond 0 (Failure (HttpError 401))])
      (client_start demo_store (js ''/'')) = Some t \<and> c_token t = None"
  using overview_ends_session [of id demo_store 1 0 "js ''/''"] by (auto simp: keeps_retry_def js.simps)

subsection \<open>Roles and the menu\<close>

text \<open>What a page asks for when it is opened.\<close>

definition screen_requests :: "screen \<Rightarrow> request list" where
  "screen_requests sc =
     (case sc of
        Login \<Rightarrow> []
      | Dashboard \<Rightarrow> map fst (inflight dashboard_init)
      | Logs \<Rightarrow> map fst (inflight logs_init)
      | Users \<Rightarrow> map fst (inflight users_init)
      | Groups \<Rightarrow> map fst (inflight groups_init)
      | Lists \<Rightarrow> map fst (inflight lists_init)
      | Ranges \<Rightarrow> map fst (inflight ranges_init))"

lemma users_opening: "\<forall>q \<in> set (screen_requests Users). served_with Admin q"
  using users_inv_init users_call_served by (fastforce simp: screen_requests_def users_inv_def)

lemma ranges_opening: "\<forall>q \<in> set (screen_requests Ranges). served_with Admin q"
  using ranges_inv_init ranges_call_served by (fastforce simp: screen_requests_def ranges_inv_def)

lemma groups_opening: "\<forall>q \<in> set (screen_requests Groups). served_with Admin q"
  using groups_inv_init groups_call_served by (fastforce simp: screen_requests_def groups_inv_def)

lemma lists_opening: "\<forall>q \<in> set (screen_requests Lists). served_with Admin q"
  using lists_inv_init lists_call_served by (fastforce simp: screen_requests_def lists_inv_def)

text \<open>The menu does not know roles: a user who is not an administrator is offered the pages for users,
  groups, lists and ranges and is shown them, and every request with which such a page opens is one that
  the API answers with 403.\<close>

theorem viewer_menu:
  assumes "router_match match" and "tok \<noteq> []" and "parse tok = Some user" and "au_role user \<noteq> 0"
    and "(p, sc) \<in> set protected_routes" and "sc \<in> {Users, Groups, Lists, Ranges}"
  shows "p \<in> set (links (MainLayout pathname logout outlet)) \<and> App match (Some tok) p = Framed sc \<and>
    screen_requests sc \<noteq> [] \<and> (\<forall>q \<in> set (screen_requests sc). served_with Admin q) \<and>
    access_check parse Admin (Some (bearer tok)) = Inl 403"
proof -
  have "map fst protected_routes = map fst navItems" by (simp add: protected_routes_def navItems_def)
  then have "p \<in> fst ` set navItems" using assms(5) by (metis fst_conv image_eqI set_map)
  moreover have "App match (Some tok) p = Framed sc"
    using App_protected [OF assms(1,5)] assms(2) by simp
  moreover have "\<forall>q \<in> set (screen_requests sc). served_with Admin q"
    using assms(6) users_opening groups_opening lists_opening ranges_opening by blast
  moreover have "screen_requests sc \<noteq> []"
    using assms(6)
    by (auto simp: screen_requests_def users_init_def groups_init_def lists_init_def ranges_init_def
          fetchUsers_def fetchGroups_def groups_fetchCategories_def fetchLists_def
          lists_fetchCategories_def fetchRanges_def ranges_fetchGroups_def issue_def)
  moreover have "access_check parse Admin (Some (bearer tok)) = Inl 403"
    using assms(2-4) by (simp add: access_check_def AuthMiddleware_bearer AdminOnly_def)
  ultimately show ?thesis by (simp add: view_simps)
qed

theorem viewer_menu_witness:
  "App router_exact (Some (js ''t1'')) (js ''/users'') = Framed Users \<and>
   access_check (demo_parse 0) Admin (Some (bearer (js ''t1''))) = Inl 403"
  using viewer_menu [OF router_exact_ok, of "js ''t1''" "demo_parse 0"
      "\<lparr>au_id = 1, au_username = js ''ana'', au_role = 1\<rparr>" "js ''/users''" Users "[]" "()"
      "Text [] :: (unit, unit) node"]
  by (simp add: demo_parse_def protected_routes_def js.simps)

end
